(* ===== verification/Prelude.thy ===== *)
theory Prelude
  imports Main "HOL-Library.Sublist"
begin

text \<open>
  Shared vocabulary of the development. The patcher (\<open>src/src/main.rs\<close>) runs in
  anyhow's \<open>Result\<close>: every \<open>?\<close> and every \<open>require_with!\<close> returns early with an
  error. Here a fallible computation is a value of \<open>error + 'a\<close> (\<open>Inl\<close> the error),
  sequenced by \<open>bind_res\<close>, the \<open>?\<close> operator. The error type names the failure
  classes of the program: a missing method, a missing anchor (both with the exact message
  the source passes to \<open>require_with!\<close>), a fragment that does not parse, an I/O error on
  a path, a class file the smali reader cannot parse, and a panic of the standard library (an index out of range in \<open>Vec\<close>).
  Paths are lists of components, so \<open>Path::join\<close> is list append. The collection
  \<open>normal_forms\<close> gathers, from the component theories, each patch and file action
  rewritten as a cascade of cases over its lookups and parses; evaluating a patch on a
  concrete class is \<open>simp\<close> with these rules.
\<close>

named_theorems normal_forms "case-cascade normal forms of the patches and file actions, for evaluating them"

type_synonym path = "string list"

datatype error =
    MissingMethod string
  | MissingAnchor string
  | FragmentParseError
  | IOError path
  | ClassParseError path
  | Panic string

type_synonym 'a result = "error + 'a"

definition bind_res :: "'a result \<Rightarrow> ('a \<Rightarrow> 'b result) \<Rightarrow> 'b result" where
  "bind_res r f = (case r of Inl e \<Rightarrow> Inl e | Inr x \<Rightarrow> f x)"

definition require_with :: "'a option \<Rightarrow> error \<Rightarrow> 'a result" where
  "require_with opt e = (case opt of None \<Rightarrow> Inl e | Some x \<Rightarrow> Inr x)"

text \<open>Splitting a string at separator characters, dropping empty pieces, as
  \<open>str::split(..).filter(|w| !w.is_empty())\<close> does; used for the words of an
  instruction and the components of a path.\<close>

fun split_by :: "(char \<Rightarrow> bool) \<Rightarrow> string \<Rightarrow> string \<Rightarrow> string list" where
  "split_by sep acc [] = (if acc = [] then [] else [rev acc])"
| "split_by sep acc (c # cs) =
     (if sep c then (if acc = [] then split_by sep [] cs else rev acc # split_by sep [] cs)
      else split_by sep (c # acc) cs)"

text \<open>Decimal digits, as \<open>str::parse::<usize>\<close> reads them.\<close>

definition is_digit :: "char \<Rightarrow> bool" where
  "is_digit c = (48 \<le> (of_char c :: nat) \<and> (of_char c :: nat) \<le> 57)"

definition nat_of_digits :: "string \<Rightarrow> nat" where
  "nat_of_digits ds = foldl (\<lambda>n d. 10 * n + (of_char d - 48)) 0 ds"

lemma split_by_append_sep:
  "sep c \<Longrightarrow> split_by sep acc (s @ c # t) = split_by sep acc s @ split_by sep [] t"
  by (induction sep acc s rule: split_by.induct) simp_all

lemma split_by_pieces:
  "\<forall>x\<in>set acc. \<not> sep x \<Longrightarrow> w \<in> set (split_by sep acc u) \<Longrightarrow> w \<noteq> [] \<and> (\<forall>x\<in>set w. \<not> sep x)"
proof (induction u arbitrary: acc)
  case (Cons c cs)
  show ?case
  proof (cases "sep c")
    case True
    then have "w \<in> set (split_by sep [] cs) \<or> (acc \<noteq> [] \<and> w = rev acc)"
      using Cons.prems(2) by (cases "acc = []") auto
    then show ?thesis using Cons.IH [of "[]"] Cons.prems(1) by auto
  next
    case False
    have "\<forall>x\<in>set (c # acc). \<not> sep x" using Cons.prems(1) False by simp
    moreover have "w \<in> set (split_by sep (c # acc) cs)" using Cons.prems(2) False by simp
    ultimately show ?thesis by (rule Cons.IH)
  qed
qed (simp split: if_splits)

lemma split_by_set: "w \<in> set (split_by sep acc u) \<Longrightarrow> set w \<subseteq> set acc \<union> set u"
proof (induction u arbitrary: acc)
  case (Cons c cs)
  show ?case
  proof (cases "sep c")
    case True
    then have "w \<in> set (split_by sep [] cs) \<or> w = rev acc"
      using Cons.prems by (cases "acc = []") auto
    then show ?thesis using Cons.IH [of "[]"] by auto
  next
    case False
    then have "w \<in> set (split_by sep (c # acc) cs)" using Cons.prems by simp
    from Cons.IH [OF this] show ?thesis by auto
  qed
qed (simp split: if_splits)

lemma split_by_no_sep:
  "\<forall>x\<in>set u. \<not> sep x \<Longrightarrow> split_by sep acc u = (if rev acc @ u = [] then [] else [rev acc @ u])"
  by (induction u arbitrary: acc) simp_all

lemma split_by_joined:
  assumes "sep c" and "\<forall>w\<in>set ws. w \<noteq> [] \<and> (\<forall>x\<in>set w. \<not> sep x)"
  shows "split_by sep [] (concat (map (\<lambda>w. w @ [c]) ws) @ u) = ws @ split_by sep [] u"
  using assms(2)
proof (induction ws)
  case (Cons w ws)
  then show ?case
    using split_by_append_sep [of sep c "[]" w "concat (map (\<lambda>w. w @ [c]) ws) @ u", OF assms(1)]
    by (simp add: split_by_no_sep)
qed simp

lemma list_all_list_update: "list_all P xs \<Longrightarrow> P x \<Longrightarrow> list_all P (xs[i := x])"
  by (auto simp: list_all_iff dest: set_update_subset_insert [THEN subsetD])

lemma bind_res_Inl [simp]: "bind_res (Inl e) f = Inl e"
  by (simp add: bind_res_def)

lemma bind_res_Inr [simp]: "bind_res (Inr x) f = f x"
  by (simp add: bind_res_def)

lemma require_with_None [simp]: "require_with None e = Inl e"
  by (simp add: require_with_def)

lemma require_with_Some [simp]: "require_with (Some x) e = Inr x"
  by (simp add: require_with_def)

lemma require_with_eq_Inr [simp]: "require_with opt e = Inr x \<longleftrightarrow> opt = Some x"
  by (cases opt) simp_all

lemma require_with_eq_Inl [simp]: "require_with opt e = Inl e' \<longleftrightarrow> opt = None \<and> e' = e"
  by (cases opt) auto

subsection \<open>Lists cut and glued at an index\<close>

text \<open>
  \<open>Vec::splice\<close>, \<open>Vec::insert\<close> and \<open>Vec::pop\<close> are all "keep a prefix, put
  something in the middle, keep a suffix". These facts describe such a list entry by entry.
\<close>

lemma nth_take_append_drop:
  assumes "s \<le> e" and "e \<le> length xs"
  shows "(take s xs @ ys @ drop e xs) ! k =
    (if k < s then xs ! k
     else if k < s + length ys then ys ! (k - s)
     else xs ! (k - s - length ys + e))"
proof -
  have s: "length (take s xs) = s" using assms by simp
  consider "k < s" | "s \<le> k" "k < s + length ys" | "s + length ys \<le> k" by linarith
  then show ?thesis
  proof cases
    case 1
    then have "(take s xs @ ys @ drop e xs) ! k = take s xs ! k"
      using s by (simp add: nth_append_left)
    with 1 show ?thesis by simp
  next
    case 2
    then have "(take s xs @ ys @ drop e xs) ! k = (ys @ drop e xs) ! (k - s)"
      using s by (simp add: nth_append_right)
    with 2 show ?thesis by (simp add: nth_append_left)
  next
    case 3
    then have "(take s xs @ ys @ drop e xs) ! k = drop e xs ! (k - s - length ys)"
      using s by (simp add: nth_append_right)
    with 3 assms show ?thesis by (simp add: add.commute)
  qed
qed

lemma length_take_append_drop:
  assumes "s \<le> e" and "e \<le> length xs"
  shows "length (take s xs @ ys @ drop e xs) = length xs - (e - s) + length ys"
  using assms by simp

end
