(* ===== verification/Smali_Model.thy ===== *)
theory Smali_Model
  imports Prelude
begin

text \<open>
  The structured model of a disassembled class that the patcher edits: the types of the
  \<open>smali\<close> crate that \<open>src/src/main.rs\<close> imports (lines 4--11) and fills in
  (lines 118--129). The crate itself is not part of the repository; its types are
  reconstructed from the fields and constructors the source uses and from the data model
  of the specification (section 3). An instruction entry is a plain instruction, a label
  or a directive, each carrying its text; a method has a name, modifiers, a signature, a
  count of local registers, annotations and its ordered list of entries; a class has a
  name, modifiers, an optional superclass and its ordered list of methods.
\<close>

datatype smali_instruction =
    Instruction string
  | Label string
  | Directive string

datatype modifier =
    Public | Private | Protected | Static | Final | Synchronized | Bridge | Varargs
  | Native | Abstract | Strict | Synthetic

datatype type_signature =
    Bool | Byte | Char | Short | Int | Long | Float | Double | Void
  | Object string
  | Array type_signature

record method_signature =
  args :: "type_signature list"
  return_type :: type_signature

record smali_method =
  name :: string
  modifiers :: "modifier list"
  constructor :: bool
  signature :: method_signature
  locals :: nat
  annotations :: "string list"
  instructions :: "smali_instruction list"

record smali_class =
  class_name :: string
  class_modifiers :: "modifier list"
  super_class :: "string option"
  methods :: "smali_method list"

type_synonym fragment_text = "string list"

type_synonym fragment_parser = "fragment_text \<Rightarrow> smali_instruction list option"

text \<open>
  A patch holds a method through the \<open>&mut SmaliMethod\<close> that \<open>iter_mut().find\<close>
  returned; every write goes through that reference into the class's method vector. The
  reference is the method's index, and a write through it is an update at that index.
\<close>

definition update_method ::
  "nat \<Rightarrow> (smali_method \<Rightarrow> smali_method) \<Rightarrow> smali_class \<Rightarrow> smali_class" where
  "update_method i f c = c\<lparr>methods := (methods c)[i := f (methods c ! i)]\<rparr>"

definition set_instructions ::
  "nat \<Rightarrow> smali_instruction list \<Rightarrow> smali_class \<Rightarrow> smali_class" where
  "set_instructions i body c = update_method i (\<lambda>m. m\<lparr>instructions := body\<rparr>) c"

lemma length_update_method [simp]:
  "length (methods (update_method i f c)) = length (methods c)"
  by (simp add: update_method_def)

lemma nth_update_method:
  "i < length (methods c) \<Longrightarrow>
   methods (update_method i f c) ! k = (if k = i then f (methods c ! i) else methods c ! k)"
  by (simp add: update_method_def)

lemma length_set_instructions [simp]:
  "length (methods (set_instructions i body c)) = length (methods c)"
  by (simp add: set_instructions_def)

lemma nth_set_instructions:
  "i < length (methods c) \<Longrightarrow>
   methods (set_instructions i body c) ! k =
     (if k = i then (methods c ! i)\<lparr>instructions := body\<rparr> else methods c ! k)"
  by (simp add: set_instructions_def nth_update_method)

lemma set_instructions_twice [simp]:
  "set_instructions i b2 (set_instructions i b1 c) = set_instructions i b2 c"
  by (cases "i < length (methods c)") (simp_all add: set_instructions_def update_method_def list_update_beyond)

lemma instructions_set_instructions [simp]:
  "i < length (methods c) \<Longrightarrow> instructions (methods (set_instructions i b c) ! i) = b"
  by (simp add: nth_set_instructions)

lemma set_instructions_commute:
  "i \<noteq> j \<Longrightarrow>
   set_instructions i a (set_instructions j b c) = set_instructions j b (set_instructions i a c)"
  by (simp add: set_instructions_def update_method_def list_update_swap)

lemma class_name_set_instructions [simp]:
  "class_name (set_instructions i body c) = class_name c"
  by (simp add: set_instructions_def update_method_def)

end
