(* ===== verification/Vec.thy ===== *)
theory Vec
  imports Prelude "HOL-Library.Multiset"
begin

text \<open>
  The operations of Rust's \<open>Vec\<close> and \<open>Iterator\<close> that the patcher calls, with the
  panics of the standard library as \<open>Panic\<close> errors: \<open>Iterator::position\<close>
  (first match, left to right), \<open>Vec::pop\<close>, \<open>Vec::splice\<close> (remove a range and put
  a sequence in its place; panics on a bad range) and \<open>Vec::insert\<close> (panics past the
  end). They are the anchor locator and the edit primitives of the specification
  (sections 4.1 and 4.2): \<open>insert_after\<close> is a splice of an empty range behind the
  anchor, \<open>remove_and_replace_range\<close> a splice of a range, \<open>insert_label_before\<close>
  an insert. The lemmas give each primitive's result entry by entry when it does not panic.
\<close>

subsection \<open>Definitions\<close>

fun position :: "('a \<Rightarrow> bool) \<Rightarrow> 'a list \<Rightarrow> nat option" where
  "position P [] = None"
| "position P (x # xs) = (if P x then Some 0 else map_option Suc (position P xs))"

definition vec_pop :: "'a list \<Rightarrow> 'a list \<times> 'a option" where
  "vec_pop xs = (if xs = [] then ([], None) else (butlast xs, Some (last xs)))"

definition vec_splice :: "nat \<Rightarrow> nat \<Rightarrow> 'a list \<Rightarrow> 'a list \<Rightarrow> 'a list result" where
  "vec_splice s e ys xs =
     (if e < s then Inl (Panic ''slice index starts after its end'')
      else if length xs < e then Inl (Panic ''range end index out of range for slice'')
      else Inr (take s xs @ ys @ drop e xs))"

definition vec_insert :: "nat \<Rightarrow> 'a \<Rightarrow> 'a list \<Rightarrow> 'a list result" where
  "vec_insert i x xs =
     (if length xs < i then Inl (Panic ''insertion index should be <= len'')
      else Inr (take i xs @ x # drop i xs))"

text \<open>
  The values \<open>Vec::splice\<close> and \<open>Vec::insert\<close> leave in the vector when they do not
  panic.
\<close>

abbreviation spliced :: "nat \<Rightarrow> nat \<Rightarrow> 'a list \<Rightarrow> 'a list \<Rightarrow> 'a list" where
  "spliced s e ys xs \<equiv> take s xs @ ys @ drop e xs"

abbreviation inserted :: "nat \<Rightarrow> 'a \<Rightarrow> 'a list \<Rightarrow> 'a list" where
  "inserted i x xs \<equiv> take i xs @ x # drop i xs"

subsection \<open>The locator\<close>

lemma position_less_length:
  "position P xs = Some i \<Longrightarrow> i < length xs"
  by (induction xs arbitrary: i) (auto split: if_splits)

lemma position_nth:
  "position P xs = Some i \<Longrightarrow> P (xs ! i)"
  by (induction xs arbitrary: i) (auto split: if_splits)

lemma position_first:
  "position P xs = Some i \<Longrightarrow> j < i \<Longrightarrow> \<not> P (xs ! j)"
proof (induction xs arbitrary: i j)
  case Nil
  then show ?case by simp
next
  case (Cons x xs)
  then show ?case by (cases j) (auto split: if_splits)
qed

lemma position_least:
  "i < length xs \<Longrightarrow> P (xs ! i) \<Longrightarrow> (\<forall>j<i. \<not> P (xs ! j)) \<Longrightarrow> position P xs = Some i"
proof (induction xs arbitrary: i)
  case Nil
  then show ?case by simp
next
  case (Cons x xs)
  show ?case
  proof (cases i)
    case 0
    with Cons.prems show ?thesis by simp
  next
    case (Suc i')
    with Cons.prems(3) have "\<not> P x" and "\<forall>j<i'. \<not> P (xs ! j)" by auto
    with Cons.prems Suc have "position P xs = Some i'" by (intro Cons.IH) auto
    with \<open>\<not> P x\<close> Suc show ?thesis by simp
  qed
qed

lemma position_None_iff: "position P xs = None \<longleftrightarrow> \<not> (\<exists>x\<in>set xs. P x)"
  by (induction xs) auto

lemma position_append_left:
  "position P xs = Some i \<Longrightarrow> position P (xs @ ys) = Some i"
  by (induction xs arbitrary: i) (auto split: if_splits)

lemma position_append_right:
  "position P xs = None \<Longrightarrow>
   position P (xs @ ys) = (case position P ys of None \<Rightarrow> None | Some j \<Rightarrow> Some (length xs + j))"
  by (induction xs) (auto split: option.splits if_splits)

lemma position_take_None:
  assumes "position P xs = Some q" and "n \<le> q"
  shows "position P (take n xs) = None"
  using assms position_first by (fastforce simp: position_None_iff in_set_conv_nth)

lemma position_drop:
  assumes "position P xs = Some q" and "n \<le> q"
  shows "position P (drop n xs) = Some (q - n)"
proof (rule position_least)
  from assms show "q - n < length (drop n xs)" using position_less_length by fastforce
  from assms show "P (drop n xs ! (q - n))" using position_nth position_less_length by fastforce
  show "\<forall>j<q - n. \<not> P (drop n xs ! j)"
    using assms position_first position_less_length by fastforce
qed

lemma position_spliced_after:
  assumes "position P xs = Some q" and "s \<le> q" and "\<forall>y\<in>set ys. \<not> P y"
  shows "position P (spliced s s ys xs) = Some (q + length ys)"
proof -
  have len: "length (take s xs) = s"
    using assms(1,2) position_less_length by fastforce
  have "position P (drop s xs) = Some (q - s)" using assms(1,2) by (rule position_drop)
  moreover have "position P ys = None" using assms(3) by (simp add: position_None_iff)
  ultimately have "position P (ys @ drop s xs) = Some (length ys + (q - s))"
    by (simp add: position_append_right)
  moreover have "position P (take s xs) = None" using assms(1,2) by (rule position_take_None)
  ultimately have "position P (take s xs @ ys @ drop s xs) = Some (s + (length ys + (q - s)))"
    using len by (simp add: position_append_right)
  with assms(2) show ?thesis by simp
qed

lemma position_spliced_before:
  assumes "position P xs = Some q" and "q < s"
  shows "position P (spliced s e ys xs) = Some q"
proof -
  have "position P (take s xs) = Some q"
  proof (rule position_least)
    show "q < length (take s xs)" using assms position_less_length by fastforce
    show "P (take s xs ! q)" using assms position_nth by fastforce
    show "\<forall>j<q. \<not> P (take s xs ! j)" using assms position_first by fastforce
  qed
  then show ?thesis by (rule position_append_left)
qed

lemma position_inserted:
  assumes "position P xs = Some q" and "\<not> P x"
  shows "position P (inserted q x xs) = Some (Suc q)"
proof -
  have "position P (take q xs) = None" using assms(1) by (rule position_take_None) simp
  moreover have "position P (x # drop q xs) = Some (Suc 0)"
    using assms position_drop [OF assms(1), of q] by simp
  moreover have "length (take q xs) = q" using assms(1) position_less_length by fastforce
  ultimately show ?thesis by (simp add: position_append_right)
qed

lemma position_spliced_None_iff:
  "position P (spliced s s ys xs) = None \<longleftrightarrow> position P xs = None \<and> position P ys = None"
proof -
  have "set (take s xs) \<union> set (drop s xs) = set xs"
    by (metis append_take_drop_id set_append)
  then show ?thesis by (auto simp: position_None_iff)
qed

lemma list_ex_position: "list_ex P xs \<longleftrightarrow> position P xs \<noteq> None"
  by (simp add: position_None_iff list_ex_iff)

subsection \<open>The edit primitives\<close>

lemma mset_spliced: "mset (spliced s s ys xs) = mset xs + mset ys"
proof -
  have "mset xs = mset (take s xs) + mset (drop s xs)"
    by (metis append_take_drop_id mset_append)
  then show ?thesis by simp
qed

lemma mset_inserted: "mset (inserted i x xs) = add_mset x (mset xs)"
proof -
  have "mset xs = mset (take i xs) + mset (drop i xs)"
    by (metis append_take_drop_id mset_append)
  then show ?thesis by simp
qed

lemma subseq_spliced: "subseq xs (spliced s s ys xs)"
proof -
  have "subseq (drop s xs) (ys @ drop s xs)" by (rule list_emb_append2) simp
  then have "subseq (take s xs @ drop s xs) (take s xs @ ys @ drop s xs)"
    by (simp only: subseq_append')
  then show ?thesis by simp
qed

lemma subseq_inserted: "subseq xs (inserted i x xs)"
  using subseq_spliced [of xs i "[x]"] by simp

lemma vec_splice_in_range [simp]:
  "s \<le> e \<Longrightarrow> e \<le> length xs \<Longrightarrow> vec_splice s e ys xs = Inr (take s xs @ ys @ drop e xs)"
  by (simp add: vec_splice_def)

lemma vec_insert_in_range [simp]:
  "i \<le> length xs \<Longrightarrow> vec_insert i x xs = Inr (take i xs @ x # drop i xs)"
  by (simp add: vec_insert_def)

lemma fst_vec_pop [simp]: "fst (vec_pop xs) = butlast xs"
  by (simp add: vec_pop_def)

lemma count_list_spliced:
  "count_list (spliced s s ys xs) y = count_list xs y + count_list ys y"
proof -
  have "count_list xs y = count_list (take s xs) y + count_list (drop s xs) y"
    by (metis append_take_drop_id count_list_append)
  then show ?thesis by simp
qed

lemma count_list_inserted:
  "count_list (inserted i x xs) y = count_list xs y + (if x = y then 1 else 0)"
proof -
  have "count_list xs y = count_list (take i xs) y + count_list (drop i xs) y"
    by (metis append_take_drop_id count_list_append)
  then show ?thesis by simp
qed

subsection \<open>Properties of the locator\<close>

text \<open>
  C6. \<open>Iterator::position\<close> is the first-match locator of the specification: it
  returns \<open>i\<close> exactly when entry \<open>i\<close> satisfies the predicate and no entry before
  it does.
\<close>

theorem position_first_match:
  "position P xs = Some i \<longleftrightarrow> i < length xs \<and> P (xs ! i) \<and> (\<forall>j<i. \<not> P (xs ! j))"
  using position_less_length position_nth position_first position_least by metis

text \<open>
  C7. \<open>Vec::splice(s..e, frag)\<close> with a valid range returns, and its result has length
  \<open>L - (e - s) + |frag|\<close>, keeps the entries before \<open>s\<close>, holds \<open>frag\<close> at
  \<open>[s, s + |frag|)\<close>, and continues with the old entries from \<open>e\<close> on.
\<close>

theorem vec_splice_shape:
  assumes "s \<le> e" and "e \<le> length xs"
  shows "\<exists>ys. vec_splice s e frag xs = Inr ys \<and>
           length ys = length xs - (e - s) + length frag \<and>
           take s ys = take s xs \<and>
           take (length frag) (drop s ys) = frag \<and>
           drop (s + length frag) ys = drop e xs"
  using assms by (simp add: length_take_append_drop)

text \<open>
  C8. Inserting a fragment after position \<open>p\<close> (a splice of the empty range
  \<open>p+1..p+1\<close>, as \<open>patch_main_activity\<close> does) on a sequence of length
  \<open>L > p\<close> yields length \<open>L + F\<close>: entries \<open>[0, p]\<close> are the old prefix,
  \<open>[p+1, p+F]\<close> the fragment in order, and the rest the old suffix shifted by \<open>F\<close>.
\<close>

theorem insert_after_shape:
  assumes "p < length xs"
  shows "\<exists>ys. vec_splice (Suc p) (Suc p) frag xs = Inr ys \<and>
           length ys = length xs + length frag \<and>
           (\<forall>k<length ys. ys ! k =
              (if k \<le> p then xs ! k
               else if k \<le> p + length frag then frag ! (k - Suc p)
               else xs ! (k - length frag)))"
proof -
  let ?ys = "take (Suc p) xs @ frag @ drop (Suc p) xs"
  have "?ys ! k = (if k \<le> p then xs ! k
                   else if k \<le> p + length frag then frag ! (k - Suc p)
                   else xs ! (k - length frag))" if "k < length ?ys" for k
  proof -
    have "k - Suc p - length frag + Suc p = k - length frag" if "\<not> k \<le> p + length frag"
      using that by arith
    with assms show ?thesis by (simp add: nth_take_append_drop)
  qed
  with assms show ?thesis by simp
qed

text \<open>
  C9. \<open>Vec::insert(i, x)\<close> with \<open>i \<le> L\<close> inserts exactly one entry: \<open>x\<close> at
  \<open>i\<close>, the entries before \<open>i\<close> unchanged and the ones from \<open>i\<close> on shifted
  right by one.
\<close>

theorem vec_insert_shape:
  assumes "i \<le> length xs"
  shows "\<exists>ys. vec_insert i x xs = Inr ys \<and> length ys = Suc (length xs) \<and> ys ! i = x \<and>
           (\<forall>k<i. ys ! k = xs ! k) \<and> (\<forall>k. i \<le> k \<and> k < length xs \<longrightarrow> ys ! Suc k = xs ! k)"
  using assms by (auto simp: nth_append min_def nth_Cons' nth_drop)

end
