(* ===== verification/Locator.thy ===== *)
theory Locator
  imports Smali_Model Vec
begin

text \<open>
  The anchor locator and the method lookup of \<open>src/src/main.rs\<close>. A method is found by
  \<open>methods.iter_mut().find(|m| m.name == n)\<close> (lines 77--83, 89--95, 135--141): the
  first method of that name, as an index into the class's method vector. An anchor is found
  by \<open>instructions.iter().position(pred)\<close> with one of two predicates over the tagged
  entry: a plain instruction whose text starts with \<open>return\<close> (lines 96--102), and a
  plain instruction whose text is \<open>.end packed-switch\<close> (lines 107--113). Labels and
  directives never match either. \<open>str::starts_with\<close> is written out as a recursion on the
  two strings and shown equal to \<open>prefix\<close> of HOL-Library.Sublist.
\<close>

fun starts_with :: "string \<Rightarrow> string \<Rightarrow> bool" where
  "starts_with s [] = True"
| "starts_with [] (p # ps) = False"
| "starts_with (c # cs) (p # ps) = (c = p \<and> starts_with cs ps)"

definition is_return :: "smali_instruction \<Rightarrow> bool" where
  "is_return i = (case i of Instruction s \<Rightarrow> starts_with s ''return'' | _ \<Rightarrow> False)"

definition is_pswitch_end :: "smali_instruction \<Rightarrow> bool" where
  "is_pswitch_end i = (case i of Instruction s \<Rightarrow> s = ''.end packed-switch'' | _ \<Rightarrow> False)"

definition find_method :: "string \<Rightarrow> smali_method list \<Rightarrow> nat option" where
  "find_method n ms = position (\<lambda>m. name m = n) ms"

lemma is_return_simps [simp]:
  "is_return (Instruction s) = starts_with s ''return''"
  "\<not> is_return (Label l)"
  "\<not> is_return (Directive d)"
  by (simp_all add: is_return_def)

lemma is_pswitch_end_simps [simp]:
  "is_pswitch_end (Instruction s) = (s = ''.end packed-switch'')"
  "\<not> is_pswitch_end (Label l)"
  "\<not> is_pswitch_end (Directive d)"
  by (simp_all add: is_pswitch_end_def)

lemma not_return_and_pswitch_end: "is_pswitch_end i \<Longrightarrow> \<not> is_return i"
  by (cases i) simp_all

lemma find_method_Some:
  "find_method n ms = Some i \<Longrightarrow> i < length ms \<and> name (ms ! i) = n"
  unfolding find_method_def using position_less_length position_nth by fastforce

lemma find_method_append:
  "find_method n (ms @ [m]) =
     (case find_method n ms of Some i \<Rightarrow> Some i | None \<Rightarrow> if name m = n then Some (length ms) else None)"
  by (cases "find_method n ms")
     (simp_all add: find_method_def position_append_left position_append_right)

lemma find_method_cong:
  assumes "length ms' = length ms" and "\<forall>k<length ms. name (ms' ! k) = name (ms ! k)"
  shows "find_method n ms' = find_method n ms"
  using assms
proof (induction ms arbitrary: ms')
  case Nil
  then show ?case by simp
next
  case (Cons m ms)
  then obtain m' ms'' where ms': "ms' = m' # ms''" by (cases ms') auto
  from Cons.prems(2) have "name (ms' ! 0) = name ((m # ms) ! 0)" by blast
  with ms' have "name m' = name m" by simp
  have "name (ms'' ! k) = name (ms ! k)" if "k < length ms" for k
  proof -
    from that Cons.prems(2) have "name (ms' ! Suc k) = name ((m # ms) ! Suc k)" by simp
    with ms' show ?thesis by simp
  qed
  moreover from Cons.prems ms' have "length ms'' = length ms" by simp
  ultimately have "find_method n ms'' = find_method n ms" using Cons.IH by blast
  with \<open>name m' = name m\<close> ms' show ?case by (simp add: find_method_def)
qed

lemma find_method_set_instructions:
  "i < length (methods c) \<Longrightarrow> find_method n (methods (set_instructions i body c)) = find_method n (methods c)"
  by (rule find_method_cong) (simp_all add: nth_set_instructions)

lemma starts_with_prefix_iff: "starts_with s p \<longleftrightarrow> prefix p s"
  by (induction s p rule: starts_with.induct) auto

end
