(* ===== verification/Fragment.thy ===== *)
theory Fragment
  imports Smali_Model
begin

text \<open>
  The fragment boundary: \<open>smali::parse_fragment\<close>, which turns the text of a patch
  payload into instruction entries. The crate is not part of the repository, so the patches
  of \<open>Patches\<close> take the parser as a parameter (\<open>fragment_parser\<close>) and every theorem
  about them holds for any parser. This theory gives one concrete parser, reconstructed from
  the specification (sections 2 and 6) and from the payloads of \<open>src/src/main.rs\<close>, to
  evaluate the patches on concrete classes: a payload is its list of lines (\<open>indoc!\<close> has
  already removed the common indentation); blank lines are skipped; \<open>:name\<close> is a label;
  every other line, \<open>.end packed-switch\<close> included, is a plain instruction, which is how
  \<open>patch_main_activity\<close> expects the crate to read it (line 109). A label without a name
  does not parse.
\<close>

definition is_blank_char :: "char \<Rightarrow> bool" where
  "is_blank_char c \<longleftrightarrow> c = CHR '' '' \<or> c = CHR 0x09 \<or> c = CHR 0x0D"

definition trim :: "string \<Rightarrow> string" where
  "trim s = rev (dropWhile is_blank_char (rev (dropWhile is_blank_char s)))"

definition parse_line :: "string \<Rightarrow> smali_instruction list option" where
  "parse_line l =
     (case trim l of
        [] \<Rightarrow> Some []
      | c # cs \<Rightarrow>
          if c = CHR '':'' then (if cs = [] then None else Some [Label cs])
          else Some [Instruction (c # cs)])"

fun parse_fragment :: fragment_parser where
  "parse_fragment [] = Some []"
| "parse_fragment (l # ls) =
     (case parse_line l of
        None \<Rightarrow> None
      | Some is \<Rightarrow> map_option (\<lambda>rest. is @ rest) (parse_fragment ls))"

end
