(* ===== verification/Patches.thy ===== *)
theory Patches
  imports Locator Fragment
begin

text \<open>
  The two class patches of \<open>src/src/main.rs\<close> and the payloads they insert. Each patch
  is a function from a class to \<open>smali_class result\<close>: the patched class, or the first
  error, in the order the source raises them. The fragment parser is a parameter
  (\<open>parse\<close>), so that the lemmas hold whatever \<open>smali::parse_fragment\<close> does.

  \<open>patch_main_activity\<close> (lines 76--132) is the composition of its three blocks:
  \<^item> \<open>patch_options_menu\<close> (lines 77--87): find \<open>onCreateOptionsMenu\<close>, pop its last
    entry whatever it is, append the \<open>ADD_MOD_BUTTON\<close> fragment;
  \<^item> \<open>patch_item_selected\<close> (lines 89--116): find \<open>onOptionsItemSelected\<close>, locate its
    first \<open>return\<close>, splice \<open>ON_MOD_PRESSED\<close> in right after it, then locate
    \<open>.end packed-switch\<close> afresh in the edited body and insert \<open>Label pswitch_mod\<close>
    before it;
  \<^item> \<open>add_start_mod\<close> (lines 118--130): synthesize \<open>startMod\<close> from \<open>START_MOD\<close>
    and push it onto the method vector.
  \<open>patch_billing\<close> (lines 134--144) replaces the body of \<open>alreadyPurchased\<close> with
  \<open>RETURN_TRUE\<close>.
\<close>

subsection \<open>Payloads\<close>

text \<open>The payload constants, line by line, as \<open>indoc!\<close> leaves them.\<close>

definition ADD_MOD_BUTTON :: fragment_text where
\<open>ADD_MOD_BUTTON =
  [''const/16 v0, 0xc'',
   ''const-string v1, "Mod"'',
   ''invoke-direct {p0, p1, v0, v1}, Lcom/choiceofgames/choicescript/ChoiceScriptActivity;->addMenu(Landroid/view/Menu;ILjava/lang/String;)Landroid/view/MenuItem;'',
   ''const/4 v0, 0x1'',
   ''return v0'']\<close>

definition ON_MOD_PRESSED :: fragment_text where
\<open>ON_MOD_PRESSED =
  ['':pswitch_mod'',
   ''invoke-direct {p0}, Lcom/choiceofgames/choicescript/ChoiceScriptActivity;->startMod()V'',
   ''const/4 v0, 0x1'',
   ''return v0'']\<close>

definition START_MOD :: fragment_text where
\<open>START_MOD =
  [''const/4 v0, 0x1'',
   ''iput-boolean v0, p0, Lcom/choiceofgames/choicescript/ChoiceScriptActivity;->statsMode:Z'',
   ''invoke-virtual {p0}, Lcom/choiceofgames/choicescript/ChoiceScriptActivity;->getSupportActionBar()Landroidx/appcompat/app/ActionBar;'',
   ''move-result-object v1'',
   ''if-eqz v1, :cond_0'',
   ''const-string v2, "Mod"'',
   ''invoke-virtual {v1, v2}, Landroidx/appcompat/app/ActionBar;->setTitle(Ljava/lang/CharSequence;)V'',
   ''invoke-virtual {v1, v0}, Landroidx/appcompat/app/ActionBar;->setDisplayHomeAsUpEnabled(Z)V'',
   ''invoke-virtual {v1, v0}, Landroidx/appcompat/app/ActionBar;->setDisplayShowTitleEnabled(Z)V'',
   ''invoke-virtual {p0}, Lcom/choiceofgames/choicescript/ChoiceScriptActivity;->supportInvalidateOptionsMenu()V'',
   '''',
   '':cond_0'',
   ''const-string v0, "showMod"'',
   ''const/4 v1, 0x0'',
   ''new-array v2, v1, [Ljava/lang/String;'',
   ''invoke-virtual {p0, v0, v2}, Lcom/choiceofgames/choicescript/ChoiceScriptActivity;->callback(Ljava/lang/String;[Ljava/lang/String;)V'',
   '''',
   ''return-void'']\<close>

definition RETURN_TRUE :: fragment_text where
\<open>RETURN_TRUE =
  [''const/4 v0, 0x1'',
   ''return v0'']\<close>

subsection \<open>The patches\<close>

definition require_fragment :: "fragment_parser \<Rightarrow> fragment_text \<Rightarrow> smali_instruction list result" where
  "require_fragment parse t = require_with (parse t) FragmentParseError"

definition patch_options_menu :: "fragment_parser \<Rightarrow> smali_class \<Rightarrow> smali_class result" where
  "patch_options_menu parse c =
     bind_res (require_with (find_method ''onCreateOptionsMenu'' (methods c))
                (MissingMethod ''couldn't find onCreateOptionsMenu'')) (\<lambda>i.
     let c1 = set_instructions i (fst (vec_pop (instructions (methods c ! i)))) c in
     bind_res (require_fragment parse ADD_MOD_BUTTON) (\<lambda>frag.
     Inr (set_instructions i (instructions (methods c1 ! i) @ frag) c1)))"

definition patch_item_selected :: "fragment_parser \<Rightarrow> smali_class \<Rightarrow> smali_class result" where
  "patch_item_selected parse c =
     bind_res (require_with (find_method ''onOptionsItemSelected'' (methods c))
                (MissingMethod ''couldn't find onOptionsItemSelected'')) (\<lambda>j.
     bind_res (require_with (position is_return (instructions (methods c ! j)))
                (MissingAnchor ''couldn't find return in onOptionsItemSelected'')) (\<lambda>ret_pos.
     bind_res (require_fragment parse ON_MOD_PRESSED) (\<lambda>frag.
     bind_res (vec_splice (ret_pos + 1) (ret_pos + 1) frag (instructions (methods c ! j))) (\<lambda>body.
     let c1 = set_instructions j body c in
     bind_res (require_with (position is_pswitch_end (instructions (methods c1 ! j)))
                (MissingAnchor ''couldn't find pswitch end in onOptionsItemSelected'')) (\<lambda>switch_end.
     bind_res (vec_insert switch_end (Label ''pswitch_mod'') (instructions (methods c1 ! j))) (\<lambda>body'.
     Inr (set_instructions j body' c1)))))))"

definition start_mod :: "smali_instruction list \<Rightarrow> smali_method" where
  "start_mod body =
     \<lparr>name = ''startMod'', modifiers = [Private], constructor = False,
      signature = \<lparr>args = [], return_type = Void\<rparr>, locals = 3, annotations = [],
      instructions = body\<rparr>"

definition add_start_mod :: "fragment_parser \<Rightarrow> smali_class \<Rightarrow> smali_class result" where
  "add_start_mod parse c =
     bind_res (require_fragment parse START_MOD) (\<lambda>body.
     Inr (c\<lparr>methods := methods c @ [start_mod body]\<rparr>))"

definition patch_main_activity :: "fragment_parser \<Rightarrow> smali_class \<Rightarrow> smali_class result" where
  "patch_main_activity parse c =
     bind_res (patch_options_menu parse c) (\<lambda>c1.
     bind_res (patch_item_selected parse c1) (\<lambda>c2.
     add_start_mod parse c2))"

definition patch_billing :: "fragment_parser \<Rightarrow> smali_class \<Rightarrow> smali_class result" where
  "patch_billing parse c =
     bind_res (require_with (find_method ''alreadyPurchased'' (methods c))
                (MissingMethod ''couldn't find alreadyPurchased'')) (\<lambda>i.
     bind_res (require_fragment parse RETURN_TRUE) (\<lambda>body.
     Inr (set_instructions i body c)))"

subsection \<open>Normal forms of the patches\<close>

lemma patch_options_menu_eq [normal_forms]:
  "patch_options_menu parse c =
     (case find_method ''onCreateOptionsMenu'' (methods c) of
        None \<Rightarrow> Inl (MissingMethod ''couldn't find onCreateOptionsMenu'')
      | Some i \<Rightarrow> (case parse ADD_MOD_BUTTON of
          None \<Rightarrow> Inl FragmentParseError
        | Some f \<Rightarrow> Inr (set_instructions i (butlast (instructions (methods c ! i)) @ f) c)))"
  by (auto simp: patch_options_menu_def require_fragment_def Let_def
      dest: find_method_Some split: option.splits)

lemma patch_item_selected_eq [normal_forms]:
  "patch_item_selected parse c =
     (case find_method ''onOptionsItemSelected'' (methods c) of
        None \<Rightarrow> Inl (MissingMethod ''couldn't find onOptionsItemSelected'')
      | Some j \<Rightarrow> (case position is_return (instructions (methods c ! j)) of
          None \<Rightarrow> Inl (MissingAnchor ''couldn't find return in onOptionsItemSelected'')
        | Some r \<Rightarrow> (case parse ON_MOD_PRESSED of
            None \<Rightarrow> Inl FragmentParseError
          | Some f \<Rightarrow>
              (case position is_pswitch_end (spliced (Suc r) (Suc r) f (instructions (methods c ! j))) of
                None \<Rightarrow> Inl (MissingAnchor ''couldn't find pswitch end in onOptionsItemSelected'')
              | Some q \<Rightarrow> Inr (set_instructions j
                  (inserted q (Label ''pswitch_mod'') (spliced (Suc r) (Suc r) f (instructions (methods c ! j)))) c)))))"
proof (cases "find_method ''onOptionsItemSelected'' (methods c)")
  case None
  then show ?thesis by (simp add: patch_item_selected_def)
next
  case (Some j)
  let ?b = "instructions (methods c ! j)"
  from Some have j: "j < length (methods c)" by (auto dest: find_method_Some)
  show ?thesis
  proof (cases "position is_return ?b")
    case None
    with Some show ?thesis by (simp add: patch_item_selected_def)
  next
    case (Some r)
    then have r: "Suc r \<le> length ?b" using position_less_length by fastforce
    show ?thesis
    proof (cases "parse ON_MOD_PRESSED")
      case None
      with \<open>find_method _ _ = Some j\<close> Some show ?thesis
        by (simp add: patch_item_selected_def require_fragment_def)
    next
      case (Some f)
      let ?sp = "spliced (Suc r) (Suc r) f ?b"
      show ?thesis
      proof (cases "position is_pswitch_end ?sp")
        case None
        with \<open>find_method _ _ = Some j\<close> \<open>position is_return ?b = Some r\<close> Some j r
        show ?thesis by (simp add: patch_item_selected_def require_fragment_def Let_def)
      next
        case (Some q)
        then have "q \<le> length ?sp" using position_less_length by fastforce
        with Some \<open>find_method _ _ = Some j\<close> \<open>position is_return ?b = Some r\<close>
          \<open>parse ON_MOD_PRESSED = Some f\<close> j r
        show ?thesis by (simp add: patch_item_selected_def require_fragment_def Let_def)
      qed
    qed
  qed
qed

lemma add_start_mod_eq [normal_forms]:
  "add_start_mod parse c =
     (case parse START_MOD of
        None \<Rightarrow> Inl FragmentParseError
      | Some f \<Rightarrow> Inr (c\<lparr>methods := methods c @ [start_mod f]\<rparr>))"
  by (simp add: add_start_mod_def require_fragment_def split: option.splits)

text \<open>Edits of two different methods commute: the item-selected block does not see the
  edit of the options-menu method.\<close>

lemma patch_item_selected_set_instructions:
  assumes "i < length (methods c)" and "name (methods c ! i) \<noteq> ''onOptionsItemSelected''"
  shows "patch_item_selected parse (set_instructions i b c) =
           (case patch_item_selected parse c of Inl e \<Rightarrow> Inl e | Inr c2 \<Rightarrow> Inr (set_instructions i b c2))"
proof (cases "find_method ''onOptionsItemSelected'' (methods c)")
  case None
  with assms show ?thesis by (simp add: patch_item_selected_eq find_method_set_instructions)
next
  case (Some j)
  with assms have "j \<noteq> i" and "j < length (methods c)" by (auto dest: find_method_Some)
  with assms have "methods (set_instructions i b c) ! j = methods c ! j"
    by (simp add: nth_set_instructions)
  with Some assms \<open>j \<noteq> i\<close> show ?thesis
    by (simp add: patch_item_selected_eq find_method_set_instructions set_instructions_commute
        split: option.splits)
qed

lemma patch_main_activity_eq [normal_forms]:
  "patch_main_activity parse c =
     (case find_method ''onCreateOptionsMenu'' (methods c) of
        None \<Rightarrow> Inl (MissingMethod ''couldn't find onCreateOptionsMenu'')
      | Some i \<Rightarrow> (case parse ADD_MOD_BUTTON of
          None \<Rightarrow> Inl FragmentParseError
        | Some f1 \<Rightarrow> (case patch_item_selected parse c of
            Inl e \<Rightarrow> Inl e
          | Inr c2 \<Rightarrow> (case parse START_MOD of
              None \<Rightarrow> Inl FragmentParseError
            | Some f3 \<Rightarrow> Inr ((set_instructions i (butlast (instructions (methods c ! i)) @ f1) c2)
                              \<lparr>methods := methods (set_instructions i (butlast (instructions (methods c ! i)) @ f1) c2) @ [start_mod f3]\<rparr>)))))"
proof (cases "find_method ''onCreateOptionsMenu'' (methods c)")
  case None
  then show ?thesis by (simp add: patch_main_activity_def patch_options_menu_eq)
next
  case (Some i)
  then have "i < length (methods c)" and "name (methods c ! i) \<noteq> ''onOptionsItemSelected''"
    by (auto dest: find_method_Some)
  with Some show ?thesis
    by (simp add: patch_main_activity_def patch_options_menu_eq patch_item_selected_set_instructions
        add_start_mod_eq split: option.splits sum.splits)
qed
lemma methods_set_instructions_two:
  assumes "i \<noteq> j" and "i < length (methods c)" and "j < length (methods c)"
  shows "set_instructions i a (set_instructions j b c) =
           c\<lparr>methods := (methods c)[i := (methods c ! i)\<lparr>instructions := a\<rparr>,
                                     j := (methods c ! j)\<lparr>instructions := b\<rparr>]\<rparr>"
  using assms by (simp add: set_instructions_def update_method_def list_update_swap)

lemma find_method_update_same_name:
  "name m = name (ms ! i) \<Longrightarrow> find_method n (ms[i := m]) = find_method n ms"
  by (cases "i < length ms") (auto intro: find_method_cong simp: nth_list_update list_update_beyond)

lemma patch_main_activity_InrE:
  assumes "patch_main_activity parse c = Inr c'"
  obtains i j r q f1 f2 f3 where
    "find_method ''onCreateOptionsMenu'' (methods c) = Some i"
    "parse ADD_MOD_BUTTON = Some f1"
    "find_method ''onOptionsItemSelected'' (methods c) = Some j"
    "position is_return (instructions (methods c ! j)) = Some r"
    "parse ON_MOD_PRESSED = Some f2"
    "position is_pswitch_end (spliced (Suc r) (Suc r) f2 (instructions (methods c ! j))) = Some q"
    "parse START_MOD = Some f3"
    "i \<noteq> j" "i < length (methods c)" "j < length (methods c)"
    "c' = c\<lparr>methods :=
        (methods c)[i := (methods c ! i)\<lparr>instructions := butlast (instructions (methods c ! i)) @ f1\<rparr>,
                    j := (methods c ! j)\<lparr>instructions :=
                           inserted q (Label ''pswitch_mod'') (spliced (Suc r) (Suc r) f2 (instructions (methods c ! j)))\<rparr>]
        @ [start_mod f3]\<rparr>"
proof -
  from assms obtain i where si: "find_method ''onCreateOptionsMenu'' (methods c) = Some i"
    by (cases "find_method ''onCreateOptionsMenu'' (methods c)") (simp_all add: patch_main_activity_eq)
  then have i: "i < length (methods c)" "name (methods c ! i) = ''onCreateOptionsMenu''"
    by (auto dest: find_method_Some)
  from assms si obtain j where sj: "find_method ''onOptionsItemSelected'' (methods c) = Some j"
    by (cases "find_method ''onOptionsItemSelected'' (methods c)")
       (simp_all add: patch_main_activity_eq patch_item_selected_eq split: option.splits)
  then have j: "j < length (methods c)" "name (methods c ! j) = ''onOptionsItemSelected''"
    by (auto dest: find_method_Some)
  with i have "i \<noteq> j" by auto
  with assms si sj i j show ?thesis
    by (auto simp: patch_main_activity_eq patch_item_selected_eq methods_set_instructions_two
        split: option.splits sum.splits intro: that)
qed

lemma patch_billing_eq [normal_forms]:
  "patch_billing parse c =
     (case find_method ''alreadyPurchased'' (methods c) of
        None \<Rightarrow> Inl (MissingMethod ''couldn't find alreadyPurchased'')
      | Some i \<Rightarrow> (case parse RETURN_TRUE of
          None \<Rightarrow> Inl FragmentParseError
        | Some body \<Rightarrow> Inr (set_instructions i body c)))"
  by (simp add: patch_billing_def require_fragment_def split: option.splits)

lemma patch_main_activity_item_body:
  assumes "patch_main_activity parse c = Inr c'"
    and "find_method ''onOptionsItemSelected'' (methods c) = Some j" and "parse ON_MOD_PRESSED = Some f"
  shows "\<exists>r q. find_method ''onOptionsItemSelected'' (methods c') = Some j \<and>
           length (methods c') = Suc (length (methods c)) \<and>
           position is_return (instructions (methods c ! j)) = Some r \<and>
           position is_pswitch_end (spliced (Suc r) (Suc r) f (instructions (methods c ! j))) = Some q \<and>
           instructions (methods c' ! j) =
             inserted q (Label ''pswitch_mod'') (spliced (Suc r) (Suc r) f (instructions (methods c ! j)))"
proof -
  let ?L = "Label ''pswitch_mod''"
  obtain i j' r q f1 f2 f3 where
    j': "find_method ''onOptionsItemSelected'' (methods c) = Some j'"
    and f2: "parse ON_MOD_PRESSED = Some f2"
    and rq: "position is_return (instructions (methods c ! j')) = Some r"
      "position is_pswitch_end (spliced (Suc r) (Suc r) f2 (instructions (methods c ! j'))) = Some q"
    and ij: "i \<noteq> j'" "i < length (methods c)" "j' < length (methods c)"
    and c': "c' = c\<lparr>methods :=
        (methods c)[i := (methods c ! i)\<lparr>instructions := butlast (instructions (methods c ! i)) @ f1\<rparr>,
                    j' := (methods c ! j')\<lparr>instructions :=
                           inserted q ?L (spliced (Suc r) (Suc r) f2 (instructions (methods c ! j')))\<rparr>]
        @ [start_mod f3]\<rparr>"
    using assms(1) by (elim patch_main_activity_InrE) blast
  from j' f2 assms(2,3) have jj: "j' = j" and ff: "f2 = f" by simp_all
  let ?b = "inserted q ?L (spliced (Suc r) (Suc r) f (instructions (methods c ! j)))"
  have body: "instructions (methods c' ! j) = ?b"
    using c' ij jj ff by (simp add: nth_append)
  from ij jj have "find_method n ((methods c)[i := (methods c ! i)\<lparr>instructions := butlast (instructions (methods c ! i)) @ f1\<rparr>,
                    j := (methods c ! j)\<lparr>instructions := ?b\<rparr>]) = find_method n (methods c)" for n
    by (simp add: find_method_update_same_name)
  with c' jj ff assms(2) have "find_method ''onOptionsItemSelected'' (methods c') = Some j"
    by (simp add: find_method_append)
  with c' body rq jj ff show ?thesis by auto
qed

subsection \<open>Properties\<close>

text \<open>
  C1. \<open>patch_main_activity\<close> succeeds exactly when both menu methods exist, the item handler has a \<open>return\<close>, the three payloads parse and the edited handler has an \<open>.end packed-switch\<close>; the patched class then differs from the original in three places only: \<open>onCreateOptionsMenu\<close> has lost its last entry and gained \<open>ADD_MOD_BUTTON\<close>, \<open>onOptionsItemSelected\<close> has \<open>ON_MOD_PRESSED\<close> right after its first return and a \<open>pswitch_mod\<close> label before the (re-located) switch end, and \<open>startMod\<close> is appended.
\<close>

theorem patch_main_activity_result:
  "patch_main_activity parse c = Inr c' \<longleftrightarrow>
   (\<exists>i j r q f1 f2 f3.
      find_method ''onCreateOptionsMenu'' (methods c) = Some i \<and>
      parse ADD_MOD_BUTTON = Some f1 \<and>
      find_method ''onOptionsItemSelected'' (methods c) = Some j \<and>
      position is_return (instructions (methods c ! j)) = Some r \<and>
      parse ON_MOD_PRESSED = Some f2 \<and>
      position is_pswitch_end (spliced (Suc r) (Suc r) f2 (instructions (methods c ! j))) = Some q \<and>
      parse START_MOD = Some f3 \<and>
      c' = c\<lparr>methods :=
        (methods c)[i := (methods c ! i)\<lparr>instructions := butlast (instructions (methods c ! i)) @ f1\<rparr>,
                    j := (methods c ! j)\<lparr>instructions :=
                           inserted q (Label ''pswitch_mod'') (spliced (Suc r) (Suc r) f2 (instructions (methods c ! j)))\<rparr>]
        @ [start_mod f3]\<rparr>)"
proof (cases "find_method ''onCreateOptionsMenu'' (methods c)")
  case None
  then show ?thesis by (simp add: patch_main_activity_eq)
next
  case (Some i)
  then have i: "i < length (methods c)" "name (methods c ! i) = ''onCreateOptionsMenu''"
    by (auto dest: find_method_Some)
  show ?thesis
  proof (cases "find_method ''onOptionsItemSelected'' (methods c)")
    case None
    with Some show ?thesis
      by (simp add: patch_main_activity_eq patch_item_selected_eq split: option.splits)
  next
    case (Some j)
    then have j: "j < length (methods c)" "name (methods c ! j) = ''onOptionsItemSelected''"
      by (auto dest: find_method_Some)
    with i have "i \<noteq> j" by auto
    with i j Some \<open>find_method _ _ = Some i\<close> show ?thesis
      by (auto simp: patch_main_activity_eq patch_item_selected_eq methods_set_instructions_two
          split: option.splits)
  qed
qed

text \<open>
  C5. \<open>patch_main_activity\<close> never panics: every failure is one of the two missing-method errors, one of the two missing-anchor errors, or a fragment that does not parse. The positions it passes to \<open>splice\<close> and \<open>insert\<close> are always in range.
\<close>

theorem patch_main_activity_errors:
  assumes "patch_main_activity parse c = Inl e"
  shows "e \<in> {MissingMethod ''couldn't find onCreateOptionsMenu'',
               MissingMethod ''couldn't find onOptionsItemSelected'',
               MissingAnchor ''couldn't find return in onOptionsItemSelected'',
               MissingAnchor ''couldn't find pswitch end in onOptionsItemSelected'',
               FragmentParseError}"
  using assms by (auto simp: patch_main_activity_eq patch_item_selected_eq split: option.splits sum.splits)

text \<open>
  C2. After a successful patch, the new \<open>pswitch_mod\<close> label of \<open>onOptionsItemSelected\<close> sits immediately before the first \<open>.end packed-switch\<close> of the edited body: the switch table gains its entry at its end.
\<close>

theorem patch_main_activity_label_before_end:
  assumes "patch_main_activity parse c = Inr c'"
    and "find_method ''onOptionsItemSelected'' (methods c) = Some j"
  shows "\<exists>k. instructions (methods c' ! j) ! k = Label ''pswitch_mod'' \<and>
             position is_pswitch_end (instructions (methods c' ! j)) = Some (Suc k)"
proof -
  from assms(1) obtain i r q f2 sp where
    "find_method ''onOptionsItemSelected'' (methods c) = Some j" "i \<noteq> j" "j < length (methods c)"
    and q: "position is_pswitch_end sp = Some q"
    and body: "instructions (methods c' ! j) = inserted q (Label ''pswitch_mod'') sp"
    using assms(2) by (elim patch_main_activity_InrE) (auto simp: nth_append)
  moreover from q have "q < length sp" by (rule position_less_length)
  ultimately show ?thesis
    by (intro exI [of _ q]) (simp add: position_inserted nth_append)
qed

text \<open>
  C3. The switch end is located again after the splice: when the table lies after the first return (as it does in compiled code) the label lands \<open>|frag|\<close> entries further than the position the table had before the edit, immediately before it; otherwise at the old position.
\<close>

theorem patch_main_activity_relocates_end:
  assumes "patch_main_activity parse c = Inr c'"
    and "find_method ''onOptionsItemSelected'' (methods c) = Some j"
    and "position is_return (instructions (methods c ! j)) = Some r"
    and "position is_pswitch_end (instructions (methods c ! j)) = Some q"
    and "parse ON_MOD_PRESSED = Some f"
    and "\<forall>x\<in>set f. \<not> is_pswitch_end x"
  shows "instructions (methods c' ! j) =
    (let b = instructions (methods c ! j) in
     if r < q then take (Suc r) b @ f @ take (q - Suc r) (drop (Suc r) b) @ Label ''pswitch_mod'' # drop q b
     else take q b @ Label ''pswitch_mod'' # drop q (take (Suc r) b) @ f @ drop (Suc r) b)"
proof -
  let ?b = "instructions (methods c ! j)"
  let ?sp = "spliced (Suc r) (Suc r) f ?b"
  from assms(1) obtain q' i where "i \<noteq> j" "j < length (methods c)"
    and q': "position is_pswitch_end ?sp = Some q'"
    and body: "instructions (methods c' ! j) = inserted q' (Label ''pswitch_mod'') ?sp"
    using assms(2,3,5) by (elim patch_main_activity_InrE) (auto simp: nth_append)
  have "q \<noteq> r"
    using assms(3,4) position_nth not_return_and_pswitch_end by metis
  have r: "r < length ?b" using assms(3) by (rule position_less_length)
  have qb: "q < length ?b" using assms(4) by (rule position_less_length)
  show ?thesis
  proof (cases "r < q")
    case True
    then have "position is_pswitch_end ?sp = Some (q + length f)"
      using assms(4,6) by (intro position_spliced_after) auto
    with q' have "q' = q + length f" by simp
    moreover have "take (q + length f) ?b = take (Suc r) ?b" if "q + length f \<le> Suc r"
    proof -
      from that True have "q + length f = Suc r" by arith
      then show ?thesis by simp
    qed
    ultimately show ?thesis using body True r qb by (simp add: Let_def min_def)
  next
    case False
    with \<open>q \<noteq> r\<close> have "q < Suc r" by simp
    with assms(4) have "position is_pswitch_end ?sp = Some q"
      by (rule position_spliced_before)
    with q' have "q' = q" by simp
    with body False r qb \<open>q < Suc r\<close> show ?thesis by (simp add: Let_def min_def take_drop)
  qed
qed

text \<open>
  C15. Method synthesis adds exactly one method, \<open>startMod\<close> with the parsed \<open>START_MOD\<close> body, at the end of the method vector; a lookup by name then finds it, unless a \<open>startMod\<close> already existed, which shadows it (first-match rule).
\<close>

theorem patch_main_activity_adds_start_mod:
  assumes "patch_main_activity parse c = Inr c'" and "parse START_MOD = Some body"
  shows "length (methods c') = Suc (length (methods c)) \<and>
         methods c' ! length (methods c) = start_mod body \<and>
         find_method ''startMod'' (methods c') =
           (case find_method ''startMod'' (methods c) of None \<Rightarrow> Some (length (methods c)) | Some k \<Rightarrow> Some k)"
proof -
  from assms(1) obtain i j a b where "i \<noteq> j" "i < length (methods c)" "j < length (methods c)"
    and "parse START_MOD = Some body"
    and c': "methods c' = (methods c)[i := (methods c ! i)\<lparr>instructions := a\<rparr>,
                                       j := (methods c ! j)\<lparr>instructions := b\<rparr>] @ [start_mod body]"
    using assms(2) by (elim patch_main_activity_InrE) auto
  then have "find_method n ((methods c)[i := (methods c ! i)\<lparr>instructions := a\<rparr>,
                                       j := (methods c ! j)\<lparr>instructions := b\<rparr>]) =
             find_method n (methods c)" for n
    by (simp add: find_method_update_same_name)
  with c' show ?thesis
    by (simp add: nth_append find_method_append start_mod_def split: option.splits)
qed

text \<open>
  C13. \<open>patch_billing\<close> replaces the body of the first \<open>alreadyPurchased\<close> method by
  the parsed \<open>RETURN_TRUE\<close> payload and changes nothing else: no other method (a later
  overload of the same name included) and no metadata of the patched one.
\<close>

theorem patch_billing_result:
  assumes "patch_billing parse c = Inr c'" and "parse RETURN_TRUE = Some body"
  shows "\<exists>i. find_method ''alreadyPurchased'' (methods c) = Some i \<and>
             length (methods c') = length (methods c) \<and>
             methods c' ! i = (methods c ! i)\<lparr>instructions := body\<rparr> \<and>
             (\<forall>k<length (methods c). k \<noteq> i \<longrightarrow> methods c' ! k = methods c ! k) \<and>
             class_name c' = class_name c"
  using assms
  by (auto simp: patch_billing_eq nth_set_instructions dest: find_method_Some split: option.splits)

text \<open>
  C14. \<open>patch_billing\<close> fails exactly when \<open>alreadyPurchased\<close> is missing (with the
  source's message) or, the method being there, the payload does not parse.
\<close>

theorem patch_billing_errors:
  "patch_billing parse c = Inl e \<longleftrightarrow>
     (find_method ''alreadyPurchased'' (methods c) = None \<and> e = MissingMethod ''couldn't find alreadyPurchased'') \<or>
     (find_method ''alreadyPurchased'' (methods c) \<noteq> None \<and> parse RETURN_TRUE = None \<and> e = FragmentParseError)"
  by (auto simp: patch_billing_eq split: option.splits)

text \<open>
  C16. The patch is not idempotent: running it again on its own output succeeds when the
  anchors are still there and then duplicates the edit. The class has two \<open>startMod\<close>
  methods more than before, and \<open>onOptionsItemSelected\<close> gains the \<open>pswitch_mod\<close>
  labels of the fragment and of the table entry twice, so that the label is defined twice.
\<close>

theorem patch_main_activity_twice:
  assumes "patch_main_activity parse c = Inr c1" and "patch_main_activity parse c1 = Inr c2"
    and "find_method ''onOptionsItemSelected'' (methods c) = Some j" and "parse ON_MOD_PRESSED = Some f"
  shows "length (methods c2) = length (methods c) + 2 \<and>
         count_list (instructions (methods c2 ! j)) (Label ''pswitch_mod'') =
           count_list (instructions (methods c ! j)) (Label ''pswitch_mod'') +
           2 * Suc (count_list f (Label ''pswitch_mod''))"
proof -
  from patch_main_activity_item_body [OF assms(1,3,4)] obtain r q where
    f1: "find_method ''onOptionsItemSelected'' (methods c1) = Some j"
    and l1: "length (methods c1) = Suc (length (methods c))"
    and b1: "instructions (methods c1 ! j) =
               inserted q (Label ''pswitch_mod'') (spliced (Suc r) (Suc r) f (instructions (methods c ! j)))"
    by blast
  from patch_main_activity_item_body [OF assms(2) f1 assms(4)] obtain r' q' where
    l2: "length (methods c2) = Suc (length (methods c1))"
    and b2: "instructions (methods c2 ! j) =
               inserted q' (Label ''pswitch_mod'') (spliced (Suc r') (Suc r') f (instructions (methods c1 ! j)))"
    by blast
  show ?thesis
    using l1 l2 by (simp only: b2 b1 count_list_inserted count_list_spliced) simp
qed

text \<open>
  C20. No entry of \<open>onOptionsItemSelected\<close> is lost or reordered: the original body is
  an ordered subsequence of the patched one, and the patched body holds exactly the old
  entries, the fragment's entries and one more \<open>pswitch_mod\<close> label (as multisets).
\<close>

theorem patch_main_activity_keeps_entries:
  assumes "patch_main_activity parse c = Inr c'"
    and "find_method ''onOptionsItemSelected'' (methods c) = Some j" and "parse ON_MOD_PRESSED = Some f"
  shows "subseq (instructions (methods c ! j)) (instructions (methods c' ! j)) \<and>
         mset (instructions (methods c' ! j)) =
           mset (instructions (methods c ! j)) + mset f + {#Label ''pswitch_mod''#}"
proof -
  let ?b = "instructions (methods c ! j)"
  from patch_main_activity_item_body [OF assms] obtain r q where
    b': "instructions (methods c' ! j) = inserted q (Label ''pswitch_mod'') (spliced (Suc r) (Suc r) f ?b)"
    by blast
  have "subseq ?b (spliced (Suc r) (Suc r) f ?b)" by (rule subseq_spliced)
  also have "subseq (spliced (Suc r) (Suc r) f ?b) (inserted q (Label ''pswitch_mod'') (spliced (Suc r) (Suc r) f ?b))"
    by (rule subseq_inserted)
  finally have "subseq ?b (instructions (methods c' ! j))" using b' by simp
  moreover have "mset (instructions (methods c' ! j)) = mset ?b + mset f + {#Label ''pswitch_mod''#}"
    by (simp only: b' mset_inserted mset_spliced) simp
  ultimately show ?thesis ..
qed

end
