(* ===== verification/Assets.thy ===== *)
theory Assets
  imports Locator
begin

text \<open>
  The asset substitution of \<open>main\<close> (\<open>src/src/main.rs\<close> line 164):
  \<open>html.replace("</head>", html_mod)\<close>. Rust's \<open>str::replace\<close> scans left to right,
  replaces every non-overlapping occurrence of the pattern and copies the rest; an empty
  pattern matches before every character and at the end. It is written out as a recursion on
  the string that consumes the whole pattern on a match and one character otherwise; the
  measure is the length of the remaining string. (Strings are byte lists here; for the
  empty pattern Rust steps over UTF-8 characters, which differs on non-ASCII text. The
  source's pattern is not empty.)
\<close>

function str_replace :: "string \<Rightarrow> string \<Rightarrow> string \<Rightarrow> string" where
  "str_replace [] pat to = (if pat = [] then to else [])"
| "str_replace (c # cs) pat to =
     (if pat = [] then to @ c # str_replace cs pat to
      else if starts_with (c # cs) pat then to @ str_replace (drop (length pat) (c # cs)) pat to
      else c # str_replace cs pat to)"
  by pat_completeness auto
termination
  by (relation "measure (\<lambda>(s, pat, to). length s)") auto

lemma prefix_append_shorter:
  "prefix p (u @ w) \<Longrightarrow> length p \<le> length u \<Longrightarrow> prefix p u"
  by (auto simp: prefix_append)

lemma str_replace_absent_helper:
  "pat \<noteq> [] \<Longrightarrow> \<not> sublist pat s \<Longrightarrow> str_replace s pat to = s"
proof (induction s)
  case Nil
  then show ?case by simp
next
  case (Cons c cs)
  then have "\<not> prefix pat (c # cs)" and "\<not> sublist pat cs"
    by (auto simp: sublist_Cons_right dest: prefix_imp_sublist)
  with Cons show ?case by (simp add: starts_with_prefix_iff)
qed

lemma str_replace_first_match:
  assumes "pat \<noteq> []" and "\<not> sublist pat (a @ butlast pat)"
  shows "str_replace (a @ pat @ b) pat to = a @ to @ str_replace b pat to"
  using assms(2)
proof (induction a)
  case Nil
  from assms(1) obtain p ps where "pat = p # ps" by (cases pat) auto
  then show ?case by (simp add: starts_with_prefix_iff)
next
  case (Cons x a)
  have "\<not> prefix pat (x # a @ pat @ b)"
  proof
    assume pre: "prefix pat (x # a @ pat @ b)"
    have "x # a @ pat @ b = (x # a @ butlast pat) @ [last pat] @ b"
      using assms(1) by simp
    with pre have "prefix pat ((x # a @ butlast pat) @ [last pat] @ b)" by simp
    moreover have "length pat \<le> length (x # a @ butlast pat)" using assms(1) by simp
    ultimately have "prefix pat (x # a @ butlast pat)" by (rule prefix_append_shorter)
    with Cons.prems show False by (auto dest: prefix_imp_sublist)
  qed
  moreover from Cons.prems have "\<not> sublist pat (a @ butlast pat)"
    by (auto simp: sublist_Cons_right)
  ultimately show ?case using Cons.IH assms(1) by (simp add: starts_with_prefix_iff)
qed

subsection \<open>Properties\<close>

text \<open>
  C19. With a marker that occurs once, and no occurrence starting before it,
  \<open>str::replace\<close> puts the replacement exactly in the marker's place and leaves the
  text before and after it unchanged. With \<open>mod.html\<close> ending in \<open></head>\<close>, this
  is the insertion of the mod page right before the marker that the specification
  describes.
\<close>

theorem str_replace_single_marker:
  assumes "pat \<noteq> []" and "\<not> sublist pat (a @ butlast pat)" and "\<not> sublist pat b"
  shows "str_replace (a @ pat @ b) pat to = a @ to @ b"
  using assms by (simp add: str_replace_first_match str_replace_absent_helper)


end
