(* ===== verification/Orchestrator.thy ===== *)
theory Orchestrator
  imports Patches Assets
begin

text \<open>
  The top level of \<open>src/src/main.rs\<close>: \<open>patch_class\<close> (lines 66--74) and \<open>main\<close>
  (lines 146--166). The file system is explicit state: a map from paths to file contents
  and the set of existing directories; \<open>fs::read_to_string\<close> fails on a missing file and
  \<open>fs::write\<close> on a missing parent directory, both with \<open>IOError\<close>. An action is a
  function from the file system to a result and the new file system, so that the writes
  made before an error stay on disk, as they do when \<open>main\<close> returns early through
  \<open>?\<close>. The smali crate's boundary (parsing a class file, printing a class, parsing a
  fragment) is a record of functions, \<open>smali_io\<close>, given to \<open>main\<close>; the bundled
  assets \<open>res/list.min.js\<close> and \<open>res/mod.html\<close> (outside \<open>src/\<close>) are its arguments
  \<open>list_js\<close> and \<open>html_mod\<close>. The command line (\<open>clap\<close>) is the argument \<open>root\<close>.
\<close>

record fs =
  files :: "path \<Rightarrow> string option"
  dirs :: "path set"

type_synonym 'a io = "fs \<Rightarrow> 'a result \<times> fs"

record smali_io =
  parse_class :: "string \<Rightarrow> smali_class option"
  print_class :: "smali_class \<Rightarrow> string"
  parse_frag :: fragment_parser

definition io_bind :: "'a io \<Rightarrow> ('a \<Rightarrow> 'b io) \<Rightarrow> 'b io" where
  "io_bind m f = (\<lambda>s. case m s of (Inl e, s') \<Rightarrow> (Inl e, s') | (Inr x, s') \<Rightarrow> f x s')"

definition io_lift :: "'a result \<Rightarrow> 'a io" where
  "io_lift r = (\<lambda>s. (r, s))"

definition read_to_string :: "path \<Rightarrow> string io" where
  "read_to_string p = (\<lambda>s. case files s p of None \<Rightarrow> (Inl (IOError p), s) | Some t \<Rightarrow> (Inr t, s))"

definition write_file :: "path \<Rightarrow> string \<Rightarrow> unit io" where
  "write_file p t =
     (\<lambda>s. if p \<noteq> [] \<and> butlast p \<in> dirs s then (Inr (), s\<lparr>files := (files s)(p \<mapsto> t)\<rparr>)
          else (Inl (IOError p), s))"

definition read_from_file :: "smali_io \<Rightarrow> path \<Rightarrow> smali_class io" where
  "read_from_file bd p =
     io_bind (read_to_string p) (\<lambda>t. io_lift (require_with (parse_class bd t) (ClassParseError p)))"

definition write_to_file :: "smali_io \<Rightarrow> path \<Rightarrow> smali_class \<Rightarrow> unit io" where
  "write_to_file bd p c = write_file p (print_class bd c)"

definition patch_class :: "smali_io \<Rightarrow> path \<Rightarrow> (smali_class \<Rightarrow> smali_class result) \<Rightarrow> unit io" where
  "patch_class bd class_path patch =
     io_bind (read_from_file bd class_path) (\<lambda>class.
     io_bind (io_lift (patch class)) (\<lambda>class'.
     write_to_file bd class_path class'))"

definition smali_choice_path :: "path \<Rightarrow> path" where
  "smali_choice_path root = root @ [''smali'', ''com'', ''choiceofgames'', ''choicescript'']"

definition activity_path :: "path \<Rightarrow> path" where
  "activity_path root = smali_choice_path root @ [''ChoiceScriptActivity.smali'']"

definition billing_path :: "path \<Rightarrow> path" where
  "billing_path root = smali_choice_path root @ [''Billing.smali'']"

definition list_js_path :: "path \<Rightarrow> path" where
  "list_js_path root = root @ [''assets'', ''list.min.js'']"

definition index_path :: "path \<Rightarrow> path" where
  "index_path root = root @ [''assets'', ''mygame'', ''index.html'']"

definition main :: "smali_io \<Rightarrow> string \<Rightarrow> string \<Rightarrow> path \<Rightarrow> unit io" where
  "main bd list_js html_mod root =
     io_bind (patch_class bd (activity_path root) (patch_main_activity (parse_frag bd))) (\<lambda>_.
     io_bind (patch_class bd (billing_path root) (patch_billing (parse_frag bd))) (\<lambda>_.
     io_bind (write_file (list_js_path root) list_js) (\<lambda>_.
     io_bind (read_to_string (index_path root)) (\<lambda>html.
     write_file (index_path root) (str_replace html ''</head>'' html_mod)))))"

subsection \<open>Effects of the actions\<close>

lemma io_bind_Inr_iff:
  "io_bind m f s = (Inr y, s') \<longleftrightarrow> (\<exists>x s1. m s = (Inr x, s1) \<and> f x s1 = (Inr y, s'))"
  by (auto simp: io_bind_def split: prod.splits sum.splits)

lemma io_bind_Inl:
  "m s = (Inl e, s1) \<Longrightarrow> io_bind m f s = (Inl e, s1)"
  by (simp add: io_bind_def)

lemma io_bind_Inr:
  "m s = (Inr x, s1) \<Longrightarrow> io_bind m f s = f x s1"
  by (simp add: io_bind_def)

lemma read_to_string_Inr_iff: "read_to_string p s = (Inr t, s') \<longleftrightarrow> files s p = Some t \<and> s' = s"
  by (auto simp: read_to_string_def split: option.splits)

lemma write_file_Inr_iff:
  "write_file p t s = (Inr u, s') \<longleftrightarrow> p \<noteq> [] \<and> butlast p \<in> dirs s \<and> s' = s\<lparr>files := (files s)(p \<mapsto> t)\<rparr>"
  by (auto simp: write_file_def)

lemma write_file_Inl: "write_file p t s = (Inl e, s') \<Longrightarrow> s' = s"
  by (auto simp: write_file_def split: if_splits)

lemma patch_class_eq [normal_forms]:
  "patch_class bd p patch s =
     (case files s p of
        None \<Rightarrow> (Inl (IOError p), s)
      | Some t \<Rightarrow> (case parse_class bd t of
          None \<Rightarrow> (Inl (ClassParseError p), s)
        | Some c \<Rightarrow> (case patch c of
            Inl e \<Rightarrow> (Inl e, s)
          | Inr c' \<Rightarrow> write_file p (print_class bd c') s)))"
  by (simp add: patch_class_def read_from_file_def write_to_file_def read_to_string_def
      io_bind_def io_lift_def split: option.splits sum.splits)

lemma patch_class_Inr_iff:
  "patch_class bd p patch s = (Inr u, s') \<longleftrightarrow>
     (\<exists>t c c'. files s p = Some t \<and> parse_class bd t = Some c \<and> patch c = Inr c' \<and>
        p \<noteq> [] \<and> butlast p \<in> dirs s \<and> s' = s\<lparr>files := (files s)(p \<mapsto> print_class bd c')\<rparr>)"
  by (auto simp: patch_class_eq write_file_Inr_iff split: option.splits sum.splits)

lemma patch_class_Inl: "patch_class bd p patch s = (Inl e, s') \<Longrightarrow> s' = s"
  by (auto simp: patch_class_eq dest: write_file_Inl split: option.splits sum.splits)

lemma paths_distinct [simp]:
  "activity_path root \<noteq> billing_path root" "billing_path root \<noteq> activity_path root"
  "list_js_path root \<noteq> activity_path root" "list_js_path root \<noteq> billing_path root"
  "index_path root \<noteq> activity_path root" "index_path root \<noteq> billing_path root"
  "index_path root \<noteq> list_js_path root" "activity_path root \<noteq> list_js_path root"
  "billing_path root \<noteq> list_js_path root" "activity_path root \<noteq> index_path root"
  "billing_path root \<noteq> index_path root" "list_js_path root \<noteq> index_path root"
  by (simp_all add: activity_path_def billing_path_def list_js_path_def index_path_def smali_choice_path_def)

lemma paths_parent [simp]:
  "activity_path root \<noteq> []" "butlast (activity_path root) = smali_choice_path root"
  "billing_path root \<noteq> []" "butlast (billing_path root) = smali_choice_path root"
  "list_js_path root \<noteq> []" "butlast (list_js_path root) = root @ [''assets'']"
  "index_path root \<noteq> []" "butlast (index_path root) = root @ [''assets'', ''mygame'']"
  by (simp_all add: activity_path_def billing_path_def list_js_path_def index_path_def
      smali_choice_path_def butlast_append)

subsection \<open>Properties\<close>

text \<open>
  C4. \<open>main\<close> succeeds exactly when both class files exist, parse and patch, the
  index page exists and the three target directories exist; the run then rewrites exactly
  four files: the two patched classes, \<open>assets/list.min.js\<close> and
  \<open>assets/mygame/index.html\<close> with every \<open></head>\<close> replaced by \<open>mod.html\<close>.
\<close>

theorem main_succeeds:
  "main bd js html root s = (Inr u, s') \<longleftrightarrow>
   (\<exists>ta ca ca' tb cb cb' th.
      files s (activity_path root) = Some ta \<and> parse_class bd ta = Some ca \<and>
      patch_main_activity (parse_frag bd) ca = Inr ca' \<and>
      files s (billing_path root) = Some tb \<and> parse_class bd tb = Some cb \<and>
      patch_billing (parse_frag bd) cb = Inr cb' \<and>
      files s (index_path root) = Some th \<and>
      smali_choice_path root \<in> dirs s \<and> root @ [''assets''] \<in> dirs s \<and>
      root @ [''assets'', ''mygame''] \<in> dirs s \<and>
      s' = s\<lparr>files := (files s)(activity_path root \<mapsto> print_class bd ca',
                                billing_path root \<mapsto> print_class bd cb',
                                list_js_path root \<mapsto> js,
                                index_path root \<mapsto> str_replace th ''</head>'' html)\<rparr>)"
  by (auto simp: main_def io_bind_Inr_iff patch_class_Inr_iff write_file_Inr_iff read_to_string_Inr_iff)


text \<open>
  C11. There is no rollback: when the activity has been patched and written but the billing
  patch fails, \<open>main\<close> returns that error and leaves the rewritten
  \<open>ChoiceScriptActivity.smali\<close> on disk.
\<close>

theorem main_partial_write:
  assumes "files s (activity_path root) = Some ta" and "parse_class bd ta = Some ca"
    and "patch_main_activity (parse_frag bd) ca = Inr ca'" and "smali_choice_path root \<in> dirs s"
    and "files s (billing_path root) = Some tb" and "parse_class bd tb = Some cb"
    and "patch_billing (parse_frag bd) cb = Inl e"
  shows "main bd js html root s = (Inl e, s\<lparr>files := (files s)(activity_path root \<mapsto> print_class bd ca')\<rparr>)"
  using assms by (simp add: main_def io_bind_def patch_class_eq write_file_def)

text \<open>
  C12. The run stops at the first error: when patching the activity fails (a missing or
  unparsable file, or any error of \<open>patch_main_activity\<close>), \<open>main\<close> returns that
  error and writes nothing.
\<close>

theorem main_first_error:
  assumes "fst (patch_class bd (activity_path root) (patch_main_activity (parse_frag bd)) s) = Inl e"
  shows "main bd js html root s = (Inl e, s)"
proof -
  obtain s1 where p: "patch_class bd (activity_path root) (patch_main_activity (parse_frag bd)) s = (Inl e, s1)"
    using assms by (cases "patch_class bd (activity_path root) (patch_main_activity (parse_frag bd)) s") auto
  then have "s1 = s" by (rule patch_class_Inl)
  with p show ?thesis by (simp add: main_def io_bind_Inl)
qed

text \<open>
  C10. Asset writes come after every code patch: if a run changes \<open>list.min.js\<close> or
  \<open>index.html\<close>, both class patches of that run succeeded.
\<close>

theorem main_assets_after_patches:
  assumes "main bd js html root s = (r, s')"
    and "p \<in> {list_js_path root, index_path root}" and "files s' p \<noteq> files s p"
  shows "\<exists>s1 s2. patch_class bd (activity_path root) (patch_main_activity (parse_frag bd)) s = (Inr (), s1) \<and>
                patch_class bd (billing_path root) (patch_billing (parse_frag bd)) s1 = (Inr (), s2)"
proof (cases "patch_class bd (activity_path root) (patch_main_activity (parse_frag bd)) s")
  case (Pair r1 s1)
  show ?thesis
  proof (cases r1)
    case (Inl e)
    with Pair have "s1 = s" by (simp add: patch_class_Inl)
    with Pair Inl assms(1) have "s' = s" by (simp add: main_def io_bind_Inl)
    with assms(3) show ?thesis by simp
  next
    case (Inr u1)
    show ?thesis
    proof (cases "patch_class bd (billing_path root) (patch_billing (parse_frag bd)) s1")
      case (Pair r2 s2)
      show ?thesis
      proof (cases r2)
        case (Inl e)
        with Pair have "s2 = s1" by (simp add: patch_class_Inl)
        with Pair Inl \<open>patch_class _ _ _ s = (r1, s1)\<close> \<open>r1 = Inr u1\<close> assms(1) have "s' = s1"
          by (simp add: main_def io_bind_Inl io_bind_Inr)
        moreover from \<open>patch_class _ _ _ s = (r1, s1)\<close> \<open>r1 = Inr u1\<close> obtain c' where
          "s1 = s\<lparr>files := (files s)(activity_path root \<mapsto> c')\<rparr>"
          by (auto simp: patch_class_Inr_iff)
        ultimately have "files s' p = files s p" using assms(2) by auto
        with assms(3) show ?thesis by simp
      next
        case (Inr u2)
        with Pair \<open>patch_class _ _ _ s = (r1, s1)\<close> \<open>r1 = Inr u1\<close> show ?thesis by auto
      qed
    qed
  qed
qed

text \<open>
  C17. A run that finds no \<open></head>\<close> in \<open>index.html\<close> still succeeds and writes
  the page back unchanged: the mod page is silently not injected.
\<close>

theorem main_no_marker:
  assumes "main bd js html root s = (Inr u, s')"
    and "files s (index_path root) = Some th" and "\<not> sublist ''</head>'' th"
  shows "files s' (index_path root) = Some th"
  using assms
  by (auto simp: main_def io_bind_Inr_iff patch_class_Inr_iff write_file_Inr_iff
      read_to_string_Inr_iff str_replace_absent_helper)

text \<open>
  C18. \<open>patch_class\<close> writes the patched class: after a successful call the file holds
  the printed result of the patch applied to the class read from it, and when the smali
  boundary reads that text back as the same class, reading the file again gives the
  patched class.
\<close>

theorem patch_class_roundtrip:
  assumes "patch_class bd p patch s = (Inr u, s')"
  shows "\<exists>c c'. read_from_file bd p s = (Inr c, s) \<and> patch c = Inr c' \<and>
           files s' p = Some (print_class bd c') \<and>
           (parse_class bd (print_class bd c') = Some c' \<longrightarrow> read_from_file bd p s' = (Inr c', s'))"
  using assms
  by (auto simp: patch_class_Inr_iff read_from_file_def io_bind_def io_lift_def read_to_string_def)

end
