(* ===== verification/Wellformed.thy ===== *)
theory Wellformed
  imports Patches
begin

text \<open>
  The structural validity of a method body that the specification requires of every edit
  (section 3). Every label an entry refers to must be defined, every packed-switch table
  must be closed, and no label may be defined twice. The source does not check this. It is
  a property of the smali format, stated here over the entry model so that the patches can
  be shown to keep it.

  A body is read left to right by \<open>scan_step\<close>. Outside a table, a label entry defines
  that label. A \<open>.packed-switch\<close> instruction opens a table. Inside a table, label entries
  are the table's targets, that is, references, and \<open>.end packed-switch\<close> closes the table.
  Any other instruction inside a table is malformed. Outside a table, an instruction refers
  to the labels written in it as \<open>:name\<close> tokens, as in \<open>if-eqz v1, :cond_0\<close>.
  Directives are ignored. \<open>wf_body\<close> asks that the scan succeed, end outside a table,
  define every referenced label and define none twice; \<open>wf_class\<close> asks it of every
  method of a class.

  The properties show, with the concrete fragment parser, what the two patches do to this
  validity: each keeps a valid class valid, under the conditions the source silently
  assumes, and a second run of the activity patch always breaks it.
\<close>

record scan_state =
  in_table :: bool
  defs :: "string list"
  refs :: "string list"
  scan_ok :: bool

definition scan_init :: scan_state where
  "scan_init = \<lparr>in_table = False, defs = [], refs = [], scan_ok = True\<rparr>"

definition text_refs :: "string \<Rightarrow> string list" where
  "text_refs s = map tl (filter (\<lambda>w. take 1 w = '':'') (split_by (\<lambda>c. c = CHR '' '') [] s))"

fun scan_step :: "scan_state \<Rightarrow> smali_instruction \<Rightarrow> scan_state" where
  "scan_step st (Label l) =
     (if in_table st then st\<lparr>refs := refs st @ [l]\<rparr> else st\<lparr>defs := defs st @ [l]\<rparr>)"
| "scan_step st (Instruction s) =
     (if starts_with s ''.packed-switch'' then
        (if in_table st then st\<lparr>scan_ok := False\<rparr> else st\<lparr>in_table := True\<rparr>)
      else if s = ''.end packed-switch'' then
        (if in_table st then st\<lparr>in_table := False\<rparr> else st\<lparr>scan_ok := False\<rparr>)
      else if in_table st then st\<lparr>scan_ok := False\<rparr>
      else st\<lparr>refs := refs st @ text_refs s\<rparr>)"
| "scan_step st (Directive d) = st"

definition scan :: "scan_state \<Rightarrow> smali_instruction list \<Rightarrow> scan_state" where
  "scan st b = foldl scan_step st b"

definition wf_body :: "smali_instruction list \<Rightarrow> bool" where
  "wf_body b =
     (let st = scan scan_init b in
      scan_ok st \<and> \<not> in_table st \<and> set (refs st) \<subseteq> set (defs st) \<and> distinct (defs st))"

definition wf_class :: "smali_class \<Rightarrow> bool" where
  "wf_class c = list_all (\<lambda>m. wf_body (instructions m)) (methods c)"

subsection \<open>The scanner\<close>

text \<open>The label lists only grow: a scan from any state is the scan from empty lists, with the
  state's lists in front.\<close>

definition clear :: "scan_state \<Rightarrow> scan_state" where
  "clear st = st\<lparr>defs := [], refs := []\<rparr>"

lemma scan_Nil [simp]: "scan st [] = st"
  by (simp add: scan_def)

lemma scan_append: "scan st (xs @ ys) = scan (scan st xs) ys"
  by (simp add: scan_def)

lemma scan_Cons: "scan st (x # xs) = scan (scan_step st x) xs"
  by (simp add: scan_def)

lemma scan_step_frame:
  "scan_step st x =
     (scan_step (clear st) x)\<lparr>defs := defs st @ defs (scan_step (clear st) x),
                              refs := refs st @ refs (scan_step (clear st) x)\<rparr>"
  by (cases x) (simp_all add: clear_def)

lemma scan_frame:
  "scan st xs =
     (scan (clear st) xs)\<lparr>defs := defs st @ defs (scan (clear st) xs),
                          refs := refs st @ refs (scan (clear st) xs)\<rparr>"
proof (induction xs arbitrary: st)
  case Nil
  then show ?case by (simp add: clear_def)
next
  case (Cons x xs)
  let ?s1 = "scan_step st x" and ?c1 = "scan_step (clear st) x"
  have s1: "?s1 = ?c1\<lparr>defs := defs st @ defs ?c1, refs := refs st @ refs ?c1\<rparr>"
    by (rule scan_step_frame)
  have "clear ?s1 = clear ?c1" by (simp add: s1 clear_def)
  then show ?case
    using Cons.IH [of ?s1] Cons.IH [of ?c1] s1 by (simp add: scan_Cons clear_def)
qed

lemma scan_not_ok_stays: "\<not> scan_ok st \<Longrightarrow> \<not> scan_ok (scan st xs)"
proof (induction xs arbitrary: st)
  case Nil
  then show ?case by simp
next
  case (Cons x xs)
  have "\<not> scan_ok (scan_step st x)" using Cons.prems by (cases x) simp_all
  then show ?case by (simp add: scan_Cons Cons.IH)
qed

lemma scan_ok_instr_outside:
  assumes "scan_ok (scan st (xs @ Instruction s # ys))"
    and "\<not> starts_with s ''.packed-switch''" and "s \<noteq> ''.end packed-switch''"
  shows "\<not> in_table (scan st (xs @ [Instruction s]))"
proof
  assume inside: "in_table (scan st (xs @ [Instruction s]))"
  let ?A = "scan st xs"
  have "in_table ?A"
  proof (rule ccontr)
    assume "\<not> in_table ?A"
    with inside assms(2,3) show False by (simp add: scan_append scan_Cons)
  qed
  with assms(2,3) have "\<not> scan_ok (scan_step ?A (Instruction s))" by simp
  then have "\<not> scan_ok (scan (scan_step ?A (Instruction s)) ys)" by (rule scan_not_ok_stays)
  with assms(1) show False by (simp add: scan_append scan_Cons)
qed

lemma scan_ok_end_inside:
  assumes "scan_ok (scan st (xs @ Instruction ''.end packed-switch'' # ys))"
  shows "in_table (scan st xs)"
proof (rule ccontr)
  let ?A = "scan st xs"
  assume "\<not> in_table ?A"
  then have "\<not> scan_ok (scan_step ?A (Instruction ''.end packed-switch''))" by simp
  then have "\<not> scan_ok (scan (scan_step ?A (Instruction ''.end packed-switch'')) ys)" by (rule scan_not_ok_stays)
  with assms show False by (simp add: scan_append scan_Cons)
qed

lemma clear_update_defs [simp]: "clear (st\<lparr>defs := d\<rparr>) = clear st"
  by (simp add: clear_def)

lemma clear_update_refs [simp]: "clear (st\<lparr>refs := r\<rparr>) = clear st"
  by (simp add: clear_def)

lemma scan_flags:
  "in_table a = in_table b \<Longrightarrow> scan_ok a = scan_ok b \<Longrightarrow>
   in_table (scan a xs) = in_table (scan b xs) \<and> scan_ok (scan a xs) = scan_ok (scan b xs)"
proof (induction xs arbitrary: a b)
  case Nil
  then show ?case by simp
next
  case (Cons x xs)
  have "in_table (scan_step a x) = in_table (scan_step b x) \<and> scan_ok (scan_step a x) = scan_ok (scan_step b x)"
    using Cons.prems by (cases x) simp_all
  then show ?case using Cons.IH [of "scan_step a x" "scan_step b x"] by (simp add: scan_Cons)
qed

lemma scan_ok_inserted_label:
  "scan_ok (scan st (inserted q (Label l) xs)) = scan_ok (scan st xs)"
proof -
  let ?A = "scan st (take q xs)"
  have "scan_ok (scan (scan_step ?A (Label l)) (drop q xs)) = scan_ok (scan ?A (drop q xs))"
    using scan_flags [of "scan_step ?A (Label l)" ?A "drop q xs"] by simp
  moreover have "scan st xs = scan ?A (drop q xs)" by (metis append_take_drop_id scan_append)
  ultimately show ?thesis by (simp add: scan_append scan_Cons)
qed

lemma return_outside_table:
  assumes "position is_return xs = Some r" and "scan_ok (scan st (take (Suc r) xs @ ys))"
  shows "\<not> in_table (scan st (take (Suc r) xs))"
proof -
  from assms(1) have r: "r < length xs" "is_return (xs ! r)"
    by (simp_all add: position_less_length position_nth)
  then obtain s where s: "xs ! r = Instruction s" "prefix ''return'' s"
    by (cases "xs ! r") (simp_all add: starts_with_prefix_iff)
  then have "\<not> starts_with s ''.packed-switch''" "s \<noteq> ''.end packed-switch''"
    by (auto simp: starts_with_prefix_iff prefix_def)
  moreover have "take (Suc r) xs = take r xs @ [Instruction s]"
    using r s by (simp add: take_Suc_conv_app_nth)
  ultimately show ?thesis using assms(2) scan_ok_instr_outside [of st "take r xs" s ys] by simp
qed

lemma end_inside_table:
  assumes "position is_pswitch_end xs = Some q" and "scan_ok (scan st xs)"
  shows "in_table (scan st (take q xs))"
proof -
  from assms(1) have q: "q < length xs" and "is_pswitch_end (xs ! q)"
    by (simp_all add: position_less_length position_nth)
  then have "xs ! q = Instruction ''.end packed-switch''" by (cases "xs ! q") simp_all
  moreover from q have "take q xs @ xs ! q # drop (Suc q) xs = xs" by (rule id_take_nth_drop [symmetric])
  ultimately have "take q xs @ Instruction ''.end packed-switch'' # drop (Suc q) xs = xs" by simp
  with assms(2) have "scan_ok (scan st (take q xs @ Instruction ''.end packed-switch'' # drop (Suc q) xs))"
    by simp
  then show ?thesis by (rule scan_ok_end_inside)
qed

text \<open>Splicing a fragment that defines one label, at a point outside every table, adds that
  label to the definitions and changes nothing else.\<close>

lemma scan_splice_defining:
  assumes "scan (scan st (take s xs)) f = (scan st (take s xs))\<lparr>defs := defs (scan st (take s xs)) @ [P]\<rparr>"
  shows "\<exists>R D1 D2 Rf. scan st xs = R\<lparr>defs := D1 @ D2, refs := Rf\<rparr> \<and>
                      scan st (spliced s s f xs) = R\<lparr>defs := D1 @ P # D2, refs := Rf\<rparr>"
proof -
  define A where "A = scan st (take s xs)"
  define R where "R = scan (clear A) (drop s xs)"
  have "scan st xs = scan A (drop s xs)" by (metis A_def append_take_drop_id scan_append)
  then have "scan st xs = R\<lparr>defs := defs A @ defs R, refs := refs A @ refs R\<rparr>"
    unfolding R_def by (metis scan_frame)
  moreover have "scan st (spliced s s f xs) = scan (A\<lparr>defs := defs A @ [P]\<rparr>) (drop s xs)"
    using assms by (simp add: scan_append A_def)
  then have "scan st (spliced s s f xs) = R\<lparr>defs := defs A @ P # defs R, refs := refs A @ refs R\<rparr>"
    unfolding R_def by (subst (asm) scan_frame) simp
  ultimately show ?thesis by blast
qed

text \<open>Inserting a label inside a table adds a reference and changes nothing else.\<close>

lemma scan_insert_in_table:
  assumes "in_table (scan st (take q xs))"
  shows "\<exists>U D Ra Rb. scan st xs = U\<lparr>defs := D, refs := Ra @ Rb\<rparr> \<and>
                     scan st (inserted q (Label P) xs) = U\<lparr>defs := D, refs := Ra @ P # Rb\<rparr>"
proof -
  define T where "T = scan st (take q xs)"
  define U where "U = scan (clear T) (drop q xs)"
  have "scan st xs = scan T (drop q xs)" by (metis T_def append_take_drop_id scan_append)
  then have "scan st xs = U\<lparr>defs := defs T @ defs U, refs := refs T @ refs U\<rparr>"
    unfolding U_def by (metis scan_frame)
  moreover have "scan st (inserted q (Label P) xs) = scan (T\<lparr>refs := refs T @ [P]\<rparr>) (drop q xs)"
    using assms by (simp add: scan_append scan_Cons T_def)
  then have "scan st (inserted q (Label P) xs) = U\<lparr>defs := defs T @ defs U, refs := refs T @ P # refs U\<rparr>"
    unfolding U_def by (subst (asm) scan_frame) simp
  ultimately show ?thesis by blast
qed

lemma scan_defs_from_labels:
  "set (defs (scan st xs)) \<subseteq> set (defs st) \<union> {l. Label l \<in> set xs}"
proof (induction xs arbitrary: st)
  case Nil
  then show ?case by simp
next
  case (Cons x xs)
  have "set (defs (scan_step st x)) \<subseteq> set (defs st) \<union> {l. x = Label l}"
    by (cases x) auto
  with Cons.IH [of "scan_step st x"] show ?case by (auto simp: scan_Cons)
qed

lemma parse_on_mod_pressed:
  "parse_fragment ON_MOD_PRESSED =
     Some [Label ''pswitch_mod'',
           Instruction ''invoke-direct {p0}, Lcom/choiceofgames/choicescript/ChoiceScriptActivity;->startMod()V'',
           Instruction ''const/4 v0, 0x1'', Instruction ''return v0'']"
  by (simp add: ON_MOD_PRESSED_def parse_line_def trim_def is_blank_char_def)

lemma scan_on_mod_pressed:
  "parse_fragment ON_MOD_PRESSED = Some f \<Longrightarrow> \<not> in_table st \<Longrightarrow>
   scan st f = st\<lparr>defs := defs st @ [''pswitch_mod'']\<rparr>"
  by (simp add: parse_on_mod_pressed scan_Cons text_refs_def eq_commute [of _ f])

text \<open>The handler edit of \<open>patch_main_activity\<close>, read by the scanner: when the state after
  the first return is outside a table, the edit defines \<open>pswitch_mod\<close> once, refers to
  it once, and changes nothing else.\<close>

lemma scan_patched_item:
  assumes r: "position is_return B = Some r"
    and q: "position is_pswitch_end (spliced (Suc r) (Suc r) f B) = Some q"
    and f: "parse_fragment ON_MOD_PRESSED = Some f"
    and S: "\<not> in_table (scan scan_init (take (Suc r) B))"
  shows "scan_ok (scan scan_init (spliced (Suc r) (Suc r) f B)) = scan_ok (scan scan_init B) \<and>
         (scan_ok (scan scan_init B) \<longrightarrow>
          (\<exists>R D1 D2 Ra Rb. scan scan_init B = R\<lparr>defs := D1 @ D2, refs := Ra @ Rb\<rparr> \<and>
             scan scan_init (inserted q (Label ''pswitch_mod'') (spliced (Suc r) (Suc r) f B)) =
               R\<lparr>defs := D1 @ ''pswitch_mod'' # D2, refs := Ra @ ''pswitch_mod'' # Rb\<rparr>))"
proof -
  let ?sp = "spliced (Suc r) (Suc r) f B"
  obtain R D1 D2 Rf where RB: "scan scan_init B = R\<lparr>defs := D1 @ D2, refs := Rf\<rparr>"
    and Rsp: "scan scan_init ?sp = R\<lparr>defs := D1 @ ''pswitch_mod'' # D2, refs := Rf\<rparr>"
    using scan_splice_defining [of scan_init "Suc r" B f "''pswitch_mod''"] scan_on_mod_pressed [OF f S]
    by blast
  have same: "scan_ok (scan scan_init ?sp) = scan_ok (scan scan_init B)" by (simp add: RB Rsp)
  moreover have "\<exists>R D1 D2 Ra Rb. scan scan_init B = R\<lparr>defs := D1 @ D2, refs := Ra @ Rb\<rparr> \<and>
             scan scan_init (inserted q (Label ''pswitch_mod'') ?sp) =
               R\<lparr>defs := D1 @ ''pswitch_mod'' # D2, refs := Ra @ ''pswitch_mod'' # Rb\<rparr>"
    if ok: "scan_ok (scan scan_init B)"
  proof -
    from ok same have "scan_ok (scan scan_init ?sp)" by simp
    then have "in_table (scan scan_init (take q ?sp))" by (rule end_inside_table [OF q])
    then obtain U D Ra Rb where U: "scan scan_init ?sp = U\<lparr>defs := D, refs := Ra @ Rb\<rparr>"
      and Ub: "scan scan_init (inserted q (Label ''pswitch_mod'') ?sp) = U\<lparr>defs := D, refs := Ra @ ''pswitch_mod'' # Rb\<rparr>"
      using scan_insert_in_table by blast
    have "scan scan_init (inserted q (Label ''pswitch_mod'') ?sp) =
            (scan scan_init ?sp)\<lparr>refs := Ra @ ''pswitch_mod'' # Rb\<rparr>" unfolding Ub U by simp
    then have "scan scan_init (inserted q (Label ''pswitch_mod'') ?sp) =
            R\<lparr>defs := D1 @ ''pswitch_mod'' # D2, refs := Ra @ ''pswitch_mod'' # Rb\<rparr>"
      unfolding Rsp by simp
    moreover have "Rf = Ra @ Rb" using arg_cong [OF trans [OF Rsp [symmetric] U], of refs] by simp
    ultimately show ?thesis using RB by blast
  qed
  ultimately show ?thesis by blast
qed

lemma scan_patched_item_ok:
  assumes r: "position is_return B = Some r"
    and q: "position is_pswitch_end (spliced (Suc r) (Suc r) f B) = Some q"
    and f: "parse_fragment ON_MOD_PRESSED = Some f"
    and ok: "scan_ok (scan scan_init (inserted q (Label ''pswitch_mod'') (spliced (Suc r) (Suc r) f B)))"
  shows "\<exists>R D1 D2 Ra Rb. scan scan_init B = R\<lparr>defs := D1 @ D2, refs := Ra @ Rb\<rparr> \<and>
           scan scan_init (inserted q (Label ''pswitch_mod'') (spliced (Suc r) (Suc r) f B)) =
             R\<lparr>defs := D1 @ ''pswitch_mod'' # D2, refs := Ra @ ''pswitch_mod'' # Rb\<rparr>"
proof -
  from ok have "scan_ok (scan scan_init (take (Suc r) B @ f @ drop (Suc r) B))"
    by (simp only: scan_ok_inserted_label)
  then have S: "\<not> in_table (scan scan_init (take (Suc r) B))" by (rule return_outside_table [OF r])
  from ok have "scan_ok (scan scan_init B)"
    using scan_patched_item [OF r q f S] by (simp only: scan_ok_inserted_label)
  then show ?thesis using scan_patched_item [OF r q f S] by blast
qed

lemma wf_patched_item_body:
  assumes r: "position is_return B = Some r"
    and q: "position is_pswitch_end (spliced (Suc r) (Suc r) f B) = Some q"
    and f: "parse_fragment ON_MOD_PRESSED = Some f"
    and wf: "wf_body B" and nl: "Label ''pswitch_mod'' \<notin> set B"
  shows "wf_body (inserted q (Label ''pswitch_mod'') (spliced (Suc r) (Suc r) f B))"
proof -
  from wf have ok: "scan_ok (scan scan_init B)" by (simp add: wf_body_def Let_def)
  then have S: "\<not> in_table (scan scan_init (take (Suc r) B))"
    by (intro return_outside_table [OF r, of _ "drop (Suc r) B"]) simp
  obtain R D1 D2 Ra Rb where RB: "scan scan_init B = R\<lparr>defs := D1 @ D2, refs := Ra @ Rb\<rparr>"
    and Rb': "scan scan_init (inserted q (Label ''pswitch_mod'') (spliced (Suc r) (Suc r) f B)) =
                R\<lparr>defs := D1 @ ''pswitch_mod'' # D2, refs := Ra @ ''pswitch_mod'' # Rb\<rparr>"
    using scan_patched_item [OF r q f S] ok by blast
  have "''pswitch_mod'' \<notin> set (D1 @ D2)"
    using scan_defs_from_labels [of scan_init B] nl RB by (auto simp: scan_init_def)
  with wf RB show ?thesis unfolding wf_body_def Let_def Rb' by auto
qed

lemma parse_add_mod_button:
  "parse_fragment ADD_MOD_BUTTON =
     Some [Instruction ''const/16 v0, 0xc'', Instruction ''const-string v1, \"Mod\"'',
           Instruction ''invoke-direct {p0, p1, v0, v1}, Lcom/choiceofgames/choicescript/ChoiceScriptActivity;->addMenu(Landroid/view/Menu;ILjava/lang/String;)Landroid/view/MenuItem;'',
           Instruction ''const/4 v0, 0x1'', Instruction ''return v0'']"
  by (simp add: ADD_MOD_BUTTON_def parse_line_def trim_def is_blank_char_def)

lemma scan_add_mod_button:
  "parse_fragment ADD_MOD_BUTTON = Some f \<Longrightarrow> \<not> in_table st \<Longrightarrow> scan st f = st"
  by (simp add: parse_add_mod_button scan_Cons text_refs_def eq_commute [of _ f])

text \<open>Popping a trailing return and appending \<open>ADD_MOD_BUTTON\<close>, as the menu edit does,
  keeps a body well formed.\<close>

lemma wf_patched_menu_body:
  assumes wf: "wf_body b" and ret: "is_return (last b)"
    and f: "parse_fragment ADD_MOD_BUTTON = Some f"
  shows "wf_body (butlast b @ f)"
proof (cases "b = []")
  case True
  then show ?thesis using scan_add_mod_button [OF f, of scan_init]
    by (simp add: wf_body_def scan_init_def)
next
  case False
  let ?A = "scan scan_init (butlast b)"
  from ret obtain s where s: "last b = Instruction s" "starts_with s ''return''"
    by (cases "last b") simp_all
  then have nm: "\<not> starts_with s ''.packed-switch''" "s \<noteq> ''.end packed-switch''"
    by (auto simp: starts_with_prefix_iff prefix_def)
  from False s have b: "b = butlast b @ [Instruction s]" by (metis append_butlast_last_id)
  from wf have ok: "scan_ok (scan scan_init (butlast b @ [Instruction s]))"
    by (subst (asm) b) (simp add: wf_body_def Let_def)
  have out: "\<not> in_table ?A"
  proof
    assume "in_table ?A"
    with nm have "\<not> scan_ok (scan_step ?A (Instruction s))" by simp
    with ok show False by (simp add: scan_append scan_Cons)
  qed
  have "scan scan_init b = ?A\<lparr>refs := refs ?A @ text_refs s\<rparr>"
    using out nm by (subst b) (simp add: scan_append scan_Cons)
  with wf out have "wf_body (butlast b)" by (auto simp: wf_body_def Let_def)
  then show ?thesis using scan_add_mod_button [OF f out] by (simp add: wf_body_def Let_def scan_append)
qed

lemma wf_start_mod_body:
  "parse_fragment START_MOD = Some f \<Longrightarrow> wf_body f"
  by (simp add: START_MOD_def parse_line_def trim_def is_blank_char_def wf_body_def scan_def
      scan_init_def text_refs_def eq_commute [of _ f])

lemma wf_class_nth: "wf_class c \<Longrightarrow> i < length (methods c) \<Longrightarrow> wf_body (instructions (methods c ! i))"
  by (simp add: wf_class_def list_all_length)

subsection \<open>Properties\<close>

text \<open>
  C22. With the fragment parser of \<open>Fragment\<close>, \<open>patch_main_activity\<close> keeps the item
  handler structurally valid: if the original \<open>onOptionsItemSelected\<close> body is well formed
  and does not already define \<open>pswitch_mod\<close>, the patched body is well formed. The
  handler fragment lands after a return, outside every table, and defines the label; the
  inserted label lands inside the table, as its new entry.
\<close>

theorem patch_main_activity_keeps_wf:
  assumes "patch_main_activity parse_fragment c = Inr c'"
    and "find_method ''onOptionsItemSelected'' (methods c) = Some j"
    and "wf_body (instructions (methods c ! j))"
    and "Label ''pswitch_mod'' \<notin> set (instructions (methods c ! j))"
  shows "wf_body (instructions (methods c' ! j))"
proof -
  obtain f where f: "parse_fragment ON_MOD_PRESSED = Some f" using parse_on_mod_pressed by simp
  obtain r q where r: "position is_return (instructions (methods c ! j)) = Some r"
    and q: "position is_pswitch_end (spliced (Suc r) (Suc r) f (instructions (methods c ! j))) = Some q"
    and b': "instructions (methods c' ! j) =
           inserted q (Label ''pswitch_mod'') (spliced (Suc r) (Suc r) f (instructions (methods c ! j)))"
    using patch_main_activity_item_body [OF assms(1,2) f] by blast
  show ?thesis unfolding b' by (rule wf_patched_item_body [OF r q f assms(3,4)])
qed

text \<open>
  C23. Running the activity patch on its own output breaks the handler. Once a patched class
  has a well-formed \<open>onOptionsItemSelected\<close>, patching it again yields a body that is not
  well formed: the second fragment defines \<open>pswitch_mod\<close> a second time. The source
  has no guard against being run twice.
\<close>

theorem patch_main_activity_twice_not_wf:
  assumes "patch_main_activity parse_fragment c = Inr c1"
    and "find_method ''onOptionsItemSelected'' (methods c) = Some j"
    and "wf_body (instructions (methods c1 ! j))"
    and "patch_main_activity parse_fragment c1 = Inr c2"
  shows "\<not> wf_body (instructions (methods c2 ! j))"
proof
  assume wf2: "wf_body (instructions (methods c2 ! j))"
  obtain f where f: "parse_fragment ON_MOD_PRESSED = Some f" using parse_on_mod_pressed by simp
  obtain r q where j1: "find_method ''onOptionsItemSelected'' (methods c1) = Some j"
    and r: "position is_return (instructions (methods c ! j)) = Some r"
    and q: "position is_pswitch_end (spliced (Suc r) (Suc r) f (instructions (methods c ! j))) = Some q"
    and b1: "instructions (methods c1 ! j) =
               inserted q (Label ''pswitch_mod'') (spliced (Suc r) (Suc r) f (instructions (methods c ! j)))"
    using patch_main_activity_item_body [OF assms(1,2) f] by blast
  obtain r' q' where r': "position is_return (instructions (methods c1 ! j)) = Some r'"
    and q': "position is_pswitch_end (spliced (Suc r') (Suc r') f (instructions (methods c1 ! j))) = Some q'"
    and b2: "instructions (methods c2 ! j) =
               inserted q' (Label ''pswitch_mod'') (spliced (Suc r') (Suc r') f (instructions (methods c1 ! j)))"
    using patch_main_activity_item_body [OF assms(4) j1 f] by blast
  from assms(3) have "scan_ok (scan scan_init (instructions (methods c1 ! j)))" by (simp add: wf_body_def Let_def)
  then obtain R D1 D2 Ra Rb where
    "scan scan_init (instructions (methods c1 ! j)) = R\<lparr>defs := D1 @ ''pswitch_mod'' # D2, refs := Ra @ ''pswitch_mod'' # Rb\<rparr>"
    using scan_patched_item_ok [OF r q f] unfolding b1 by blast
  then have in1: "''pswitch_mod'' \<in> set (defs (scan scan_init (instructions (methods c1 ! j))))" by simp
  from wf2 have "scan_ok (scan scan_init (instructions (methods c2 ! j)))" by (simp add: wf_body_def Let_def)
  then obtain R' D1' D2' Ra' Rb' where
    "scan scan_init (instructions (methods c1 ! j)) = R'\<lparr>defs := D1' @ D2', refs := Ra' @ Rb'\<rparr>"
    and "scan scan_init (instructions (methods c2 ! j)) = R'\<lparr>defs := D1' @ ''pswitch_mod'' # D2', refs := Ra' @ ''pswitch_mod'' # Rb'\<rparr>"
    using scan_patched_item_ok [OF r' q' f] unfolding b2 by blast
  with in1 wf2 show False by (auto simp: wf_body_def Let_def)
qed

text \<open>
  C24. With the fragment parser of \<open>Fragment\<close>, \<open>patch_main_activity\<close> keeps a
  structurally valid class valid, method by method, provided \<open>onCreateOptionsMenu\<close> ends
  in a return (the entry the source pops) and \<open>onOptionsItemSelected\<close> does not yet define
  \<open>pswitch_mod\<close>. The untouched methods stay as they are, the menu body loses its return
  and gains \<open>ADD_MOD_BUTTON\<close>, which ends in its own return, the handler is as in \<open>patch_main_activity_keeps_wf\<close>,
  and the synthesized \<open>startMod\<close> body defines the one label it branches to.
\<close>

theorem patch_main_activity_keeps_wf_class:
  assumes "patch_main_activity parse_fragment c = Inr c'" and "wf_class c"
    and "find_method ''onCreateOptionsMenu'' (methods c) = Some i"
    and "is_return (last (instructions (methods c ! i)))"
    and "find_method ''onOptionsItemSelected'' (methods c) = Some j"
    and "Label ''pswitch_mod'' \<notin> set (instructions (methods c ! j))"
  shows "wf_class c'"
proof -
  obtain i' j' r q f1 f2 f3 where i': "find_method ''onCreateOptionsMenu'' (methods c) = Some i'"
    and f1: "parse_fragment ADD_MOD_BUTTON = Some f1"
    and j': "find_method ''onOptionsItemSelected'' (methods c) = Some j'"
    and r: "position is_return (instructions (methods c ! j')) = Some r"
    and f2: "parse_fragment ON_MOD_PRESSED = Some f2"
    and q: "position is_pswitch_end (spliced (Suc r) (Suc r) f2 (instructions (methods c ! j'))) = Some q"
    and f3: "parse_fragment START_MOD = Some f3"
    and len: "i' < length (methods c)" "j' < length (methods c)"
    and c': "c' = c\<lparr>methods :=
        (methods c)[i' := (methods c ! i')\<lparr>instructions := butlast (instructions (methods c ! i')) @ f1\<rparr>,
                    j' := (methods c ! j')\<lparr>instructions :=
                           inserted q (Label ''pswitch_mod'') (spliced (Suc r) (Suc r) f2 (instructions (methods c ! j')))\<rparr>]
        @ [start_mod f3]\<rparr>"
    using assms(1) by (elim patch_main_activity_InrE) blast
  from i' j' assms(3,5) have ii: "i' = i" and jj: "j' = j" by simp_all
  have menu: "wf_body (butlast (instructions (methods c ! i')) @ f1)"
    using wf_patched_menu_body [OF wf_class_nth [OF assms(2) len(1)] _ f1] assms(4) ii by simp
  have item: "wf_body (inserted q (Label ''pswitch_mod'') (spliced (Suc r) (Suc r) f2 (instructions (methods c ! j'))))"
    using wf_patched_item_body [OF r q f2 wf_class_nth [OF assms(2) len(2)]] assms(6) jj by simp
  have "list_all (\<lambda>m. wf_body (instructions m)) (methods c)" using assms(2) by (simp add: wf_class_def)
  then have "list_all (\<lambda>m. wf_body (instructions m))
      ((methods c)[i' := (methods c ! i')\<lparr>instructions := butlast (instructions (methods c ! i')) @ f1\<rparr>,
                   j' := (methods c ! j')\<lparr>instructions :=
                     inserted q (Label ''pswitch_mod'') (spliced (Suc r) (Suc r) f2 (instructions (methods c ! j')))\<rparr>])"
    by (intro list_all_list_update) (use menu item in simp_all)
  with wf_start_mod_body [OF f3] show ?thesis by (simp add: c' wf_class_def start_mod_def)
qed

end
