(* ===== verification/Engine.thy ===== *)
theory Engine
  imports Patches
begin

text \<open>
  The patch engine that section 9 of the specification asks for: the edits of
  \<open>src/src/main.rs\<close> written as data, \<^emph>\<open>patch descriptors\<close> naming a method, an anchor,
  an edit kind and a fragment, and one interpreter that runs them with the locator and the
  edit primitives of section 4. The engine knows no payload and no target; the two patch
  functions of the source become two lists of descriptors.

  \<^item> \<open>anchor\<close> names the two anchor predicates of the source, with the words the source's
    error messages use for them.
  \<^item> \<open>edit\<close> holds the primitives of section 4.2: remove the last entry, append a fragment,
    insert a fragment after an anchor, insert a label before an anchor, and replace the whole
    body (the range \<open>[0, length)\<close> of remove-and-replace).
  \<^item> \<open>descriptor\<close> either edits the first method of a name with a list of edits or
    synthesizes a method from a fragment (section 4.3).

  The interpreter re-locates every anchor on the current body, so no position outlives the
  edit it was computed for. The refinement theorem shows that \<open>patch_main_activity\<close> is
  this engine run on a fixed descriptor list, results and error messages included.
\<close>

datatype anchor = FirstReturn | SwitchEnd

datatype edit =
  PopLast
| Append fragment_text
| InsertAfter anchor fragment_text
| InsertLabelBefore anchor string
| ReplaceBody fragment_text

datatype descriptor =
  EditMethod string "edit list"
| AddMethod string "modifier list" method_signature nat fragment_text

primrec anchor_pred :: "anchor \<Rightarrow> smali_instruction \<Rightarrow> bool" where
  "anchor_pred FirstReturn = is_return"
| "anchor_pred SwitchEnd = is_pswitch_end"

primrec anchor_word :: "anchor \<Rightarrow> string" where
  "anchor_word FirstReturn = ''return''"
| "anchor_word SwitchEnd = ''pswitch end''"

definition locate :: "anchor \<Rightarrow> string \<Rightarrow> smali_instruction list \<Rightarrow> nat result" where
  "locate a n b =
     require_with (position (anchor_pred a) b)
       (MissingAnchor (''couldn't find '' @ anchor_word a @ '' in '' @ n))"

fun apply_edit :: "fragment_parser \<Rightarrow> string \<Rightarrow> edit \<Rightarrow> smali_instruction list \<Rightarrow> smali_instruction list result" where
  "apply_edit parse n PopLast b = Inr (fst (vec_pop b))"
| "apply_edit parse n (Append t) b = bind_res (require_fragment parse t) (\<lambda>f. Inr (b @ f))"
| "apply_edit parse n (InsertAfter a t) b =
     bind_res (locate a n b) (\<lambda>p.
     bind_res (require_fragment parse t) (\<lambda>f.
     vec_splice (p + 1) (p + 1) f b))"
| "apply_edit parse n (InsertLabelBefore a l) b =
     bind_res (locate a n b) (\<lambda>p. vec_insert p (Label l) b)"
| "apply_edit parse n (ReplaceBody t) b =
     bind_res (require_fragment parse t) (\<lambda>f. vec_splice 0 (length b) f b)"

fun apply_edits :: "fragment_parser \<Rightarrow> string \<Rightarrow> edit list \<Rightarrow> smali_instruction list \<Rightarrow> smali_instruction list result" where
  "apply_edits parse n [] b = Inr b"
| "apply_edits parse n (e # es) b = bind_res (apply_edit parse n e b) (apply_edits parse n es)"

definition synthesize :: "string \<Rightarrow> modifier list \<Rightarrow> method_signature \<Rightarrow> nat \<Rightarrow> smali_instruction list \<Rightarrow> smali_method" where
  "synthesize n mods sig locs body =
     \<lparr>name = n, modifiers = mods, constructor = False, signature = sig, locals = locs,
      annotations = [], instructions = body\<rparr>"

fun run_descriptor :: "fragment_parser \<Rightarrow> descriptor \<Rightarrow> smali_class \<Rightarrow> smali_class result" where
  "run_descriptor parse (EditMethod n es) c =
     bind_res (require_with (find_method n (methods c)) (MissingMethod (''couldn't find '' @ n))) (\<lambda>i.
     bind_res (apply_edits parse n es (instructions (methods c ! i))) (\<lambda>b.
     Inr (set_instructions i b c)))"
| "run_descriptor parse (AddMethod n mods sig locs t) c =
     bind_res (require_fragment parse t) (\<lambda>f.
     Inr (c\<lparr>methods := methods c @ [synthesize n mods sig locs f]\<rparr>))"

fun run_descriptors :: "fragment_parser \<Rightarrow> descriptor list \<Rightarrow> smali_class \<Rightarrow> smali_class result" where
  "run_descriptors parse [] c = Inr c"
| "run_descriptors parse (d # ds) c = bind_res (run_descriptor parse d c) (run_descriptors parse ds)"

definition activity_descriptors :: "descriptor list" where
  "activity_descriptors =
     [EditMethod ''onCreateOptionsMenu'' [PopLast, Append ADD_MOD_BUTTON],
      EditMethod ''onOptionsItemSelected''
        [InsertAfter FirstReturn ON_MOD_PRESSED, InsertLabelBefore SwitchEnd ''pswitch_mod''],
      AddMethod ''startMod'' [Private] \<lparr>args = [], return_type = Void\<rparr> 3 START_MOD]"

subsection \<open>The engine's primitives\<close>

lemma bind_res_Inr_right [simp]: "bind_res x Inr = x"
  by (cases x) simp_all

lemma locate_eq [simp]:
  "locate a n b = (case position (anchor_pred a) b of
                     None \<Rightarrow> Inl (MissingAnchor (''couldn't find '' @ anchor_word a @ '' in '' @ n))
                   | Some p \<Rightarrow> Inr p)"
  by (simp add: locate_def split: option.splits)

lemma run_descriptors_fun:
  "run_descriptors parse [] = Inr"
  "run_descriptors parse (d # ds) = (\<lambda>c. bind_res (run_descriptor parse d c) (run_descriptors parse ds))"
  by (rule ext, simp)+

subsection \<open>The patches of the source as descriptors\<close>

lemma run_menu_descriptor:
  "run_descriptor parse (EditMethod ''onCreateOptionsMenu'' [PopLast, Append ADD_MOD_BUTTON]) c =
   patch_options_menu parse c"
  by (simp add: patch_options_menu_eq require_fragment_def split: option.splits)

lemma run_item_descriptor:
  "run_descriptor parse (EditMethod ''onOptionsItemSelected''
      [InsertAfter FirstReturn ON_MOD_PRESSED, InsertLabelBefore SwitchEnd ''pswitch_mod'']) c =
   patch_item_selected parse c"
proof (cases "find_method ''onOptionsItemSelected'' (methods c)")
  case None
  then show ?thesis by (simp add: patch_item_selected_eq)
next
  case (Some j)
  let ?b = "instructions (methods c ! j)"
  show ?thesis
  proof (cases "position is_return ?b")
    case None
    with Some show ?thesis by (simp add: patch_item_selected_eq)
  next
    case (Some r)
    then have r: "Suc r \<le> length ?b" using position_less_length by fastforce
    show ?thesis
    proof (cases "parse ON_MOD_PRESSED")
      case None
      with \<open>find_method _ _ = Some j\<close> Some show ?thesis
        by (simp add: patch_item_selected_eq require_fragment_def)
    next
      case (Some f)
      let ?sp = "spliced (Suc r) (Suc r) f ?b"
      show ?thesis
      proof (cases "position is_pswitch_end ?sp")
        case None
        with \<open>find_method _ _ = Some j\<close> \<open>position is_return ?b = Some r\<close> Some r
        show ?thesis by (simp add: patch_item_selected_eq require_fragment_def)
      next
        case (Some q)
        then have "q \<le> length ?sp" using position_less_length by fastforce
        with Some \<open>find_method _ _ = Some j\<close> \<open>position is_return ?b = Some r\<close>
          \<open>parse ON_MOD_PRESSED = Some f\<close> r
        show ?thesis by (simp add: patch_item_selected_eq require_fragment_def)
      qed
    qed
  qed
qed

lemma run_start_mod_descriptor:
  "run_descriptor parse (AddMethod ''startMod'' [Private] \<lparr>args = [], return_type = Void\<rparr> 3 START_MOD) c =
   add_start_mod parse c"
  by (simp add: add_start_mod_eq require_fragment_def synthesize_def start_mod_def split: option.splits)

subsection \<open>Properties\<close>

text \<open>
  C25. \<open>patch_main_activity\<close> is the engine run on three descriptors: edit
  \<open>onCreateOptionsMenu\<close> by popping its last entry and appending \<open>ADD_MOD_BUTTON\<close>;
  edit \<open>onOptionsItemSelected\<close> by inserting \<open>ON_MOD_PRESSED\<close> after the first return
  and then the label \<open>pswitch_mod\<close> before the switch end, located afresh; and add the
  method \<open>startMod\<close> built from \<open>START_MOD\<close>. The two agree for every fragment
  parser and every class, on success and on every error.
\<close>

theorem patch_main_activity_refines:
  "patch_main_activity parse c = run_descriptors parse activity_descriptors c"
  unfolding activity_descriptors_def patch_main_activity_def
  by (simp only: run_descriptors_fun run_menu_descriptor run_item_descriptor run_start_mod_descriptor
      bind_res_Inr_right)

end
