(* ===== verification/Registers.thy ===== *)
theory Registers
  imports Wellformed
begin

text \<open>
  Register typing of smali methods. A method declares \<open>.locals n\<close>, the field
  \<open>locals\<close> that \<open>src/src/main.rs\<close> sets to 3 for \<open>startMod\<close> (line 127). Its
  instructions may name the local registers \<open>v0\<close> to \<open>v(n-1)\<close> and the parameter
  registers \<open>p0\<close>, \<open>p1\<close>, and so on. A method that is not static has \<open>this\<close> in \<open>p0\<close>.
  Each argument takes one parameter register, or two for \<open>long\<close> and \<open>double\<close>. In
  smali the \<open>v\<close> numbers run on past the locals into the parameters: with \<open>n\<close>
  locals, \<open>vn\<close> is \<open>p0\<close>. \<open>regs_ok\<close> asks for the discipline the payloads are written
  in: a \<open>v\<close> register is a local (below \<open>locals\<close>), so writing it never overwrites a
  parameter, and a \<open>p\<close> register is a parameter. This is stricter than what the assembler
  accepts. The patches copy
  payloads that name registers (\<open>v0\<close>, \<open>v1\<close>, \<open>p0\<close>, \<open>p1\<close>) into existing methods and
  never change their \<open>locals\<close>, so register typing is a property the patches have to keep.

  The registers of an instruction are the words of its text, split at spaces, commas and
  braces, of the form \<open>v\<close> or \<open>p\<close> followed by decimal digits. A string literal that
  contains such a word would be counted too; the payloads have none.
\<close>

definition is_reg_sep :: "char \<Rightarrow> bool" where
  "is_reg_sep c = (c = CHR '' '' \<or> c = CHR '','' \<or> c = CHR ''{'' \<or> c = CHR ''}'')"

fun reg_of :: "string \<Rightarrow> (char \<times> nat) option" where
  "reg_of [] = None"
| "reg_of (c # ds) =
     (if (c = CHR ''v'' \<or> c = CHR ''p'') \<and> ds \<noteq> [] \<and> list_all is_digit ds
      then Some (c, nat_of_digits ds) else None)"

definition instr_regs :: "string \<Rightarrow> (char \<times> nat) list" where
  "instr_regs s = List.map_filter reg_of (split_by is_reg_sep [] s)"

primrec arg_width :: "type_signature \<Rightarrow> nat" where
  "arg_width Bool = 1" | "arg_width Byte = 1" | "arg_width Char = 1" | "arg_width Short = 1"
| "arg_width type_signature.Int = 1" | "arg_width Long = 2" | "arg_width Float = 1" | "arg_width Double = 2"
| "arg_width Void = 1" | "arg_width (Object n) = 1" | "arg_width (Array t) = 1"

definition ins_count :: "smali_method \<Rightarrow> nat" where
  "ins_count m =
     (if Static \<in> set (modifiers m) then 0 else 1) + sum_list (map arg_width (args (signature m)))"

definition reg_in_range :: "nat \<Rightarrow> nat \<Rightarrow> char \<times> nat \<Rightarrow> bool" where
  "reg_in_range nl np r = (if fst r = CHR ''v'' then snd r < nl else snd r < np)"

definition body_regs_ok :: "nat \<Rightarrow> nat \<Rightarrow> smali_instruction list \<Rightarrow> bool" where
  "body_regs_ok nl np b =
     list_all (\<lambda>i. case i of Instruction s \<Rightarrow> list_all (reg_in_range nl np) (instr_regs s) | _ \<Rightarrow> True) b"

definition regs_ok :: "smali_method \<Rightarrow> bool" where
  "regs_ok m = body_regs_ok (locals m) (ins_count m) (instructions m)"

definition regs_ok_class :: "smali_class \<Rightarrow> bool" where
  "regs_ok_class c = list_all regs_ok (methods c)"

subsection \<open>Register typing of bodies\<close>

lemma body_regs_ok_subset:
  "body_regs_ok nl np b \<Longrightarrow> set b' \<subseteq> set b \<Longrightarrow> body_regs_ok nl np b'"
  by (auto simp: body_regs_ok_def list_all_iff)

lemma body_regs_ok_append [simp]:
  "body_regs_ok nl np (xs @ ys) \<longleftrightarrow> body_regs_ok nl np xs \<and> body_regs_ok nl np ys"
  by (simp add: body_regs_ok_def)

lemma body_regs_ok_Label [simp]: "body_regs_ok nl np (Label l # xs) = body_regs_ok nl np xs"
  by (simp add: body_regs_ok_def)

lemma body_regs_ok_take_drop:
  "body_regs_ok nl np b \<Longrightarrow> body_regs_ok nl np (take n b)"
  "body_regs_ok nl np b \<Longrightarrow> body_regs_ok nl np (drop n b)"
  by (metis body_regs_ok_subset set_take_subset, metis body_regs_ok_subset set_drop_subset)

lemma body_regs_ok_spliced:
  "body_regs_ok nl np b \<Longrightarrow> body_regs_ok nl np f \<Longrightarrow> body_regs_ok nl np (spliced s e f b)"
  by (simp add: body_regs_ok_take_drop)

lemma body_regs_ok_inserted:
  "body_regs_ok nl np b \<Longrightarrow> body_regs_ok nl np (inserted q (Label l) b)"
  by (simp add: body_regs_ok_take_drop)

lemma body_regs_ok_butlast:
  "body_regs_ok nl np b \<Longrightarrow> body_regs_ok nl np (butlast b)"
  by (auto intro: body_regs_ok_subset dest: in_set_butlastD)

lemma regs_add_mod_button:
  "parse_fragment ADD_MOD_BUTTON = Some f \<Longrightarrow> body_regs_ok nl np f \<longleftrightarrow> 2 \<le> nl \<and> 2 \<le> np"
  by (auto simp: parse_add_mod_button body_regs_ok_def instr_regs_def is_reg_sep_def is_digit_def
      nat_of_digits_def reg_in_range_def map_filter_def eq_commute [of _ f])

lemma regs_on_mod_pressed:
  "parse_fragment ON_MOD_PRESSED = Some f \<Longrightarrow> body_regs_ok nl np f \<longleftrightarrow> 1 \<le> nl \<and> 1 \<le> np"
  by (auto simp: parse_on_mod_pressed body_regs_ok_def instr_regs_def is_reg_sep_def is_digit_def
      nat_of_digits_def reg_in_range_def map_filter_def eq_commute [of _ f])

lemma regs_start_mod:
  "parse_fragment START_MOD = Some f \<Longrightarrow> regs_ok (start_mod f)"
  by (simp add: START_MOD_def parse_line_def trim_def is_blank_char_def regs_ok_def start_mod_def
      ins_count_def body_regs_ok_def instr_regs_def is_reg_sep_def is_digit_def nat_of_digits_def
      reg_in_range_def map_filter_def eq_commute [of _ f])

lemma regs_ok_update_instructions [simp]:
  "regs_ok (m\<lparr>instructions := b\<rparr>) = body_regs_ok (locals m) (ins_count m) b"
  by (simp add: regs_ok_def ins_count_def)

lemma regs_ok_class_nth: "regs_ok_class c \<Longrightarrow> i < length (methods c) \<Longrightarrow> regs_ok (methods c ! i)"
  by (simp add: regs_ok_class_def list_all_length)

subsection \<open>Properties\<close>

text \<open>
  C26. With the fragment parser of \<open>Fragment\<close>, \<open>patch_main_activity\<close> keeps every
  method of a register-typed class register-typed, provided \<open>onCreateOptionsMenu\<close> has at
  least two locals and two parameter registers (\<open>ADD_MOD_BUTTON\<close> uses \<open>v0\<close>,
  \<open>v1\<close>, \<open>p0\<close> and \<open>p1\<close>) and \<open>onOptionsItemSelected\<close> has at least one of each
  (\<open>ON_MOD_PRESSED\<close> uses \<open>v0\<close> and \<open>p0\<close>). The synthesized \<open>startMod\<close>, with
  its three locals, is register-typed as it stands.
\<close>

theorem patch_main_activity_keeps_regs:
  assumes "patch_main_activity parse_fragment c = Inr c'" and "regs_ok_class c"
    and "find_method ''onCreateOptionsMenu'' (methods c) = Some i"
    and "2 \<le> locals (methods c ! i)" and "2 \<le> ins_count (methods c ! i)"
    and "find_method ''onOptionsItemSelected'' (methods c) = Some j"
    and "1 \<le> locals (methods c ! j)" and "1 \<le> ins_count (methods c ! j)"
  shows "regs_ok_class c'"
proof -
  obtain i' j' r q f1 f2 f3 where i': "find_method ''onCreateOptionsMenu'' (methods c) = Some i'"
    and f1: "parse_fragment ADD_MOD_BUTTON = Some f1"
    and j': "find_method ''onOptionsItemSelected'' (methods c) = Some j'"
    and f2: "parse_fragment ON_MOD_PRESSED = Some f2"
    and f3: "parse_fragment START_MOD = Some f3"
    and len: "i' < length (methods c)" "j' < length (methods c)"
    and c': "c' = c\<lparr>methods :=
        (methods c)[i' := (methods c ! i')\<lparr>instructions := butlast (instructions (methods c ! i')) @ f1\<rparr>,
                    j' := (methods c ! j')\<lparr>instructions :=
                           inserted q (Label ''pswitch_mod'') (spliced (Suc r) (Suc r) f2 (instructions (methods c ! j')))\<rparr>]
        @ [start_mod f3]\<rparr>"
    using assms(1) by (elim patch_main_activity_InrE) blast
  from i' j' assms(3,6) have ii: "i' = i" and jj: "j' = j" by simp_all
  have mi: "body_regs_ok (locals (methods c ! i')) (ins_count (methods c ! i')) (instructions (methods c ! i'))"
    and mj: "body_regs_ok (locals (methods c ! j')) (ins_count (methods c ! j')) (instructions (methods c ! j'))"
    using regs_ok_class_nth [OF assms(2) len(1)] regs_ok_class_nth [OF assms(2) len(2)]
    by (simp_all add: regs_ok_def)
  have "list_all regs_ok (methods c)" using assms(2) by (simp add: regs_ok_class_def)
  then have "list_all regs_ok
      ((methods c)[i' := (methods c ! i')\<lparr>instructions := butlast (instructions (methods c ! i')) @ f1\<rparr>,
                   j' := (methods c ! j')\<lparr>instructions :=
                     inserted q (Label ''pswitch_mod'') (spliced (Suc r) (Suc r) f2 (instructions (methods c ! j')))\<rparr>])"
  proof -
    have menu: "body_regs_ok (locals (methods c ! i')) (ins_count (methods c ! i'))
                  (butlast (instructions (methods c ! i')) @ f1)"
      using body_regs_ok_butlast [OF mi] regs_add_mod_button [OF f1] assms(4,5) ii by simp
    have "body_regs_ok (locals (methods c ! j')) (ins_count (methods c ! j')) f2"
      using regs_on_mod_pressed [OF f2] assms(7,8) jj by simp
    then have item: "body_regs_ok (locals (methods c ! j')) (ins_count (methods c ! j'))
        (inserted q (Label ''pswitch_mod'') (spliced (Suc r) (Suc r) f2 (instructions (methods c ! j'))))"
      by (intro body_regs_ok_inserted body_regs_ok_spliced mj)
    from \<open>list_all regs_ok (methods c)\<close> show ?thesis
      by (intro list_all_list_update) (use menu item in simp_all)
  qed
  with regs_start_mod [OF f3] show ?thesis by (simp add: c' regs_ok_class_def)
qed

text \<open>
  C27. The patch never raises \<open>locals\<close>: when \<open>onCreateOptionsMenu\<close> declares fewer than
  two locals, the patched method uses \<open>v1\<close> at or beyond its locals, that is a parameter
  register (\<open>p0\<close>, \<open>this\<close>, when there is one local). \<open>ADD_MOD_BUTTON\<close> writes a
  string into \<open>v1\<close> before the call that passes \<open>p0\<close> and \<open>p1\<close>, so the method
  is not register-typed and its call no longer receives \<open>this\<close>, although the patch
  reports success.
\<close>

theorem patch_main_activity_menu_needs_two_locals:
  assumes "patch_main_activity parse_fragment c = Inr c'"
    and "find_method ''onCreateOptionsMenu'' (methods c) = Some i"
    and "locals (methods c ! i) < 2"
  shows "\<not> regs_ok (methods c' ! i)"
proof -
  obtain i' j' r q f1 f2 f3 where i': "find_method ''onCreateOptionsMenu'' (methods c) = Some i'"
    and f1: "parse_fragment ADD_MOD_BUTTON = Some f1"
    and ij: "i' \<noteq> j'" "i' < length (methods c)" "j' < length (methods c)"
    and c': "c' = c\<lparr>methods :=
        (methods c)[i' := (methods c ! i')\<lparr>instructions := butlast (instructions (methods c ! i')) @ f1\<rparr>,
                    j' := (methods c ! j')\<lparr>instructions :=
                           inserted q (Label ''pswitch_mod'') (spliced (Suc r) (Suc r) f2 (instructions (methods c ! j')))\<rparr>]
        @ [start_mod f3]\<rparr>"
    using assms(1) by (elim patch_main_activity_InrE) blast
  from i' assms(2) have ii: "i' = i" by simp
  have "methods c' ! i = (methods c ! i)\<lparr>instructions := butlast (instructions (methods c ! i)) @ f1\<rparr>"
    using c' ij ii by (simp add: nth_append)
  with regs_add_mod_button [OF f1] assms(3) show ?thesis by simp
qed

end
