(* ===== verification/Steps.thy ===== *)
theory Steps
  imports Orchestrator
begin

text \<open>
  \<open>main\<close> of \<open>src/src/main.rs\<close> (lines 146--166, with \<open>patch_class\<close>, lines 66--74)
  as a step relation. Each call that ends in \<open>?\<close> is one step. The calls are reading a
  class, patching it, writing it back (twice), writing \<open>list.min.js\<close>, reading
  \<open>index.html\<close> and writing it. A \<open>stage\<close> is the program point after a step, with the
  value that step returned. A failing call ends the run at once in \<open>Finished (Inl e)\<close>;
  \<open>after\<close> is that \<open>?\<close>. This is the run of section 5 of the specification,
  single-threaded with each class read, patched and written before the next: the ordering
  and the abort of the remaining queue (section 4.4) are visible step by step, and the frame
  of the run is proved by rule induction over the steps, as for the small-step semantics of
  IMP.
\<close>

datatype stage =
    Start
  | ActivityRead smali_class
  | ActivityPatched smali_class
  | ActivityWritten
  | BillingRead smali_class
  | BillingPatched smali_class
  | BillingWritten
  | ListJsWritten
  | IndexRead string
  | Finished "unit result"

definition after :: "'a result \<times> fs \<Rightarrow> ('a \<Rightarrow> stage) \<Rightarrow> stage \<times> fs" where
  "after rs k = (case rs of (Inl e, s') \<Rightarrow> (Finished (Inl e), s') | (Inr x, s') \<Rightarrow> (k x, s'))"

inductive main_step :: "smali_io \<Rightarrow> string \<Rightarrow> string \<Rightarrow> path \<Rightarrow> stage \<times> fs \<Rightarrow> stage \<times> fs \<Rightarrow> bool"
  for bd list_js html_mod root where
  read_activity:
    "main_step bd list_js html_mod root (Start, s)
       (after (read_from_file bd (activity_path root) s) ActivityRead)"
| patch_activity:
    "main_step bd list_js html_mod root (ActivityRead c, s)
       (after (patch_main_activity (parse_frag bd) c, s) ActivityPatched)"
| write_activity:
    "main_step bd list_js html_mod root (ActivityPatched c, s)
       (after (write_to_file bd (activity_path root) c s) (\<lambda>_. ActivityWritten))"
| read_billing:
    "main_step bd list_js html_mod root (ActivityWritten, s)
       (after (read_from_file bd (billing_path root) s) BillingRead)"
| patch_billing_step:
    "main_step bd list_js html_mod root (BillingRead c, s)
       (after (patch_billing (parse_frag bd) c, s) BillingPatched)"
| write_billing:
    "main_step bd list_js html_mod root (BillingPatched c, s)
       (after (write_to_file bd (billing_path root) c s) (\<lambda>_. BillingWritten))"
| write_list_js:
    "main_step bd list_js html_mod root (BillingWritten, s)
       (after (write_file (list_js_path root) list_js s) (\<lambda>_. ListJsWritten))"
| read_index:
    "main_step bd list_js html_mod root (ListJsWritten, s)
       (after (read_to_string (index_path root) s) IndexRead)"
| write_index:
    "main_step bd list_js html_mod root (IndexRead html, s)
       (after (write_file (index_path root) (str_replace html ''</head>'' html_mod) s) (\<lambda>u. Finished (Inr u)))"

abbreviation main_steps :: "smali_io \<Rightarrow> string \<Rightarrow> string \<Rightarrow> path \<Rightarrow> stage \<times> fs \<Rightarrow> stage \<times> fs \<Rightarrow> bool" where
  "main_steps bd list_js html_mod root \<equiv> (main_step bd list_js html_mod root)\<^sup>*\<^sup>*"

subsection \<open>The step relation\<close>

text \<open>A step writes at most one of the four files of \<open>main\<close> and nothing else.\<close>

lemma snd_after [simp]: "snd (after rs k) = snd rs"
  by (simp add: after_def split: prod.splits sum.splits)

lemma write_file_frame: "p \<noteq> q \<Longrightarrow> files (snd (write_file q t s)) p = files s p"
  by (simp add: write_file_def)

lemma dirs_write_file [simp]: "dirs (snd (write_file q t s)) = dirs s"
  by (simp add: write_file_def)

lemma read_from_file_state [simp]: "snd (read_from_file bd q s) = s"
  by (simp add: read_from_file_def io_bind_def read_to_string_def io_lift_def split: option.splits)

lemma read_to_string_state [simp]: "snd (read_to_string q s) = s"
  by (simp add: read_to_string_def split: option.splits)

lemma main_step_frame:
  "main_step bd list_js html_mod root x y \<Longrightarrow>
   p \<notin> {activity_path root, billing_path root, list_js_path root, index_path root} \<Longrightarrow>
   files (snd y) p = files (snd x) p \<and> dirs (snd y) = dirs (snd x)"
  by (induction rule: main_step.induct) (simp_all add: write_to_file_def write_file_frame)

subsection \<open>Properties\<close>

text \<open>
  C28. \<open>main\<close> touches only its four files. In every stage of every run, whether the run
  goes on, has ended or has failed, every other path holds what it held at the start, and the
  directories are unchanged.
\<close>

theorem main_steps_frame:
  assumes "main_steps bd list_js html_mod root (Start, s) (st, s')"
    and "p \<notin> {activity_path root, billing_path root, list_js_path root, index_path root}"
  shows "files s' p = files s p \<and> dirs s' = dirs s"
  using assms(1)
proof (induction rule: rtranclp_induct2)
  case (step st1 s1 st2 s2)
  from main_step_frame [OF step.hyps(2) assms(2)] step.IH show ?case by simp
qed simp

end
