(* ===== verification/Smali_Text.thy ===== *)
theory Smali_Text
  imports Fragment
begin

text \<open>
  The serialization boundary: \<open>SmaliClass::write_to_file\<close> prints a class as smali text
  and \<open>SmaliClass::read_from_file\<close> parses it back (\<open>src/src/main.rs\<close> lines 70 and 72).
  The \<open>smali\<close> crate is not in the repository, and the specification (sections 2 and 6)
  asks of it only that printing and parsing agree. This theory gives one such pair for the
  part of the smali syntax the model holds, line by line:
  \<^item> \<open>.class\<close> with the class modifiers and the class name, then \<open>.super\<close> when the class
    has a superclass;
  \<^item> per method, \<open>.method\<close> with the modifiers, \<open>constructor\<close> when it is one, and the
    name glued to the signature in type descriptors (\<open>Z\<close>, \<open>I\<close>, \<open>Lname;\<close>, \<open>[\<close>...;
    an \<open>Object\<close> type holds the class path \<open>name\<close>, without the \<open>L\<close> and \<open>;\<close> of its
    descriptor);
    then an indented \<open>.locals n\<close>, one \<open>.annotation\<close> line per annotation, the
    entries (an instruction as its text, a label as \<open>:name\<close>), and \<open>.end method\<close>.
  Lines end in a newline; blank lines are skipped, and so are blank lines among the
  annotations. An entry line is read with \<open>parse_line\<close> of \<open>Fragment\<close>, as a fragment line
  is. Fields, source directives and multi-line annotation blocks are not part of the model,
  and a file holding them does not parse.
\<close>

subsection \<open>Printing\<close>

definition is_space :: "char \<Rightarrow> bool" where
  "is_space c = (c = CHR '' '')"

definition is_newline :: "char \<Rightarrow> bool" where
  "is_newline c = (c = CHR 0x0A)"

fun digits_of :: "nat \<Rightarrow> string" where
  "digits_of n = (if n < 10 then [char_of (48 + n)] else digits_of (n div 10) @ [char_of (48 + n mod 10)])"

primrec print_type :: "type_signature \<Rightarrow> string" where
  "print_type Bool = ''Z''"
| "print_type Byte = ''B''"
| "print_type type_signature.Char = ''C''"
| "print_type Short = ''S''"
| "print_type type_signature.Int = ''I''"
| "print_type Long = ''J''"
| "print_type Float = ''F''"
| "print_type Double = ''D''"
| "print_type Void = ''V''"
| "print_type (Object s) = CHR ''L'' # s @ '';''"
| "print_type (Array t) = CHR ''['' # print_type t"

primrec print_modifier :: "modifier \<Rightarrow> string" where
  "print_modifier Public = ''public''"
| "print_modifier Private = ''private''"
| "print_modifier Protected = ''protected''"
| "print_modifier Static = ''static''"
| "print_modifier Final = ''final''"
| "print_modifier Synchronized = ''synchronized''"
| "print_modifier Bridge = ''bridge''"
| "print_modifier Varargs = ''varargs''"
| "print_modifier Native = ''native''"
| "print_modifier Abstract = ''abstract''"
| "print_modifier Strict = ''strictfp''"
| "print_modifier Synthetic = ''synthetic''"

definition all_modifiers :: "modifier list" where
  "all_modifiers = [Public, Private, Protected, Static, Final, Synchronized, Bridge, Varargs,
                    Native, Abstract, Strict, Synthetic]"

definition words_line :: "string list \<Rightarrow> string \<Rightarrow> string" where
  "words_line ws w = concat (map (\<lambda>v. v @ '' '') ws) @ w"

definition print_entry :: "smali_instruction \<Rightarrow> string" where
  "print_entry i =
     (case i of Instruction s \<Rightarrow> ''    '' @ s | Label l \<Rightarrow> ''    :'' @ l | Directive d \<Rightarrow> ''    '' @ d)"

definition print_signature :: "string \<Rightarrow> method_signature \<Rightarrow> string" where
  "print_signature n sg =
     n @ CHR ''('' # concat (map print_type (args sg)) @ CHR '')'' # print_type (return_type sg)"

definition method_lines :: "smali_method \<Rightarrow> string list" where
  "method_lines m =
     words_line (''.method'' # map print_modifier (modifiers m) @ (if constructor m then [''constructor''] else []))
       (print_signature (name m) (signature m)) #
     (''    .locals '' @ digits_of (locals m)) #
     map (\<lambda>a. ''    .annotation '' @ a) (annotations m) @
     map print_entry (instructions m) @ [''.end method'']"

definition class_lines :: "smali_class \<Rightarrow> string list" where
  "class_lines c =
     words_line (''.class'' # map print_modifier (class_modifiers c)) (class_name c) #
     (case super_class c of None \<Rightarrow> [] | Some s \<Rightarrow> [''.super '' @ s]) @
     concat (map method_lines (methods c))"

definition print_smali :: "smali_class \<Rightarrow> string" where
  "print_smali c = concat (map (\<lambda>l. l @ [CHR 0x0A]) (class_lines c))"

subsection \<open>Parsing\<close>

fun parse_type :: "string \<Rightarrow> (type_signature \<times> string) option" where
  "parse_type [] = None"
| "parse_type (c # cs) =
     (if c = CHR ''Z'' then Some (Bool, cs)
      else if c = CHR ''B'' then Some (Byte, cs)
      else if c = CHR ''C'' then Some (type_signature.Char, cs)
      else if c = CHR ''S'' then Some (Short, cs)
      else if c = CHR ''I'' then Some (type_signature.Int, cs)
      else if c = CHR ''J'' then Some (Long, cs)
      else if c = CHR ''F'' then Some (Float, cs)
      else if c = CHR ''D'' then Some (Double, cs)
      else if c = CHR ''V'' then Some (Void, cs)
      else if c = CHR ''L'' then
        (let n = takeWhile (\<lambda>x. x \<noteq> CHR '';'') cs in
         if n = cs then None else Some (Object n, drop (Suc (length n)) cs))
      else if c = CHR ''['' then map_option (\<lambda>(t, r). (Array t, r)) (parse_type cs)
      else None)"

function parse_types :: "string \<Rightarrow> (type_signature list \<times> string) option" where
  "parse_types [] = None"
| "parse_types (c # cs) =
     (if c = CHR '')'' then Some ([], cs)
      else (case parse_type (c # cs) of
              None \<Rightarrow> None
            | Some (t, r) \<Rightarrow> map_option (\<lambda>(ts, r'). (t # ts, r')) (parse_types r)))"
  by pat_completeness auto
termination
proof (relation "measure length")
  have short: "parse_type s = Some (t, r) \<Longrightarrow> length r < length s" for s t r
  proof (induction s arbitrary: t r rule: parse_type.induct)
    case (2 c cs)
    then show ?case
      by (auto simp: Let_def split: if_splits)
  qed simp
  show "wf (measure length)" by simp
  fix c cs p t r
  assume "parse_type (c # cs) = Some p" and "(t, r) = p"
  then show "(r, c # cs) \<in> measure length" using short by fastforce
qed

fun parse_mods :: "string list \<Rightarrow> (modifier list \<times> bool) option" where
  "parse_mods [] = Some ([], False)"
| "parse_mods (w # ws) =
     (if w = ''constructor'' \<and> ws = [] then Some ([], True)
      else (case find (\<lambda>m. print_modifier m = w) all_modifiers of
              None \<Rightarrow> None
            | Some m \<Rightarrow> map_option (\<lambda>(ms, k). (m # ms, k)) (parse_mods ws)))"

definition header_words :: "string \<Rightarrow> string \<Rightarrow> (modifier list \<times> bool \<times> string) option" where
  "header_words kw l =
     (case split_by is_space [] l of
        [] \<Rightarrow> None
      | k # ws \<Rightarrow> if k = kw \<and> ws \<noteq> [] then map_option (\<lambda>(ms, b). (ms, b, last ws)) (parse_mods (butlast ws))
                  else None)"

definition parse_signature :: "string \<Rightarrow> (string \<times> method_signature) option" where
  "parse_signature w =
     (let n = takeWhile (\<lambda>x. x \<noteq> CHR ''('') w in
      case drop (length n) w of
        [] \<Rightarrow> None
      | _ # r \<Rightarrow> (case parse_types r of
                   None \<Rightarrow> None
                 | Some (as, r') \<Rightarrow> (case parse_type r' of
                                      Some (t, []) \<Rightarrow> Some (n, \<lparr>args = as, return_type = t\<rparr>)
                                    | _ \<Rightarrow> None)))"

definition parse_locals :: "string \<Rightarrow> nat option" where
  "parse_locals l =
     (let t = trim l in
      if take 8 t = ''.locals '' \<and> drop 8 t \<noteq> [] \<and> list_all is_digit (drop 8 t)
      then Some (nat_of_digits (drop 8 t)) else None)"

fun parse_annotations :: "string list \<Rightarrow> string list \<times> string list" where
  "parse_annotations [] = ([], [])"
| "parse_annotations (l # ls) =
     (if trim l = [] then parse_annotations ls
      else if take 12 (trim l) = ''.annotation '' then apfst (Cons (drop 12 (trim l))) (parse_annotations ls)
      else ([], l # ls))"

fun parse_body :: "string list \<Rightarrow> (smali_instruction list \<times> string list) option" where
  "parse_body [] = None"
| "parse_body (l # ls) =
     (if trim l = ''.end method'' then Some ([], ls)
      else if take 12 (trim l) = ''.annotation '' then None
      else (case parse_line l of
              None \<Rightarrow> None
            | Some es \<Rightarrow> map_option (apfst ((@) es)) (parse_body ls)))"

fun parse_method :: "string list \<Rightarrow> (smali_method \<times> string list) option" where
  "parse_method (h # l # ls) =
     (case header_words ''.method'' h of
        None \<Rightarrow> None
      | Some (ms, k, w) \<Rightarrow>
          (case parse_signature w of
             None \<Rightarrow> None
           | Some (n, sg) \<Rightarrow>
               (case parse_locals l of
                  None \<Rightarrow> None
                | Some nl \<Rightarrow>
                    (case parse_body (snd (parse_annotations ls)) of
                       None \<Rightarrow> None
                     | Some (body, rest) \<Rightarrow>
                         Some (\<lparr>name = n, modifiers = ms, constructor = k, signature = sg, locals = nl,
                                annotations = fst (parse_annotations ls), instructions = body\<rparr>, rest)))))"
| "parse_method _ = None"

function parse_methods :: "string list \<Rightarrow> smali_method list option" where
  "parse_methods [] = Some []"
| "parse_methods (l # ls) =
     (case parse_method (l # ls) of
        None \<Rightarrow> None
      | Some (m, r) \<Rightarrow> map_option (Cons m) (parse_methods r))"
  by pat_completeness auto
termination
proof (relation "measure length")
  have ann: "length (snd (parse_annotations ls)) \<le> length ls" for ls
    by (induction ls rule: parse_annotations.induct) (auto simp: apfst_def map_prod_def split_beta le_SucI)
  have body: "parse_body ls = Some (b, r) \<Longrightarrow> length r < length ls" for ls b r
    by (induction ls arbitrary: b r rule: parse_body.induct)
      (fastforce split: if_splits option.splits simp: apfst_def map_prod_def)+
  have "parse_method ls = Some (m, r) \<Longrightarrow> length r < length ls" for ls m r
  proof (cases ls rule: parse_method.cases)
    case (1 h l ls')
    assume "parse_method ls = Some (m, r)"
    then have "parse_body (snd (parse_annotations ls')) = Some (instructions m, r)"
      using 1 by (auto split: option.split_asm prod.split_asm)
    then have "length r < length (snd (parse_annotations ls'))" by (rule body)
    with ann [of ls'] 1 show ?thesis by simp
  qed simp_all
  then show "\<And>l ls x m r. parse_method (l # ls) = Some x \<Longrightarrow> (m, r) = x \<Longrightarrow> (r, l # ls) \<in> measure length"
    by fastforce
qed simp

definition super_line :: "string list \<Rightarrow> string option \<times> string list" where
  "super_line ls =
     (case ls of
        l # ls' \<Rightarrow> if take 7 l = ''.super '' then (Some (drop 7 l), ls') else (None, ls)
      | [] \<Rightarrow> (None, ls))"

fun parse_class_lines :: "string list \<Rightarrow> smali_class option" where
  "parse_class_lines [] = None"
| "parse_class_lines (h # ls) =
     (case header_words ''.class'' h of
        Some (ms, False, n) \<Rightarrow>
          map_option (\<lambda>meths. \<lparr>class_name = n, class_modifiers = ms, super_class = fst (super_line ls),
                               methods = meths\<rparr>)
            (parse_methods (snd (super_line ls)))
      | _ \<Rightarrow> None)"

definition parse_smali :: "string \<Rightarrow> smali_class option" where
  "parse_smali t = parse_class_lines (split_by is_newline [] t)"

subsection \<open>Printable classes\<close>

text \<open>
  A class prints to text that parses back to it when its names are words (no space, no
  newline), object type names hold no \<open>;\<close>, method names no \<open>(\<close>, and every entry,
  annotation and superclass is one line that the parser reads back: an instruction or
  annotation without surrounding blanks, an instruction that neither starts with \<open>:\<close> nor
  looks like \<open>.end method\<close> or an annotation line, a label with a name. A
  \<open>Directive\<close> entry prints like an instruction and reads back as one, so a printable class
  holds none; neither the parser nor the patches produce one.
\<close>

definition no_newline :: "string \<Rightarrow> bool" where
  "no_newline s = (\<forall>x\<in>set s. \<not> is_newline x)"

definition word_ok :: "string \<Rightarrow> bool" where
  "word_ok s = (\<forall>x\<in>set s. \<not> is_space x \<and> \<not> is_newline x)"

primrec type_ok :: "type_signature \<Rightarrow> bool" where
  "type_ok Bool = True"
| "type_ok Byte = True"
| "type_ok type_signature.Char = True"
| "type_ok Short = True"
| "type_ok type_signature.Int = True"
| "type_ok Long = True"
| "type_ok Float = True"
| "type_ok Double = True"
| "type_ok Void = True"
| "type_ok (Object s) = (word_ok s \<and> CHR '';'' \<notin> set s)"
| "type_ok (Array t) = type_ok t"

definition trimmed :: "string \<Rightarrow> bool" where
  "trimmed s = (s \<noteq> [] \<and> \<not> is_blank_char (hd s) \<and> \<not> is_blank_char (last s))"

definition entry_ok :: "smali_instruction \<Rightarrow> bool" where
  "entry_ok i =
     (case i of
        Instruction s \<Rightarrow> trimmed s \<and> no_newline s \<and> hd s \<noteq> CHR '':'' \<and> s \<noteq> ''.end method'' \<and>
                         take 12 s \<noteq> ''.annotation ''
      | Label l \<Rightarrow> l \<noteq> [] \<and> trimmed (CHR '':'' # l) \<and> no_newline l
      | Directive d \<Rightarrow> False)"

definition annotation_ok :: "string \<Rightarrow> bool" where
  "annotation_ok a = (trimmed (''.annotation '' @ a) \<and> no_newline a)"

definition method_ok :: "smali_method \<Rightarrow> bool" where
  "method_ok m =
     (word_ok (name m) \<and> CHR ''('' \<notin> set (name m) \<and> list_all type_ok (args (signature m)) \<and>
      type_ok (return_type (signature m)) \<and> list_all annotation_ok (annotations m) \<and>
      list_all entry_ok (instructions m))"

definition class_ok :: "smali_class \<Rightarrow> bool" where
  "class_ok c =
     (class_name c \<noteq> [] \<and> word_ok (class_name c) \<and>
      (case super_class c of None \<Rightarrow> True | Some s \<Rightarrow> no_newline s) \<and> list_all method_ok (methods c))"

declare digits_of.simps [simp del]

subsection \<open>Numbers and blanks\<close>

lemma digits_of_digits:
  "digits_of n \<noteq> [] \<and> list_all is_digit (digits_of n) \<and> nat_of_digits (digits_of n) = n"
proof (induction n rule: digits_of.induct)
  case (1 n)
  show ?case
  proof (cases "n < 10")
    case True
    then have "digits_of n = [char_of (48 + n)]" by (subst digits_of.simps) simp
    with True show ?thesis by (simp add: nat_of_digits_def is_digit_def)
  next
    case False
    then have "digits_of n = digits_of (n div 10) @ [char_of (48 + n mod 10)]"
      by (subst digits_of.simps) simp
    with 1 False show ?thesis by (simp add: nat_of_digits_def is_digit_def)
  qed
qed

lemma digit_not_blank: "is_digit c \<Longrightarrow> \<not> is_blank_char c \<and> \<not> is_space c \<and> \<not> is_newline c"
  by (auto simp: is_digit_def is_blank_char_def is_space_def is_newline_def)

lemma trim_indent:
  assumes "list_all is_blank_char b" and "trimmed s"
  shows "trim (b @ s) = s"
proof -
  from assms(2) obtain x xs where s: "s = x # xs" and x: "\<not> is_blank_char x"
    by (cases s) (auto simp: trimmed_def)
  from assms(2) have "rev s = last s # rev (butlast s)" and "\<not> is_blank_char (last s)"
    by (simp_all add: trimmed_def)
  then show ?thesis
    using assms(1) s x by (simp add: trim_def dropWhile_append2 list_all_iff)
qed

lemma trimmed_trim: "trim s \<noteq> [] \<Longrightarrow> trimmed (trim s)"
proof -
  assume ne: "trim s \<noteq> []"
  let ?d = "dropWhile is_blank_char s"
  have hd: "\<not> is_blank_char (hd (dropWhile is_blank_char xs))" if "dropWhile is_blank_char xs \<noteq> []" for xs
    using that by (induction xs) auto
  have "\<not> is_blank_char (last (trim s))"
    using hd [of "rev ?d"] ne by (simp add: trim_def last_rev)
  moreover have "hd (trim s) = hd ?d"
  proof -
    have last: "dropWhile P xs \<noteq> [] \<Longrightarrow> last (dropWhile P xs) = last xs" for P and xs :: string
      by (induction xs) auto
    have "?d \<noteq> []" using ne by (cases ?d) (simp_all add: trim_def)
    with ne last [of is_blank_char "rev ?d"] show ?thesis by (simp add: trim_def hd_rev last_rev)
  qed
  moreover have "?d \<noteq> []" using ne by (cases ?d) (simp_all add: trim_def)
  ultimately show ?thesis using ne hd [of s] by (simp add: trimmed_def)
qed

lemma set_trim: "set (trim s) \<subseteq> set s"
  unfolding trim_def by (metis set_dropWhileD set_rev subsetI)

subsection \<open>Printing, then parsing\<close>

lemma parse_type_print:
  "type_ok t \<Longrightarrow> parse_type (print_type t @ r) = Some (t, r)"
proof (induction t)
  case (Object s)
  then have "takeWhile (\<lambda>x. x \<noteq> CHR '';'') (s @ CHR '';'' # r) = s"
    by (subst takeWhile_append2) auto
  then show ?case by simp
qed simp_all

lemma print_type_Cons: "\<exists>c cs. print_type t @ r = c # cs \<and> c \<noteq> CHR '')''"
  by (cases t) simp_all

lemma parse_types_print:
  "list_all type_ok ts \<Longrightarrow> parse_types (concat (map print_type ts) @ CHR '')'' # r) = Some (ts, r)"
proof (induction ts)
  case (Cons t ts)
  obtain c cs where t: "print_type t @ concat (map print_type ts) @ CHR '')'' # r = c # cs"
    and c: "c \<noteq> CHR '')''" using print_type_Cons by blast
  have "type_ok t" using Cons.prems by simp
  from parse_type_print [OF this, of "concat (map print_type ts) @ CHR '')'' # r"] t
  have "parse_type (c # cs) = Some (t, concat (map print_type ts) @ CHR '')'' # r)" by simp
  with Cons t c show ?case by simp
qed simp

lemma parse_signature_print:
  assumes "CHR ''('' \<notin> set n" and "list_all type_ok (args sg)" and "type_ok (return_type sg)"
  shows "parse_signature (print_signature n sg) = Some (n, sg)"
proof -
  have "takeWhile (\<lambda>x. x \<noteq> CHR ''('') (print_signature n sg) = n"
    using assms(1) unfolding print_signature_def by (subst takeWhile_append2) auto
  then show ?thesis
    using parse_types_print [OF assms(2)] parse_type_print [OF assms(3), of "[]"]
    by (simp add: parse_signature_def Let_def print_signature_def)
qed

lemma print_modifier_word: "print_modifier m \<noteq> [] \<and> word_ok (print_modifier m) \<and> print_modifier m \<noteq> ''constructor''"
  by (cases m) (simp_all add: word_ok_def is_space_def is_newline_def)

lemma find_print_modifier: "find (\<lambda>m'. print_modifier m' = print_modifier m) all_modifiers = Some m"
  by (cases m) (simp_all add: all_modifiers_def)

lemma parse_mods_print:
  "parse_mods (map print_modifier ms @ (if k then [''constructor''] else [])) = Some (ms, k)"
  by (induction ms) (simp_all add: find_print_modifier print_modifier_word)

lemma split_words_line:
  assumes "\<forall>v\<in>set ws. v \<noteq> [] \<and> word_ok v" and "w \<noteq> []" and "word_ok w"
  shows "split_by is_space [] (words_line ws w) = ws @ [w]"
proof -
  have sp: "is_space (CHR '' '')" by (simp add: is_space_def)
  have "\<forall>v\<in>set ws. v \<noteq> [] \<and> (\<forall>x\<in>set v. \<not> is_space x)" using assms(1) by (simp add: word_ok_def)
  then have j: "split_by is_space [] (concat (map (\<lambda>v. v @ [CHR '' '']) ws) @ w) =
      ws @ split_by is_space [] w" by (rule split_by_joined [of is_space, OF sp])
  have "\<forall>x\<in>set w. \<not> is_space x" using assms(3) by (simp add: word_ok_def)
  then have w: "split_by is_space [] w = [w]" using assms(2) by (simp add: split_by_no_sep)
  show ?thesis unfolding words_line_def j w ..
qed

lemma header_words_print:
  assumes "kw \<noteq> []" and "word_ok kw" and "w \<noteq> []" and "word_ok w"
  shows "header_words kw (words_line (kw # map print_modifier ms @ (if k then [''constructor''] else [])) w) =
           Some (ms, k, w)"
proof -
  have "\<forall>v\<in>set (kw # map print_modifier ms @ (if k then [''constructor''] else [])). v \<noteq> [] \<and> word_ok v"
  proof -
    have "word_ok ''constructor''" by (simp add: word_ok_def is_space_def is_newline_def)
    then show ?thesis using assms(1,2) print_modifier_word by auto
  qed
  from split_words_line [OF this assms(3,4)] show ?thesis
    by (simp add: header_words_def parse_mods_print butlast_append)
qed

lemma blank_indent: "list_all is_blank_char ''    ''"
  by (simp add: is_blank_char_def)

lemma trim_print_entry:
  "entry_ok i \<Longrightarrow> trim (print_entry i) = (case i of Instruction s \<Rightarrow> s | Label l \<Rightarrow> CHR '':'' # l | Directive d \<Rightarrow> d)"
  using trim_indent [OF blank_indent]
  by (auto simp: entry_ok_def print_entry_def split: smali_instruction.splits)

lemma parse_line_print_entry: "entry_ok i \<Longrightarrow> parse_line (print_entry i) = Some [i]"
  using trim_print_entry [of i]
  by (cases i) (auto simp: parse_line_def entry_ok_def trimmed_def neq_Nil_conv)

lemma print_entry_not_end:
  "entry_ok i \<Longrightarrow> trim (print_entry i) \<noteq> ''.end method'' \<and> take 12 (trim (print_entry i)) \<noteq> ''.annotation '' \<and>
                  trim (print_entry i) \<noteq> []"
  using trim_print_entry [of i] by (cases i) (auto simp: entry_ok_def trimmed_def)

lemma trim_end_method: "trim ''.end method'' = ''.end method''"
  by (simp add: trim_def is_blank_char_def)

lemma parse_body_print:
  "list_all entry_ok es \<Longrightarrow> parse_body (map print_entry es @ ''.end method'' # r) = Some (es, r)"
proof (induction es)
  case (Cons e es)
  then show ?case using print_entry_not_end [of e] parse_line_print_entry [of e] by simp
qed (simp add: trim_end_method)

lemma parse_annotations_body:
  "list_all entry_ok es \<Longrightarrow> parse_annotations (map print_entry es @ ''.end method'' # r) =
     ([], map print_entry es @ ''.end method'' # r)"
  using print_entry_not_end [of "hd es"] by (cases es) (simp_all add: trim_end_method)

lemma parse_annotations_print:
  "list_all annotation_ok as \<Longrightarrow> parse_annotations rest = ([], rest) \<Longrightarrow>
   parse_annotations (map (\<lambda>a. ''    .annotation '' @ a) as @ rest) = (as, rest)"
proof (induction as)
  case (Cons a as)
  then have "trim (''    .annotation '' @ a) = ''.annotation '' @ a"
    using trim_indent [OF blank_indent, of "''.annotation '' @ a"] by (simp add: annotation_ok_def)
  with Cons show ?case by simp
qed simp

lemma parse_locals_print: "parse_locals (''    .locals '' @ digits_of n) = Some n"
proof -
  have "digits_of n \<noteq> []" and "list_all is_digit (digits_of n)" and "nat_of_digits (digits_of n) = n"
    using digits_of_digits by simp_all
  moreover from this have "\<not> is_blank_char (last (digits_of n))"
    using digit_not_blank by (simp add: list_all_iff)
  ultimately have "trim (''    .locals '' @ digits_of n) = ''.locals '' @ digits_of n"
    using trim_indent [OF blank_indent, of "''.locals '' @ digits_of n"]
    by (simp add: trimmed_def del: is_blank_char_def) (simp add: is_blank_char_def)
  with \<open>digits_of n \<noteq> []\<close> \<open>list_all is_digit (digits_of n)\<close> \<open>nat_of_digits (digits_of n) = n\<close>
  show ?thesis by (simp add: parse_locals_def)
qed

lemma word_ok_simps [simp]:
  "word_ok []"
  "word_ok (x # xs) \<longleftrightarrow> \<not> is_space x \<and> \<not> is_newline x \<and> word_ok xs"
  "word_ok (xs @ ys) \<longleftrightarrow> word_ok xs \<and> word_ok ys"
  "word_ok (concat xss) \<longleftrightarrow> (\<forall>xs\<in>set xss. word_ok xs)"
  by (auto simp: word_ok_def)

lemma no_newline_simps [simp]:
  "no_newline []"
  "no_newline (x # xs) \<longleftrightarrow> \<not> is_newline x \<and> no_newline xs"
  "no_newline (xs @ ys) \<longleftrightarrow> no_newline xs \<and> no_newline ys"
  "no_newline (concat xss) \<longleftrightarrow> (\<forall>xs\<in>set xss. no_newline xs)"
  by (auto simp: no_newline_def)

lemma char_classes [simp]:
  "\<not> is_space CHR ''(''" "\<not> is_space CHR '')''" "\<not> is_space CHR '';''" "\<not> is_space CHR ''L''"
  "\<not> is_space CHR ''[''" "\<not> is_space CHR ''.''" "\<not> is_space CHR '':''"
  "\<not> is_newline CHR ''(''" "\<not> is_newline CHR '')''" "\<not> is_newline CHR '';''" "\<not> is_newline CHR ''L''"
  "\<not> is_newline CHR ''[''" "\<not> is_newline CHR '' ''" "\<not> is_newline CHR ''.''" "\<not> is_newline CHR '':''"
  "is_space CHR '' ''"
  by (simp_all add: is_space_def is_newline_def)

lemma word_ok_print_type: "type_ok t \<Longrightarrow> word_ok (print_type t)"
  by (induction t) (simp_all add: is_space_def is_newline_def)

lemma parse_method_print:
  assumes "method_ok m"
  shows "parse_method (method_lines m @ rest) = Some (m, rest)"
proof -
  let ?w = "print_signature (name m) (signature m)"
  have "?w \<noteq> []" by (simp add: print_signature_def)
  moreover have "word_ok ?w"
    using assms word_ok_print_type by (simp add: method_ok_def print_signature_def list_all_iff)
  ultimately have h: "header_words ''.method'' (words_line (''.method'' # map print_modifier (modifiers m) @
       (if constructor m then [''constructor''] else [])) ?w) = Some (modifiers m, constructor m, ?w)"
    by (intro header_words_print) (simp_all add: is_space_def is_newline_def)
  have sg: "parse_signature ?w = Some (name m, signature m)"
    using assms by (intro parse_signature_print) (simp_all add: method_ok_def)
  have es: "list_all entry_ok (instructions m)" and as: "list_all annotation_ok (annotations m)"
    using assms by (simp_all add: method_ok_def)
  have ann: "parse_annotations (map (\<lambda>a. ''    .annotation '' @ a) (annotations m) @
      map print_entry (instructions m) @ ''.end method'' # rest) =
      (annotations m, map print_entry (instructions m) @ ''.end method'' # rest)"
    using parse_annotations_print [OF as parse_annotations_body [OF es]] by simp
  show ?thesis
    using h sg ann parse_locals_print [of "locals m"] parse_body_print [OF es, of rest]
    by (simp add: method_lines_def)
qed

lemma parse_methods_step:
  "parse_method ls = Some (m, r) \<Longrightarrow> parse_methods ls = map_option (Cons m) (parse_methods r)"
  by (cases ls) simp_all

lemma parse_methods_print:
  "list_all method_ok ms \<Longrightarrow> parse_methods (concat (map method_lines ms)) = Some ms"
proof (induction ms)
  case (Cons m ms)
  then show ?case using parse_methods_step [OF parse_method_print [of m]] by simp
qed simp

lemma method_lines_Cons: "\<exists>ws w t. method_lines m = words_line (''.method'' # ws) w # t"
  unfolding method_lines_def by (intro exI) simp

lemma super_line_print:
  "super_line ((case sc of None \<Rightarrow> [] | Some s \<Rightarrow> [''.super '' @ s]) @ concat (map method_lines ms)) =
     (sc, concat (map method_lines ms))"
proof (cases sc)
  case None
  show ?thesis
  proof (cases ms)
    case (Cons m ms')
    obtain ws w t where "method_lines m = words_line (''.method'' # ws) w # t"
      using method_lines_Cons by blast
    with None Cons show ?thesis by (simp add: super_line_def words_line_def)
  qed (simp add: None super_line_def)
qed (simp add: super_line_def)

lemma no_newline_words_line:
  "\<forall>v\<in>set ws. no_newline v \<Longrightarrow> no_newline w \<Longrightarrow> no_newline (words_line ws w)"
  by (simp add: words_line_def)

lemma word_no_newline: "word_ok s \<Longrightarrow> no_newline s"
  by (simp add: word_ok_def no_newline_def)

lemma no_newline_print_entry: "entry_ok e \<Longrightarrow> no_newline (print_entry e)"
  by (auto simp: entry_ok_def print_entry_def is_newline_def split: smali_instruction.splits)

lemma no_newline_digits: "no_newline (digits_of n)"
  using digits_of_digits [of n] digit_not_blank by (auto simp: no_newline_def list_all_iff)

lemma no_newline_modifier: "no_newline (print_modifier m)"
  using print_modifier_word word_no_newline by blast

lemma method_lines_ok:
  assumes "method_ok m"
  shows "\<forall>l\<in>set (method_lines m). l \<noteq> [] \<and> no_newline l"
proof -
  have "no_newline (print_signature (name m) (signature m))"
    using assms word_ok_print_type word_no_newline
    by (simp add: method_ok_def print_signature_def list_all_iff)
  moreover have "no_newline ''constructor''" by (simp add: is_newline_def)
  moreover have "\<forall>e\<in>set (instructions m). no_newline (print_entry e)"
    using assms no_newline_print_entry by (simp add: method_ok_def list_all_iff)
  moreover have "\<forall>a\<in>set (annotations m). no_newline a"
    using assms by (auto simp: method_ok_def list_all_iff annotation_ok_def)
  ultimately show ?thesis
    by (auto simp: method_lines_def words_line_def print_entry_def no_newline_modifier no_newline_digits
        is_newline_def split: smali_instruction.splits)
qed

lemma class_lines_ok:
  assumes "class_ok c"
  shows "\<forall>l\<in>set (class_lines c). l \<noteq> [] \<and> (\<forall>x\<in>set l. \<not> is_newline x)"
proof -
  have "no_newline (words_line (''.class'' # map print_modifier (class_modifiers c)) (class_name c))"
    using assms by (simp add: words_line_def class_ok_def no_newline_modifier word_no_newline is_newline_def)
  moreover have "\<forall>s. super_class c = Some s \<longrightarrow> no_newline (''.super '' @ s)"
    using assms by (auto simp: class_ok_def is_newline_def)
  moreover have "\<forall>m\<in>set (methods c). \<forall>l\<in>set (method_lines m). l \<noteq> [] \<and> no_newline l"
    using assms method_lines_ok by (auto simp: class_ok_def list_all_iff)
  ultimately have "\<forall>l\<in>set (class_lines c). l \<noteq> [] \<and> no_newline l"
    by (auto simp: class_lines_def words_line_def split: option.splits)
  then show ?thesis by (simp add: no_newline_def)
qed

lemma parse_class_lines_print: "class_ok c \<Longrightarrow> parse_class_lines (class_lines c) = Some c"
proof -
  assume ok: "class_ok c"
  then have "header_words ''.class'' (words_line (''.class'' # map print_modifier (class_modifiers c) @
      (if False then [''constructor''] else [])) (class_name c)) = Some (class_modifiers c, False, class_name c)"
    by (intro header_words_print) (simp_all add: class_ok_def is_space_def is_newline_def)
  with ok show ?thesis
    using super_line_print [of "super_class c" "methods c"] parse_methods_print [of "methods c"]
    by (cases c) (simp add: class_lines_def class_ok_def)
qed

subsection \<open>What the parser returns is printable\<close>

lemma word_ok_suffix: "word_ok s \<Longrightarrow> suffix r s \<Longrightarrow> word_ok r"
  by (auto simp: word_ok_def suffix_def)

lemma no_newline_subset: "no_newline s \<Longrightarrow> set r \<subseteq> set s \<Longrightarrow> no_newline r"
  by (auto simp: no_newline_def)

lemma parse_type_ok:
  "parse_type s = Some (t, r) \<Longrightarrow> word_ok s \<Longrightarrow> type_ok t \<and> suffix r s"
proof (induction s arbitrary: t r rule: parse_type.induct)
  case (2 c cs)
  show ?case
  proof (cases "c = CHR ''L''")
    case True
    let ?n = "takeWhile (\<lambda>x. x \<noteq> CHR '';'') cs"
    from True 2(2) have t: "t = Object ?n" and r: "r = drop (Suc (length ?n)) cs"
      by (auto simp: Let_def split: if_splits)
    have "word_ok ?n" using 2(3) by (auto simp: word_ok_def dest: set_takeWhileD)
    moreover have "CHR '';'' \<notin> set ?n"
    proof
      assume "CHR '';'' \<in> set ?n"
      from set_takeWhileD [OF this] show False by simp
    qed
    moreover have "suffix r (c # cs)" unfolding r by (intro suffix_ConsI suffix_drop)
    ultimately show ?thesis by (simp add: t)
  next
    case False
    have cs: "suffix cs (c # cs)" by (intro suffix_ConsI suffix_order.order_refl)
    show ?thesis
    proof (cases "c = CHR ''[''")
      case True
      with 2(2) obtain t' where p: "parse_type cs = Some (t', r)" and t: "t = Array t'"
        by (auto split: option.splits)
      have "word_ok cs" using 2(3) by simp
      with 2(1) [of t' r] p True have "type_ok t' \<and> suffix r cs" by simp
      with t cs show ?thesis by (auto intro: suffix_order.order_trans)
    next
      case c: False
      from 2(2) False c have "r = cs \<and> t \<in> {Bool, Byte, type_signature.Char, Short, type_signature.Int, Long,
          Float, Double, Void}"
        by (simp split: if_splits)
      with cs show ?thesis by auto
    qed
  qed
qed simp

lemma word_ok_subset: "word_ok s \<Longrightarrow> set r \<subseteq> set s \<Longrightarrow> word_ok r"
  by (auto simp: word_ok_def)

lemma parse_types_ok:
  "parse_types s = Some (ts, r) \<Longrightarrow> word_ok s \<Longrightarrow> list_all type_ok ts \<and> suffix r s"
proof (induction s arbitrary: ts r rule: parse_types.induct)
  case (2 c cs)
  show ?case
  proof (cases "c = CHR '')''")
    case False
    then obtain t r1 ts' where p: "parse_type (c # cs) = Some (t, r1)" and
      ts: "ts = t # ts'" and rest: "parse_types r1 = Some (ts', r)"
      using 2(2) by (auto split: option.split_asm)
    from parse_type_ok [OF p 2(3)] have t: "type_ok t" and s1: "suffix r1 (c # cs)" by simp_all
    then have "word_ok r1" using word_ok_suffix 2(3) by blast
    with 2(1) [OF False p refl rest] have "list_all type_ok ts' \<and> suffix r r1" .
    with t s1 ts show ?thesis by (auto intro: suffix_order.order_trans)
  next
    case True
    with 2(2) have "r = cs" and "ts = []" by simp_all
    then show ?thesis by (simp add: suffix_ConsI)
  qed
qed simp

lemma parse_signature_Some:
  "parse_signature w = Some (n, sg) \<Longrightarrow>
     \<exists>x r as r' t. drop (length n) w = x # r \<and> n = takeWhile (\<lambda>x. x \<noteq> CHR ''('') w \<and>
       parse_types r = Some (as, r') \<and> parse_type r' = Some (t, []) \<and> sg = \<lparr>args = as, return_type = t\<rparr>"
  by (auto simp: parse_signature_def Let_def split: list.split_asm option.split_asm prod.split_asm)

lemma parse_signature_ok:
  assumes "parse_signature w = Some (n, sg)" and "word_ok w"
  shows "word_ok n \<and> CHR ''('' \<notin> set n \<and> list_all type_ok (args sg) \<and> type_ok (return_type sg)"
proof -
  obtain x r as r' t where d: "drop (length n) w = x # r" and n: "n = takeWhile (\<lambda>x. x \<noteq> CHR ''('') w"
    and ts: "parse_types r = Some (as, r')" and t: "parse_type r' = Some (t, [])"
    and sg: "sg = \<lparr>args = as, return_type = t\<rparr>"
    using parse_signature_Some [OF assms(1)] by blast
  have "suffix (drop (length n) w) w" by (rule suffix_drop)
  with d have "suffix r w" by (simp add: suffix_ConsD)
  then have "word_ok r" using assms(2) word_ok_suffix by blast
  from parse_types_ok [OF ts this] have as: "list_all type_ok as" and "suffix r' r" by simp_all
  then have "word_ok r'" using \<open>word_ok r\<close> word_ok_suffix by blast
  from parse_type_ok [OF t this] have "type_ok t" by simp
  moreover have "set n \<subseteq> set w" using n by (auto dest: set_takeWhileD)
  moreover have "CHR ''('' \<notin> set n"
  proof
    assume "CHR ''('' \<in> set n"
    from set_takeWhileD [OF this [unfolded n]] show False by simp
  qed
  ultimately show ?thesis using as sg assms(2) word_ok_subset by auto
qed

lemma header_words_ok:
  assumes "header_words kw h = Some (ms, k, w)" and "no_newline h"
  shows "w \<noteq> [] \<and> word_ok w"
proof -
  obtain k' ws where sp: "split_by is_space [] h = k' # ws" and ws: "ws \<noteq> []" and w: "w = last ws"
    using assms(1) by (auto simp: header_words_def split: list.splits if_splits)
  then have "w \<in> set (split_by is_space [] h)" by simp
  then have "w \<noteq> [] \<and> (\<forall>x\<in>set w. \<not> is_space x \<and> x \<in> set h)"
    using split_by_pieces [of "[]" is_space w h] split_by_set [of w is_space "[]" h] by auto
  with assms(2) show ?thesis by (auto simp: word_ok_def no_newline_def)
qed

lemma annotation_line_ok:
  assumes "take 12 (trim l) = ''.annotation ''" and "no_newline l"
  shows "annotation_ok (drop 12 (trim l))"
proof -
  have "trim l = ''.annotation '' @ drop 12 (trim l)" using assms(1) by (metis append_take_drop_id)
  moreover have "trim l \<noteq> []" using assms(1) by auto
  then have "trimmed (trim l)" by (rule trimmed_trim)
  moreover have "no_newline (drop 12 (trim l))"
    using assms(2) set_trim [of l] set_drop_subset [of 12 "trim l"] no_newline_subset by blast
  ultimately show ?thesis by (metis annotation_ok_def)
qed

lemma parse_annotations_ok:
  "parse_annotations ls = (as, r) \<Longrightarrow> \<forall>l\<in>set ls. no_newline l \<Longrightarrow>
     list_all annotation_ok as \<and> suffix r ls"
proof (induction ls arbitrary: as r rule: parse_annotations.induct)
  case (2 l ls)
  consider "trim l = []" | "trim l \<noteq> []" "take 12 (trim l) = ''.annotation ''"
    | "trim l \<noteq> []" "take 12 (trim l) \<noteq> ''.annotation ''" by blast
  then show ?case
  proof cases
    case 1
    with 2 show ?thesis by (auto intro: suffix_ConsI)
  next
    case 2
    with "2.prems"(1) obtain as' where p: "parse_annotations ls = (as', r)"
      and as: "as = drop 12 (trim l) # as'" by (cases "parse_annotations ls") auto
    from "2.IH"(2) [OF 2 p] "2.prems"(2) have "list_all annotation_ok as' \<and> suffix r ls" by simp
    with as annotation_line_ok [OF 2(2)] "2.prems"(2) show ?thesis by (auto intro: suffix_ConsI)
  next
    case 3
    with "2.prems"(1) show ?thesis by simp
  qed
qed simp

lemma parse_line_ok:
  assumes "parse_line l = Some es" and "no_newline l" and "trim l \<noteq> ''.end method''"
    and "take 12 (trim l) \<noteq> ''.annotation ''"
  shows "list_all entry_ok es"
proof (cases "trim l")
  case (Cons c cs)
  then have tr: "trimmed (c # cs)" and nl: "no_newline (c # cs)"
    using trimmed_trim [of l] set_trim [of l] assms(2) no_newline_subset by (auto simp del: no_newline_simps)
  show ?thesis
  proof (cases "c = CHR '':''")
    case True
    with assms(1) Cons have "es = [Label cs]" and "cs \<noteq> []" by (auto simp: parse_line_def split: if_splits)
    with tr nl True show ?thesis by (simp add: entry_ok_def)
  next
    case False
    with assms(1) Cons have "es = [Instruction (c # cs)]" by (simp add: parse_line_def)
    with tr nl False Cons assms(3,4) show ?thesis by (simp add: entry_ok_def)
  qed
qed (use assms(1) in \<open>simp add: parse_line_def\<close>)

lemma parse_body_ok:
  "parse_body ls = Some (es, r) \<Longrightarrow> \<forall>l\<in>set ls. no_newline l \<Longrightarrow> list_all entry_ok es \<and> suffix r ls"
proof (induction ls arbitrary: es r rule: parse_body.induct)
  case (2 l ls)
  show ?case
  proof (cases "trim l = ''.end method''")
    case True
    with "2.prems" show ?thesis by (auto intro: suffix_ConsI)
  next
    case notend: False
    show ?thesis
    proof (cases "take 12 (trim l) = ''.annotation ''")
      case False
      with notend "2.prems"(1) obtain es1 es2 where l: "parse_line l = Some es1"
        and b: "parse_body ls = Some (es2, r)" and es: "es = es1 @ es2"
        by (auto split: option.split_asm)
      from "2.IH" [OF notend False l b] "2.prems"(2) have "list_all entry_ok es2 \<and> suffix r ls" by simp
      moreover have "list_all entry_ok es1" using parse_line_ok [OF l _ notend False] "2.prems"(2) by simp
      ultimately show ?thesis using es by (auto intro: suffix_ConsI)
    qed (use "2.prems" notend in simp)
  qed
qed simp

lemma parse_method_Some:
  "parse_method ls = Some (m, r) \<Longrightarrow>
     \<exists>h l ls' ms k w sg nl. ls = h # l # ls' \<and> header_words ''.method'' h = Some (ms, k, w) \<and>
       parse_signature w = Some (name m, sg) \<and> parse_locals l = Some nl \<and>
       annotations m = fst (parse_annotations ls') \<and>
       parse_body (snd (parse_annotations ls')) = Some (instructions m, r) \<and> signature m = sg"
  by (cases ls rule: parse_method.cases) (auto split: option.split_asm prod.split_asm)

lemma parse_method_ok:
  assumes "parse_method ls = Some (m, r)" and "\<forall>l\<in>set ls. no_newline l"
  shows "method_ok m \<and> suffix r ls"
proof -
  obtain h l ls' ms k w sg nl where ls: "ls = h # l # ls'" and hw: "header_words ''.method'' h = Some (ms, k, w)"
    and sig: "parse_signature w = Some (name m, sg)" and an: "annotations m = fst (parse_annotations ls')"
    and b: "parse_body (snd (parse_annotations ls')) = Some (instructions m, r)" and sg: "signature m = sg"
    using parse_method_Some [OF assms(1)] by blast
  from header_words_ok [OF hw] assms(2) ls have "word_ok w" by simp
  from parse_signature_ok [OF sig this] sg
  have s: "word_ok (name m) \<and> CHR ''('' \<notin> set (name m) \<and> list_all type_ok (args (signature m)) \<and>
      type_ok (return_type (signature m))" by simp
  obtain as rest where pa: "parse_annotations ls' = (as, rest)" by (cases "parse_annotations ls'")
  from parse_annotations_ok [OF pa] assms(2) ls have "list_all annotation_ok as" and "suffix rest ls'" by simp_all
  moreover from this(2) have "\<forall>l\<in>set rest. no_newline l" using assms(2) ls set_mono_suffix by fastforce
  with parse_body_ok b pa have "list_all entry_ok (instructions m) \<and> suffix r rest" by simp
  ultimately show ?thesis
    using s an pa ls by (auto simp: method_ok_def intro: suffix_order.order_trans suffix_ConsI)
qed

lemma parse_methods_ok:
  "parse_methods ls = Some ms \<Longrightarrow> \<forall>l\<in>set ls. no_newline l \<Longrightarrow> list_all method_ok ms"
proof (induction ls arbitrary: ms rule: parse_methods.induct)
  case (2 l ls)
  then obtain m r ms' where p: "parse_method (l # ls) = Some (m, r)" and ms: "ms = m # ms'"
    and rest: "parse_methods r = Some ms'"
    by (auto split: option.split_asm)
  from parse_method_ok [OF p "2.prems"(2)] have "method_ok m" and "suffix r (l # ls)" by simp_all
  moreover from this(2) have "\<forall>l\<in>set r. no_newline l" using "2.prems"(2) set_mono_suffix by blast
  ultimately show ?case using "2.IH" [OF p refl rest] ms by simp
qed simp

lemma parse_class_lines_ok:
  assumes "parse_class_lines ls = Some c" and "\<forall>l\<in>set ls. no_newline l"
  shows "class_ok c"
proof (cases ls)
  case (Cons h ls')
  with assms(1) obtain ms n meths where hw: "header_words ''.class'' h = Some (ms, False, n)"
    and meths: "parse_methods (snd (super_line ls')) = Some meths"
    and c: "c = \<lparr>class_name = n, class_modifiers = ms, super_class = fst (super_line ls'), methods = meths\<rparr>"
    by (auto split: option.split_asm prod.split_asm bool.split_asm)
  have sl: "(\<forall>s. fst (super_line ls') = Some s \<longrightarrow> no_newline s) \<and> (\<forall>l\<in>set (snd (super_line ls')). no_newline l)"
    using assms(2) Cons by (auto simp: super_line_def split: list.splits if_splits
        intro: no_newline_subset [OF _ set_drop_subset])
  from header_words_ok [OF hw] assms(2) Cons have "n \<noteq> [] \<and> word_ok n" by simp
  with parse_methods_ok [OF meths] sl c show ?thesis by (auto simp: class_ok_def split: option.splits)
qed (use assms(1) in simp)

subsection \<open>The roundtrip\<close>

lemma lines_print_smali: "class_ok c \<Longrightarrow> split_by is_newline [] (print_smali c) = class_lines c"
  using split_by_joined [of is_newline "CHR 0x0A" "class_lines c" "[]"] class_lines_ok [of c]
  by (simp add: print_smali_def is_newline_def)

lemma print_smali_reads_back: "class_ok c \<Longrightarrow> parse_smali (print_smali c) = Some c"
  by (simp add: parse_smali_def lines_print_smali parse_class_lines_print)

lemma parse_smali_class_ok: "parse_smali t = Some c \<Longrightarrow> class_ok c"
proof -
  assume p: "parse_smali t = Some c"
  have "\<forall>l\<in>set (split_by is_newline [] t). no_newline l"
    using split_by_pieces [of "[]" is_newline] by (simp add: no_newline_def)
  with p show ?thesis by (simp add: parse_smali_def parse_class_lines_ok)
qed

end
