(* ===== verification/Reread.thy ===== *)
theory Reread
  imports Orchestrator Smali_Text
begin

text \<open>
  \<open>main\<close> with the smali boundary of \<open>Smali_Text\<close> and the fragment parser of
  \<open>Fragment\<close> (\<open>text_io\<close>): the payloads parse into printable entries, both patches
  keep a printable class printable, and so the class files a successful run writes read back
  as the patched classes. A second run of the program on the project it left behind
  therefore reads the patched classes and patches them again, as section 8 of the
  specification anticipates.
\<close>

definition text_io :: smali_io where
  "text_io = \<lparr>parse_class = parse_smali, print_class = print_smali, parse_frag = parse_fragment\<rparr>"

definition payload_line_ok :: "string \<Rightarrow> bool" where
  "payload_line_ok l = (no_newline l \<and> trim l \<noteq> ''.end method'' \<and> take 12 (trim l) \<noteq> ''.annotation '')"

subsection \<open>Printable payloads\<close>

lemma parse_fragment_ok:
  "parse_fragment t = Some es \<Longrightarrow> list_all payload_line_ok t \<Longrightarrow> list_all entry_ok es"
proof (induction t arbitrary: es)
  case (Cons l ls)
  then obtain es1 es2 where l: "parse_line l = Some es1" and ls: "parse_fragment ls = Some es2"
    and es: "es = es1 @ es2" by (auto split: option.split_asm)
  from Cons.prems(2) have "payload_line_ok l" and "list_all payload_line_ok ls" by simp_all
  from Cons.IH [OF ls this(2)] have "list_all entry_ok es2" .
  with parse_line_ok [OF l] \<open>payload_line_ok l\<close> es show ?case by (simp add: payload_line_ok_def)
qed simp

lemma payloads_line_ok:
  "list_all payload_line_ok ADD_MOD_BUTTON" "list_all payload_line_ok ON_MOD_PRESSED"
  "list_all payload_line_ok START_MOD" "list_all payload_line_ok RETURN_TRUE"
  by (simp_all add: payload_line_ok_def ADD_MOD_BUTTON_def ON_MOD_PRESSED_def START_MOD_def
      RETURN_TRUE_def trim_def is_blank_char_def is_newline_def)

lemma start_mod_ok: "list_all entry_ok b \<Longrightarrow> method_ok (start_mod b)"
  by (simp add: start_mod_def method_ok_def is_space_def is_newline_def)

lemma method_ok_instructions:
  "method_ok m \<Longrightarrow> list_all entry_ok b \<Longrightarrow> method_ok (m\<lparr>instructions := b\<rparr>)"
  by (simp add: method_ok_def)

lemma list_all_take_drop:
  "list_all P xs \<Longrightarrow> list_all P (take n xs) \<and> list_all P (drop n xs) \<and> list_all P (butlast xs)"
  by (auto simp: list_all_iff dest: in_set_takeD in_set_dropD in_set_butlastD)

subsection \<open>The patches keep a class printable\<close>

lemma class_ok_methods:
  "class_ok (c\<lparr>methods := ms\<rparr>) \<longleftrightarrow> class_ok c \<and> list_all method_ok ms \<or> \<not> class_ok c \<and> class_ok (c\<lparr>methods := ms\<rparr>)"
  by (auto simp: class_ok_def)

lemma patch_main_activity_class_ok:
  assumes "patch_main_activity parse_fragment c = Inr c'" and "class_ok c"
  shows "class_ok c'"
proof -
  obtain i j r q f1 f2 f3 where f1: "parse_fragment ADD_MOD_BUTTON = Some f1"
    and f2: "parse_fragment ON_MOD_PRESSED = Some f2" and f3: "parse_fragment START_MOD = Some f3"
    and len: "i < length (methods c)" "j < length (methods c)"
    and c': "c' = c\<lparr>methods :=
        (methods c)[i := (methods c ! i)\<lparr>instructions := butlast (instructions (methods c ! i)) @ f1\<rparr>,
                    j := (methods c ! j)\<lparr>instructions :=
                           inserted q (Label ''pswitch_mod'') (spliced (Suc r) (Suc r) f2 (instructions (methods c ! j)))\<rparr>]
        @ [start_mod f3]\<rparr>"
    using assms(1) by (elim patch_main_activity_InrE) blast
  have ms: "list_all method_ok (methods c)" using assms(2) by (simp add: class_ok_def)
  then have mi: "method_ok (methods c ! i)" and mj: "method_ok (methods c ! j)"
    using len by (simp_all add: list_all_length)
  have e1: "list_all entry_ok f1" and e2: "list_all entry_ok f2" and e3: "list_all entry_ok f3"
    using parse_fragment_ok [OF f1] parse_fragment_ok [OF f2] parse_fragment_ok [OF f3] payloads_line_ok
    by simp_all
  have bi: "list_all entry_ok (instructions (methods c ! i))" and bj: "list_all entry_ok (instructions (methods c ! j))"
    using mi mj by (simp_all add: method_ok_def)
  have "method_ok ((methods c ! i)\<lparr>instructions := butlast (instructions (methods c ! i)) @ f1\<rparr>)"
    using mi e1 list_all_take_drop [OF bi] by (simp add: method_ok_instructions)
  moreover have "entry_ok (Label ''pswitch_mod'')" by (simp add: entry_ok_def trimmed_def is_blank_char_def is_newline_def)
  then have "method_ok ((methods c ! j)\<lparr>instructions :=
      inserted q (Label ''pswitch_mod'') (spliced (Suc r) (Suc r) f2 (instructions (methods c ! j)))\<rparr>)"
    using mj e2 list_all_take_drop [OF bj] list_all_take_drop [of entry_ok "spliced (Suc r) (Suc r) f2 (instructions (methods c ! j))"]
    by (simp add: method_ok_instructions)
  ultimately have "list_all method_ok ((methods c)[i := (methods c ! i)\<lparr>instructions := butlast (instructions (methods c ! i)) @ f1\<rparr>,
                    j := (methods c ! j)\<lparr>instructions :=
                           inserted q (Label ''pswitch_mod'') (spliced (Suc r) (Suc r) f2 (instructions (methods c ! j)))\<rparr>])"
    using ms by (intro list_all_list_update) simp_all
  with start_mod_ok [OF e3] assms(2) show ?thesis by (simp add: c' class_ok_def)
qed

lemma patch_billing_class_ok:
  assumes "patch_billing parse_fragment c = Inr c'" and "class_ok c"
  shows "class_ok c'"
proof -
  obtain i f where i: "find_method ''alreadyPurchased'' (methods c) = Some i"
    and f: "parse_fragment RETURN_TRUE = Some f" and c': "c' = set_instructions i f c"
    using assms(1) by (auto simp: patch_billing_eq split: option.split_asm)
  have "i < length (methods c)" using find_method_Some [OF i] by simp
  moreover have "list_all entry_ok f" using parse_fragment_ok [OF f] payloads_line_ok by simp
  ultimately show ?thesis
    using assms(2) by (auto simp: c' class_ok_def set_instructions_def update_method_def method_ok_instructions
        list_all_length nth_list_update)
qed

subsection \<open>A second run\<close>

lemma set_take_drop_split: "set xs = set (take n xs) \<union> set (drop n xs)"
  by (metis append_take_drop_id set_append)

lemma set_spliced: "set xs \<subseteq> set (take n xs @ ys @ drop n xs)"
  using set_take_drop_split [of xs n] by auto

lemma set_inserted: "set xs \<subseteq> set (take n xs @ y # drop n xs)"
  using set_take_drop_split [of xs n] by auto

lemma patch_main_activity_again:
  assumes "patch_main_activity parse c = Inr c'"
  shows "\<exists>c''. patch_main_activity parse c' = Inr c''"
proof -
  obtain i j r q f1 f2 f3 where fi: "find_method ''onCreateOptionsMenu'' (methods c) = Some i"
    and f1: "parse ADD_MOD_BUTTON = Some f1"
    and fj: "find_method ''onOptionsItemSelected'' (methods c) = Some j"
    and r: "position is_return (instructions (methods c ! j)) = Some r"
    and f2: "parse ON_MOD_PRESSED = Some f2"
    and q: "position is_pswitch_end (spliced (Suc r) (Suc r) f2 (instructions (methods c ! j))) = Some q"
    and f3: "parse START_MOD = Some f3"
    and ij: "i \<noteq> j" and len: "i < length (methods c)" "j < length (methods c)"
    and c': "c' = c\<lparr>methods :=
        (methods c)[i := (methods c ! i)\<lparr>instructions := butlast (instructions (methods c ! i)) @ f1\<rparr>,
                    j := (methods c ! j)\<lparr>instructions :=
                           inserted q (Label ''pswitch_mod'') (spliced (Suc r) (Suc r) f2 (instructions (methods c ! j)))\<rparr>]
        @ [start_mod f3]\<rparr>"
    using assms by (elim patch_main_activity_InrE) blast
  let ?b = "instructions (methods c ! j)"
  let ?bj = "inserted q (Label ''pswitch_mod'') (spliced (Suc r) (Suc r) f2 ?b)"
  let ?ms = "(methods c)[i := (methods c ! i)\<lparr>instructions := butlast (instructions (methods c ! i)) @ f1\<rparr>,
                         j := (methods c ! j)\<lparr>instructions := ?bj\<rparr>]"
  have names: "find_method n ?ms = find_method n (methods c)" for n
    using len by (intro find_method_cong) (simp_all add: nth_list_update)
  have mc': "methods c' = ?ms @ [start_mod f3]" by (simp add: c')
  have fi': "find_method ''onCreateOptionsMenu'' (methods c') = Some i"
    and fj': "find_method ''onOptionsItemSelected'' (methods c') = Some j"
    unfolding mc' find_method_append names using fi fj by simp_all
  have bj: "instructions (methods c' ! j) = ?bj" using len ij by (simp add: c' nth_append)
  have sub: "set ?b \<subseteq> set ?bj"
    using set_spliced [of ?b "Suc r" f2] set_inserted [of "spliced (Suc r) (Suc r) f2 ?b" q] by blast
  have "?b ! r \<in> set ?b" and "is_return (?b ! r)"
    using position_less_length [OF r] position_nth [OF r] by simp_all
  with sub obtain r' where r': "position is_return ?bj = Some r'"
    by (cases "position is_return ?bj") (auto simp: position_None_iff)
  let ?s = "spliced (Suc r) (Suc r) f2 ?b"
  have "?s ! q \<in> set ?s" using position_less_length [OF q] by (rule nth_mem)
  then have "?s ! q \<in> set ?bj" using set_inserted [of ?s q "Label ''pswitch_mod''"] by blast
  moreover have "is_pswitch_end (?s ! q)" using position_nth [OF q] .
  ultimately have "\<exists>x\<in>set ?bj. is_pswitch_end x" by blast
  then have "position is_pswitch_end (spliced (Suc r') (Suc r') f2 ?bj) \<noteq> None"
    unfolding position_None_iff using set_spliced [of ?bj "Suc r'" f2] by blast
  then obtain q' where q': "position is_pswitch_end (spliced (Suc r') (Suc r') f2 ?bj) = Some q'"
    by (meson not_None_eq)
  show ?thesis
    by (simp only: patch_main_activity_eq patch_item_selected_eq fi' fj' bj r' q' f1 f2 f3 option.case
        sum.case) (rule exI, rule refl)
qed

lemma patch_billing_again:
  assumes "patch_billing parse c = Inr c'"
  shows "\<exists>c''. patch_billing parse c' = Inr c''"
proof -
  obtain i f where i: "find_method ''alreadyPurchased'' (methods c) = Some i"
    and f: "parse RETURN_TRUE = Some f" and c': "c' = set_instructions i f c"
    using assms by (auto simp: patch_billing_eq split: option.split_asm)
  from find_method_Some [OF i] have "i < length (methods c)" by simp
  with i f show ?thesis by (simp add: c' patch_billing_eq find_method_set_instructions)
qed

lemma patch_main_activity_length:
  "patch_main_activity parse c = Inr c' \<Longrightarrow> length (methods c') = Suc (length (methods c))"
  by (elim patch_main_activity_InrE) simp

lemma read_text_file:
  "files s p = Some (print_smali c) \<Longrightarrow> class_ok c \<Longrightarrow> read_from_file text_io p s = (Inr c, s)"
  by (simp add: read_from_file_def io_bind_def read_to_string_def io_lift_def text_io_def print_smali_reads_back)


subsection \<open>Properties\<close>

text \<open>
  C29. Running the program again on the project a successful run left behind does not fail:
  the second run reads the activity the first one wrote, which is the patched class, finds
  both menu methods and both anchors again, and succeeds. It patches the activity a second
  time, and the class it writes holds two more methods than the original, one
  \<open>startMod\<close> per run. Of the two outcomes section 8 of the specification allows for a
  re-run, a \<open>MissingAnchor\<close> failure or a silent duplicate, the program always takes the
  second.
\<close>

theorem main_rerun_duplicates:
  assumes "main text_io js html root s = (Inr u, s')"
  shows "\<exists>ca ca' ca'' s''.
     read_from_file text_io (activity_path root) s = (Inr ca, s) \<and>
     patch_main_activity parse_fragment ca = Inr ca' \<and>
     read_from_file text_io (activity_path root) s' = (Inr ca', s') \<and>
     patch_main_activity parse_fragment ca' = Inr ca'' \<and>
     main text_io js html root s' = (Inr (), s'') \<and>
     read_from_file text_io (activity_path root) s'' = (Inr ca'', s'') \<and>
     length (methods ca'') = length (methods ca) + 2"
proof -
  from assms obtain ta ca ca' tb cb cb' th where ta: "files s (activity_path root) = Some ta"
    and pa: "parse_smali ta = Some ca" and ca': "patch_main_activity parse_fragment ca = Inr ca'"
    and tb: "files s (billing_path root) = Some tb" and pb: "parse_smali tb = Some cb"
    and cb': "patch_billing parse_fragment cb = Inr cb'"
    and th: "files s (index_path root) = Some th"
    and d: "smali_choice_path root \<in> dirs s" "root @ [''assets''] \<in> dirs s" "root @ [''assets'', ''mygame''] \<in> dirs s"
    and s': "s' = s\<lparr>files := (files s)(activity_path root \<mapsto> print_smali ca', billing_path root \<mapsto> print_smali cb',
                  list_js_path root \<mapsto> js, index_path root \<mapsto> str_replace th ''</head>'' html)\<rparr>"
    by (auto simp: main_def io_bind_Inr_iff patch_class_Inr_iff write_file_Inr_iff read_to_string_Inr_iff
        text_io_def)
  have oka: "class_ok ca'" using patch_main_activity_class_ok [OF ca' parse_smali_class_ok [OF pa]] .
  have okb: "class_ok cb'" using patch_billing_class_ok [OF cb' parse_smali_class_ok [OF pb]] .
  obtain ca'' where ca'': "patch_main_activity parse_fragment ca' = Inr ca''"
    using patch_main_activity_again [OF ca'] by blast
  obtain cb'' where cb'': "patch_billing parse_fragment cb' = Inr cb''"
    using patch_billing_again [OF cb'] by blast
  have "\<exists>s''. main text_io js html root s' = (Inr (), s'') \<and> files s'' (activity_path root) = Some (print_smali ca'')"
    using ca'' cb'' d print_smali_reads_back [OF oka] print_smali_reads_back [OF okb]
    by (simp add: s' main_def io_bind_Inr_iff patch_class_Inr_iff write_file_Inr_iff read_to_string_Inr_iff
        text_io_def)
  then obtain s'' where run: "main text_io js html root s' = (Inr (), s'')"
    and f'': "files s'' (activity_path root) = Some (print_smali ca'')" by blast
  have "read_from_file text_io (activity_path root) s = (Inr ca, s)"
    using ta pa by (simp add: read_from_file_def io_bind_def read_to_string_def io_lift_def text_io_def)
  moreover have "read_from_file text_io (activity_path root) s' = (Inr ca', s')"
    using oka by (intro read_text_file) (simp add: s')
  moreover have "read_from_file text_io (activity_path root) s'' = (Inr ca'', s'')"
    using f'' patch_main_activity_class_ok [OF ca'' oka] by (rule read_text_file)
  moreover have "length (methods ca'') = length (methods ca) + 2"
    using patch_main_activity_length [OF ca'] patch_main_activity_length [OF ca''] by simp
  ultimately show ?thesis using ca' ca'' run by blast
qed



end
