(* ===== verification/Examples.thy ===== *)
theory Examples
  imports Orchestrator Wellformed Engine Registers Steps Reread
begin

text \<open>
  Concrete inputs on which the theorems of \<open>Vec\<close>, \<open>Locator\<close> and \<open>Patches\<close> are
  applied: a cut-down \<open>ChoiceScriptActivity\<close> with the three methods the patch touches
  (its \<open>onOptionsItemSelected\<close> has a packed-switch table after its first return, as
  compiled code has), a variant whose table is missing, and a \<open>Billing\<close> class with
  two overloads of \<open>alreadyPurchased\<close>. The patches run on them with the concrete
  fragment parser of \<open>Fragment\<close>; each witness below evaluates a theorem's hypotheses
  there by \<open>simp\<close>.
\<close>

subsection \<open>Fixtures\<close>

definition demo_method :: "string \<Rightarrow> smali_instruction list \<Rightarrow> smali_method" where
  "demo_method n body =
     \<lparr>name = n, modifiers = [Public], constructor = False,
      signature = \<lparr>args = [Object ''android/view/Menu''], return_type = Bool\<rparr>,
      locals = 2, annotations = [], instructions = body\<rparr>"

definition demo_menu_body :: "smali_instruction list" where
  "demo_menu_body =
     [Instruction ''invoke-super {p0, p1}, Landroidx/appcompat/app/AppCompatActivity;->onCreateOptionsMenu(Landroid/view/Menu;)Z'',
      Instruction ''const/4 v0, 0x1'',
      Instruction ''return v0'']"

definition demo_item_body :: "smali_instruction list" where
  "demo_item_body =
     [Instruction ''invoke-interface {p1}, Landroid/view/MenuItem;->getItemId()I'',
      Instruction ''move-result v0'',
      Instruction ''packed-switch v0, :pswitch_data_0'',
      Instruction ''invoke-super {p0, p1}, Landroidx/appcompat/app/AppCompatActivity;->onOptionsItemSelected(Landroid/view/MenuItem;)Z'',
      Instruction ''move-result v0'',
      Instruction ''return v0'',
      Label ''pswitch_0'',
      Instruction ''invoke-virtual {p0}, Lcom/choiceofgames/choicescript/ChoiceScriptActivity;->finish()V'',
      Instruction ''const/4 v0, 0x1'',
      Instruction ''return v0'',
      Label ''pswitch_data_0'',
      Instruction ''.packed-switch 0x102002c'',
      Label ''pswitch_0'',
      Instruction ''.end packed-switch'']"

definition demo_activity :: smali_class where
  "demo_activity =
     \<lparr>class_name = ''Lcom/choiceofgames/choicescript/ChoiceScriptActivity;'', class_modifiers = [Public],
      super_class = Some ''Landroidx/appcompat/app/AppCompatActivity;'',
      methods = [demo_method ''onCreate'' [Instruction ''return-void''],
                 demo_method ''onCreateOptionsMenu'' demo_menu_body,
                 demo_method ''onOptionsItemSelected'' demo_item_body]\<rparr>"

definition demo_broken :: smali_class where
  "demo_broken = demo_activity\<lparr>methods := [demo_method ''onCreateOptionsMenu'' demo_menu_body,
     demo_method ''onOptionsItemSelected'' (take 10 demo_item_body)]\<rparr>"

definition demo_billing :: smali_class where
  "demo_billing =
     \<lparr>class_name = ''Lcom/choiceofgames/choicescript/Billing;'', class_modifiers = [Public],
      super_class = None,
      methods = [demo_method ''alreadyPurchased'' [Instruction ''const/4 v0, 0x0'', Instruction ''return v0''],
                 demo_method ''alreadyPurchased'' [Instruction ''return-void'']]\<rparr>"

definition demo_tight :: smali_class where
  "demo_tight = demo_activity\<lparr>methods := (methods demo_activity)[1 := (methods demo_activity ! 1)\<lparr>locals := 1\<rparr>]\<rparr>"

definition demo_patched :: smali_class where
  "demo_patched = projr (patch_main_activity parse_fragment demo_activity)"

definition demo_io :: smali_io where
  "demo_io =
     \<lparr>parse_class = (\<lambda>t. if t = ''activity-src'' then Some demo_activity
                         else if t = ''billing-src'' then Some demo_billing
                         else if t = ''Lcom/choiceofgames/choicescript/ChoiceScriptActivity;'' then Some demo_patched
                         else None),
      print_class = class_name,
      parse_frag = parse_fragment\<rparr>"

definition demo_root :: path where
  "demo_root = [''project'']"

definition demo_fs :: "string \<Rightarrow> string \<Rightarrow> fs" where
  "demo_fs billing_src index_html =
     \<lparr>files = [activity_path demo_root \<mapsto> ''activity-src'', billing_path demo_root \<mapsto> billing_src,
               index_path demo_root \<mapsto> index_html],
      dirs = {smali_choice_path demo_root, demo_root @ [''assets''], demo_root @ [''assets'', ''mygame'']}\<rparr>"

definition text_fs :: fs where
  "text_fs =
     \<lparr>files = [activity_path demo_root \<mapsto> print_smali demo_activity, billing_path demo_root \<mapsto> print_smali demo_billing,
               index_path demo_root \<mapsto> ''<head></head>''],
      dirs = {smali_choice_path demo_root, demo_root @ [''assets''], demo_root @ [''assets'', ''mygame'']}\<rparr>"

subsection \<open>Witnesses\<close>

lemmas demo_defs = demo_tight_def demo_patched_def demo_io_def demo_root_def demo_fs_def demo_activity_def demo_broken_def demo_billing_def demo_method_def demo_menu_body_def demo_item_body_def
lemmas path_defs = activity_path_def billing_path_def list_js_path_def index_path_def smali_choice_path_def
lemmas run_defs = main_def io_bind_def write_file_def read_to_string_def find_method_def normal_forms
lemmas payload_defs = ADD_MOD_BUTTON_def ON_MOD_PRESSED_def START_MOD_def RETURN_TRUE_def
  parse_line_def trim_def is_blank_char_def


lemma demo_activity_patches: "\<exists>c'. patch_main_activity parse_fragment demo_activity = Inr c'"
  by (simp add: normal_forms demo_defs payload_defs find_method_def)

lemma demo_item_selected_index: "find_method ''onOptionsItemSelected'' (methods demo_activity) = Some 2"
  by (simp add: demo_defs find_method_def)

theorem patch_main_activity_label_before_end_witness:
  "\<exists>c'. patch_main_activity parse_fragment demo_activity = Inr c' \<and>
        find_method ''onOptionsItemSelected'' (methods demo_activity) = Some 2 \<and>
        (\<exists>k. instructions (methods c' ! 2) ! k = Label ''pswitch_mod'' \<and>
             position is_pswitch_end (instructions (methods c' ! 2)) = Some (Suc k))"
proof -
  obtain c' where p: "patch_main_activity parse_fragment demo_activity = Inr c'"
    using demo_activity_patches by blast
  from patch_main_activity_label_before_end [OF p demo_item_selected_index]
  show ?thesis using p demo_item_selected_index by blast
qed

theorem patch_main_activity_errors_witness:
  "patch_main_activity parse_fragment demo_broken =
     Inl (MissingAnchor ''couldn't find pswitch end in onOptionsItemSelected'') \<and>
   MissingAnchor ''couldn't find pswitch end in onOptionsItemSelected'' \<in>
     {MissingMethod ''couldn't find onCreateOptionsMenu'',
      MissingMethod ''couldn't find onOptionsItemSelected'',
      MissingAnchor ''couldn't find return in onOptionsItemSelected'',
      MissingAnchor ''couldn't find pswitch end in onOptionsItemSelected'',
      FragmentParseError}"
proof -
  have p: "patch_main_activity parse_fragment demo_broken =
             Inl (MissingAnchor ''couldn't find pswitch end in onOptionsItemSelected'')"
    by (simp add: normal_forms demo_defs payload_defs find_method_def)
  show ?thesis using patch_main_activity_errors [OF p] p by blast
qed

theorem position_first_match_witness:
  "position is_return demo_item_body = Some 5 \<and> is_return (demo_item_body ! 5) \<and>
   \<not> list_ex is_return (take 5 demo_item_body)"
proof -
  have "5 < length demo_item_body \<and> is_return (demo_item_body ! 5) \<and> (\<forall>j<5. \<not> is_return (demo_item_body ! j))"
    by (simp add: demo_item_body_def All_less_Suc numeral_eq_Suc)
  with position_first_match [of is_return demo_item_body 5] show ?thesis
    by (simp add: demo_item_body_def)
qed

theorem vec_splice_shape_witness:
  "vec_splice 1 2 [7, 8] [1, 2, 3 :: nat] = Inr [1, 7, 8, 3]"
  using vec_splice_shape [of 1 2 "[1, 2, 3 :: nat]" "[7, 8]"] by simp

text \<open>The first end-to-end scenario of the specification (section 8): a fragment inserted
  after position 0 of a one-entry body.\<close>

theorem insert_after_shape_witness:
  "vec_splice 1 1 [Instruction ''const/4 v0, 0x1'', Instruction ''return v0''] [Instruction ''return-void''] =
     Inr [Instruction ''return-void'', Instruction ''const/4 v0, 0x1'', Instruction ''return v0'']"
  using insert_after_shape [of 0 "[Instruction ''return-void'']"
                               "[Instruction ''const/4 v0, 0x1'', Instruction ''return v0'']"]
  by simp

text \<open>The second scenario: a label inserted before the \<open>.end packed-switch\<close> at index 13.\<close>

theorem vec_insert_shape_witness:
  "position is_pswitch_end demo_item_body = Some 13 \<and>
   (\<exists>ys. vec_insert 13 (Label ''x'') demo_item_body = Inr ys \<and>
         ys ! 13 = Label ''x'' \<and> ys ! 14 = Instruction ''.end packed-switch'' \<and> length ys = 15)"
proof -
  have len: "13 \<le> length demo_item_body" "length demo_item_body = 14"
    by (simp_all add: demo_item_body_def)
  obtain ys where ys: "vec_insert 13 (Label ''x'') demo_item_body = Inr ys"
    "length ys = Suc (length demo_item_body)" "ys ! 13 = Label ''x''"
    "\<forall>k. 13 \<le> k \<and> k < length demo_item_body \<longrightarrow> ys ! Suc k = demo_item_body ! k"
    using vec_insert_shape [OF len(1), of "Label ''x''"] by blast
  have "ys ! 14 = demo_item_body ! 13" using ys(4) len by (simp add: numeral_eq_Suc)
  moreover have "position is_pswitch_end demo_item_body = Some 13"
    by (simp add: demo_item_body_def)
  ultimately show ?thesis using ys len by (simp add: demo_item_body_def)
qed
theorem patch_main_activity_relocates_end_witness:
  "\<exists>c'. patch_main_activity parse_fragment demo_activity = Inr c' \<and>
        instructions (methods c' ! 2) =
          take 6 demo_item_body @ the (parse_fragment ON_MOD_PRESSED) @
          take 7 (drop 6 demo_item_body) @ Label ''pswitch_mod'' # drop 13 demo_item_body"
proof -
  obtain c' where p: "patch_main_activity parse_fragment demo_activity = Inr c'"
    using demo_activity_patches by blast
  obtain f where f: "parse_fragment ON_MOD_PRESSED = Some f" and nf: "\<forall>x\<in>set f. \<not> is_pswitch_end x"
    using parse_on_mod_pressed by simp
  have r: "position is_return (instructions (methods demo_activity ! 2)) = Some 5"
    and q: "position is_pswitch_end (instructions (methods demo_activity ! 2)) = Some 13"
    by (simp_all add: demo_defs)
  have "instructions (methods demo_activity ! 2) = demo_item_body" by (simp add: demo_defs)
  with patch_main_activity_relocates_end [OF p demo_item_selected_index r q f nf] p f
  show ?thesis by (simp add: Let_def)
qed

theorem patch_main_activity_adds_start_mod_witness:
  "\<exists>c' body. patch_main_activity parse_fragment demo_activity = Inr c' \<and>
     parse_fragment START_MOD = Some body \<and>
     length (methods c') = 4 \<and> methods c' ! 3 = start_mod body \<and>
     find_method ''startMod'' (methods c') = Some 3"
proof -
  obtain c' where p: "patch_main_activity parse_fragment demo_activity = Inr c'"
    using demo_activity_patches by blast
  obtain body where b: "parse_fragment START_MOD = Some body"
    by (simp add: payload_defs)
  have "find_method ''startMod'' (methods demo_activity) = None"
    by (simp add: demo_defs find_method_def)
  moreover have "length (methods demo_activity) = 3" by (simp add: demo_defs)
  ultimately show ?thesis
    using patch_main_activity_adds_start_mod [OF p b] p b by auto
qed

theorem patch_billing_result_witness:
  "\<exists>c'. patch_billing parse_fragment demo_billing = Inr c' \<and>
        methods c' ! 0 = (methods demo_billing ! 0)\<lparr>instructions :=
          [Instruction ''const/4 v0, 0x1'', Instruction ''return v0'']\<rparr> \<and>
        methods c' ! 1 = methods demo_billing ! 1"
proof -
  have b: "parse_fragment RETURN_TRUE = Some [Instruction ''const/4 v0, 0x1'', Instruction ''return v0'']"
    by (simp add: payload_defs)
  obtain c' where p: "patch_billing parse_fragment demo_billing = Inr c'"
    by (simp add: normal_forms demo_defs payload_defs find_method_def)
  have "find_method ''alreadyPurchased'' (methods demo_billing) = Some 0"
    and "length (methods demo_billing) = 2"
    by (simp_all add: demo_defs find_method_def)
  with patch_billing_result [OF p b] p show ?thesis by auto
qed
lemma demo_patched_eq: "patch_main_activity parse_fragment demo_activity = Inr demo_patched"
  using demo_activity_patches by (auto simp: demo_patched_def)

lemma demo_main_result:
  "main demo_io ''js'' ''<script/></head>'' demo_root (demo_fs ''billing-src'' index_html) =
     (Inr (), (demo_fs ''billing-src'' index_html)\<lparr>files := (files (demo_fs ''billing-src'' index_html))
        (activity_path demo_root \<mapsto> ''Lcom/choiceofgames/choicescript/ChoiceScriptActivity;'',
         billing_path demo_root \<mapsto> ''Lcom/choiceofgames/choicescript/Billing;'',
         list_js_path demo_root \<mapsto> ''js'',
         index_path demo_root \<mapsto> str_replace index_html ''</head>'' ''<script/></head>'')\<rparr>)"
  by (simp add: run_defs demo_defs payload_defs path_defs)

theorem main_partial_write_witness:
  "main demo_io ''js'' ''<script/></head>'' demo_root (demo_fs ''activity-src'' ''<head></head>'') =
     (Inl (MissingMethod ''couldn't find alreadyPurchased''),
      (demo_fs ''activity-src'' ''<head></head>'')\<lparr>files := (files (demo_fs ''activity-src'' ''<head></head>''))
        (activity_path demo_root \<mapsto> print_class demo_io demo_patched)\<rparr>)"
proof -
  let ?s = "demo_fs ''activity-src'' ''<head></head>''"
  have a: "files ?s (activity_path demo_root) = Some ''activity-src''"
    and b: "files ?s (billing_path demo_root) = Some ''activity-src''"
    and d: "smali_choice_path demo_root \<in> dirs ?s"
    by (simp_all add: demo_fs_def demo_root_def path_defs)
  have p: "parse_class demo_io ''activity-src'' = Some demo_activity"
    by (simp add: demo_io_def)
  have m: "patch_main_activity (parse_frag demo_io) demo_activity = Inr demo_patched"
    using demo_patched_eq by (simp add: demo_io_def)
  have e: "patch_billing (parse_frag demo_io) demo_activity = Inl (MissingMethod ''couldn't find alreadyPurchased'')"
    by (simp add: normal_forms demo_defs find_method_def)
  show ?thesis using main_partial_write [OF a p m d b p e] .
qed

theorem main_first_error_witness:
  "fst (patch_class demo_io (activity_path demo_root) (patch_main_activity (parse_frag demo_io))
          \<lparr>files = Map.empty, dirs = {}\<rparr>) = Inl (IOError (activity_path demo_root)) \<and>
   main demo_io ''js'' ''<script/></head>'' demo_root \<lparr>files = Map.empty, dirs = {}\<rparr> =
     (Inl (IOError (activity_path demo_root)), \<lparr>files = Map.empty, dirs = {}\<rparr>)"
proof -
  have h: "fst (patch_class demo_io (activity_path demo_root) (patch_main_activity (parse_frag demo_io))
             \<lparr>files = Map.empty, dirs = {}\<rparr>) = Inl (IOError (activity_path demo_root))"
    by (simp add: normal_forms)
  show ?thesis using main_first_error [OF h] h by simp
qed

theorem main_assets_after_patches_witness:
  "\<exists>s' s1 s2.
     main demo_io ''js'' ''<script/></head>'' demo_root (demo_fs ''billing-src'' ''<head></head>'') = (Inr (), s') \<and>
     list_js_path demo_root \<in> {list_js_path demo_root, index_path demo_root} \<and>
     files s' (list_js_path demo_root) \<noteq> files (demo_fs ''billing-src'' ''<head></head>'') (list_js_path demo_root) \<and>
     patch_class demo_io (activity_path demo_root) (patch_main_activity (parse_frag demo_io))
       (demo_fs ''billing-src'' ''<head></head>'') = (Inr (), s1) \<and>
     patch_class demo_io (billing_path demo_root) (patch_billing (parse_frag demo_io)) s1 = (Inr (), s2)"
proof -
  let ?s = "demo_fs ''billing-src'' ''<head></head>''"
  obtain s' where run: "main demo_io ''js'' ''<script/></head>'' demo_root ?s = (Inr (), s')"
    and js: "files s' (list_js_path demo_root) = Some ''js''"
    using demo_main_result by simp
  have "files ?s (list_js_path demo_root) = None"
    by (simp add: demo_fs_def demo_root_def path_defs)
  with js have ne: "files s' (list_js_path demo_root) \<noteq> files ?s (list_js_path demo_root)" by simp
  have mem: "list_js_path demo_root \<in> {list_js_path demo_root, index_path demo_root}" by simp
  from main_assets_after_patches [OF run mem ne] run ne show ?thesis by blast
qed

theorem main_no_marker_witness:
  "\<exists>s'. main demo_io ''js'' ''<script/></head>'' demo_root (demo_fs ''billing-src'' ''<html></html>'') = (Inr (), s') \<and>
        \<not> sublist ''</head>'' ''<html></html>'' \<and>
        files s' (index_path demo_root) = Some ''<html></html>''"
proof -
  let ?s = "demo_fs ''billing-src'' ''<html></html>''"
  obtain s' where run: "main demo_io ''js'' ''<script/></head>'' demo_root ?s = (Inr (), s')"
    using demo_main_result by simp
  have idx: "files ?s (index_path demo_root) = Some ''<html></html>''"
    by (simp add: demo_fs_def demo_root_def path_defs)
  have nm: "\<not> sublist ''</head>'' ''<html></html>''" by code_simp
  from main_no_marker [OF run idx nm] run nm show ?thesis by blast
qed

theorem patch_class_roundtrip_witness:
  "\<exists>s'. patch_class demo_io (activity_path demo_root) (patch_main_activity parse_fragment)
          (demo_fs ''billing-src'' ''<head></head>'') = (Inr (), s') \<and>
        parse_class demo_io (print_class demo_io demo_patched) = Some demo_patched \<and>
        read_from_file demo_io (activity_path demo_root) s' = (Inr demo_patched, s')"
proof -
  let ?s = "demo_fs ''billing-src'' ''<head></head>''"
  have pc: "parse_class demo_io (print_class demo_io demo_patched) = Some demo_patched"
    using demo_patched_eq by (auto simp: demo_io_def demo_defs payload_defs patch_main_activity_eq
      patch_item_selected_eq find_method_def)
  obtain s' where run: "patch_class demo_io (activity_path demo_root) (patch_main_activity parse_fragment) ?s = (Inr (), s')"
    by (simp add: normal_forms write_file_def demo_defs payload_defs path_defs find_method_def)
  have rd: "read_from_file demo_io (activity_path demo_root) ?s = (Inr demo_activity, ?s)"
    by (simp add: read_from_file_def io_bind_def io_lift_def read_to_string_def demo_defs path_defs)
  from patch_class_roundtrip [OF run] rd demo_patched_eq pc run show ?thesis by auto
qed

theorem str_replace_single_marker_witness:
  "str_replace ''<head></head>'' ''</head>'' ''<script/></head>'' = ''<head><script/></head>''"
proof -
  have "''</head>'' \<noteq> []" and "\<not> sublist ''</head>'' (''<head>'' @ butlast ''</head>'')"
    and "\<not> sublist ''</head>'' []"
    by code_simp+
  from str_replace_single_marker [OF this, of "''<script/></head>''"] show ?thesis by simp
qed

theorem patch_main_activity_twice_witness:
  "\<exists>c1 c2 f. patch_main_activity parse_fragment demo_activity = Inr c1 \<and>
     patch_main_activity parse_fragment c1 = Inr c2 \<and>
     find_method ''onOptionsItemSelected'' (methods demo_activity) = Some 2 \<and>
     parse_fragment ON_MOD_PRESSED = Some f \<and>
     length (methods c2) = 5 \<and>
     count_list (instructions (methods c2 ! 2)) (Label ''pswitch_mod'') = 4"
proof -
  obtain c2 where r2: "patch_main_activity parse_fragment demo_patched = Inr c2"
    using demo_patched_eq
    by (auto simp: demo_patched_def demo_defs payload_defs normal_forms
        find_method_def set_instructions_def update_method_def)
  have "length (methods demo_activity) = 3"
    and "count_list (instructions (methods demo_activity ! 2)) (Label ''pswitch_mod'') = 0"
    by (simp_all add: demo_defs)
  with patch_main_activity_twice [OF demo_patched_eq r2 demo_item_selected_index parse_on_mod_pressed]
    demo_patched_eq r2 demo_item_selected_index parse_on_mod_pressed
  show ?thesis by auto
qed

theorem patch_main_activity_keeps_entries_witness:
  "\<exists>c' f. patch_main_activity parse_fragment demo_activity = Inr c' \<and>
        parse_fragment ON_MOD_PRESSED = Some f \<and>
        subseq demo_item_body (instructions (methods c' ! 2)) \<and>
        mset (instructions (methods c' ! 2)) = mset demo_item_body + mset f + {#Label ''pswitch_mod''#}"
proof -
  obtain c' where p: "patch_main_activity parse_fragment demo_activity = Inr c'"
    using demo_activity_patches by blast
  obtain f where f: "parse_fragment ON_MOD_PRESSED = Some f"
    using parse_on_mod_pressed by simp
  have "instructions (methods demo_activity ! 2) = demo_item_body" by (simp add: demo_defs)
  with patch_main_activity_keeps_entries [OF p demo_item_selected_index f] p f show ?thesis by auto
qed

lemma demo_item_wf: "wf_body demo_item_body"
  by (simp add: wf_body_def scan_def scan_init_def text_refs_def demo_item_body_def)

lemma demo_patched_item:
  "instructions (methods demo_patched ! 2) =
     take 6 demo_item_body @
     [Label ''pswitch_mod'',
      Instruction ''invoke-direct {p0}, Lcom/choiceofgames/choicescript/ChoiceScriptActivity;->startMod()V'',
      Instruction ''const/4 v0, 0x1'', Instruction ''return v0''] @
     take 7 (drop 6 demo_item_body) @ [Label ''pswitch_mod'', Instruction ''.end packed-switch'']"
  using demo_patched_eq
  by (simp add: demo_defs payload_defs normal_forms find_method_def set_instructions_def update_method_def)

theorem patch_main_activity_keeps_wf_witness:
  "patch_main_activity parse_fragment demo_activity = Inr demo_patched \<and>
   find_method ''onOptionsItemSelected'' (methods demo_activity) = Some 2 \<and>
   wf_body (instructions (methods demo_activity ! 2)) \<and>
   Label ''pswitch_mod'' \<notin> set (instructions (methods demo_activity ! 2)) \<and>
   wf_body (instructions (methods demo_patched ! 2))"
proof -
  have b: "instructions (methods demo_activity ! 2) = demo_item_body" by (simp add: demo_defs)
  have n: "Label ''pswitch_mod'' \<notin> set demo_item_body" by (simp add: demo_item_body_def)
  show ?thesis
    using patch_main_activity_keeps_wf [OF demo_patched_eq demo_item_selected_index] demo_item_wf n
      demo_patched_eq demo_item_selected_index
    by (simp add: b)
qed

theorem patch_main_activity_twice_not_wf_witness:
  "\<exists>c2. patch_main_activity parse_fragment demo_activity = Inr demo_patched \<and>
        find_method ''onOptionsItemSelected'' (methods demo_activity) = Some 2 \<and>
        wf_body (instructions (methods demo_patched ! 2)) \<and>
        patch_main_activity parse_fragment demo_patched = Inr c2 \<and>
        \<not> wf_body (instructions (methods c2 ! 2))"
proof -
  obtain c2 where r2: "patch_main_activity parse_fragment demo_patched = Inr c2"
    using demo_patched_eq
    by (auto simp: demo_patched_def demo_defs payload_defs normal_forms
        find_method_def set_instructions_def update_method_def)
  have wf1: "wf_body (instructions (methods demo_patched ! 2))"
    by (simp add: demo_patched_item wf_body_def scan_def scan_init_def text_refs_def demo_item_body_def)
  show ?thesis
    using patch_main_activity_twice_not_wf [OF demo_patched_eq demo_item_selected_index wf1 r2]
      demo_patched_eq demo_item_selected_index wf1 r2 by blast
qed

lemma demo_activity_wf: "wf_class demo_activity"
proof -
  have "wf_body [Instruction ''return-void'']" "wf_body demo_menu_body"
    by (simp_all add: wf_body_def scan_def scan_init_def text_refs_def demo_menu_body_def)
  with demo_item_wf show ?thesis by (simp add: wf_class_def demo_activity_def demo_method_def)
qed

theorem patch_main_activity_keeps_wf_class_witness:
  "patch_main_activity parse_fragment demo_activity = Inr demo_patched \<and> wf_class demo_activity \<and>
   find_method ''onCreateOptionsMenu'' (methods demo_activity) = Some 1 \<and>
   is_return (last (instructions (methods demo_activity ! 1))) \<and>
   find_method ''onOptionsItemSelected'' (methods demo_activity) = Some 2 \<and>
   Label ''pswitch_mod'' \<notin> set (instructions (methods demo_activity ! 2)) \<and>
   wf_class demo_patched"
proof -
  have m: "find_method ''onCreateOptionsMenu'' (methods demo_activity) = Some 1"
    and l: "is_return (last (instructions (methods demo_activity ! 1)))"
    and n: "Label ''pswitch_mod'' \<notin> set (instructions (methods demo_activity ! 2))"
    by (simp_all add: demo_defs find_method_def)
  show ?thesis
    using patch_main_activity_keeps_wf_class [OF demo_patched_eq demo_activity_wf m l demo_item_selected_index n]
      demo_patched_eq demo_activity_wf m l demo_item_selected_index n by blast
qed

lemma demo_activity_regs: "regs_ok_class demo_activity"
  by (simp add: regs_ok_class_def regs_ok_def demo_activity_def demo_method_def demo_menu_body_def
      demo_item_body_def ins_count_def body_regs_ok_def instr_regs_def is_reg_sep_def is_digit_def
      nat_of_digits_def reg_in_range_def map_filter_def)

theorem patch_main_activity_keeps_regs_witness:
  "patch_main_activity parse_fragment demo_activity = Inr demo_patched \<and> regs_ok_class demo_activity \<and>
   find_method ''onCreateOptionsMenu'' (methods demo_activity) = Some 1 \<and>
   2 \<le> locals (methods demo_activity ! 1) \<and> 2 \<le> ins_count (methods demo_activity ! 1) \<and>
   find_method ''onOptionsItemSelected'' (methods demo_activity) = Some 2 \<and>
   1 \<le> locals (methods demo_activity ! 2) \<and> 1 \<le> ins_count (methods demo_activity ! 2) \<and>
   regs_ok_class demo_patched"
proof -
  have m: "find_method ''onCreateOptionsMenu'' (methods demo_activity) = Some 1"
    and h: "2 \<le> locals (methods demo_activity ! 1)" "2 \<le> ins_count (methods demo_activity ! 1)"
      "1 \<le> locals (methods demo_activity ! 2)" "1 \<le> ins_count (methods demo_activity ! 2)"
    by (simp_all add: demo_defs find_method_def ins_count_def)
  show ?thesis
    using patch_main_activity_keeps_regs [OF demo_patched_eq demo_activity_regs m h(1,2)
        demo_item_selected_index h(3,4)]
      demo_patched_eq demo_activity_regs m h demo_item_selected_index by blast
qed

theorem patch_main_activity_menu_needs_two_locals_witness:
  "\<exists>c'. patch_main_activity parse_fragment demo_tight = Inr c' \<and>
        find_method ''onCreateOptionsMenu'' (methods demo_tight) = Some 1 \<and>
        locals (methods demo_tight ! 1) < 2 \<and> \<not> regs_ok (methods c' ! 1)"
proof -
  obtain c' where p: "patch_main_activity parse_fragment demo_tight = Inr c'"
    by (simp add: normal_forms demo_defs payload_defs find_method_def)
  have m: "find_method ''onCreateOptionsMenu'' (methods demo_tight) = Some 1"
    and l: "locals (methods demo_tight ! 1) < 2"
    by (simp_all add: demo_defs find_method_def)
  show ?thesis using patch_main_activity_menu_needs_two_locals [OF p m l] p m l by blast
qed

theorem main_steps_frame_witness:
  "main_steps demo_io ''js'' ''<script/></head>'' demo_root (Start, demo_fs ''billing-src'' ''<head></head>'')
     (fst (after (read_from_file demo_io (activity_path demo_root) (demo_fs ''billing-src'' ''<head></head>'')) ActivityRead),
      snd (after (read_from_file demo_io (activity_path demo_root) (demo_fs ''billing-src'' ''<head></head>'')) ActivityRead)) \<and>
   [''other''] \<notin> {activity_path demo_root, billing_path demo_root, list_js_path demo_root, index_path demo_root} \<and>
   files (snd (after (read_from_file demo_io (activity_path demo_root) (demo_fs ''billing-src'' ''<head></head>'')) ActivityRead))
     [''other''] = files (demo_fs ''billing-src'' ''<head></head>'') [''other''] \<and>
   dirs (snd (after (read_from_file demo_io (activity_path demo_root) (demo_fs ''billing-src'' ''<head></head>'')) ActivityRead)) =
     dirs (demo_fs ''billing-src'' ''<head></head>'')"
proof -
  let ?y = "after (read_from_file demo_io (activity_path demo_root) (demo_fs ''billing-src'' ''<head></head>'')) ActivityRead"
  have run: "main_steps demo_io ''js'' ''<script/></head>'' demo_root (Start, demo_fs ''billing-src'' ''<head></head>'') (fst ?y, snd ?y)"
    using main_step.read_activity [of demo_io "''js''" "''<script/></head>''" demo_root "demo_fs ''billing-src'' ''<head></head>''"]
    by (metis prod.collapse r_into_rtranclp)
  have p: "[''other''] \<notin> {activity_path demo_root, billing_path demo_root, list_js_path demo_root, index_path demo_root}"
    by (simp add: path_defs demo_defs)
  from main_steps_frame [OF run p] have "files (snd ?y) [''other''] = files (demo_fs ''billing-src'' ''<head></head>'') [''other'']"
    "dirs (snd ?y) = dirs (demo_fs ''billing-src'' ''<head></head>'')" by simp_all
  with run p show ?thesis by blast
qed

lemma demo_classes_ok: "class_ok demo_activity" "class_ok demo_billing"
  by (simp_all add: class_ok_def method_ok_def entry_ok_def annotation_ok_def trimmed_def demo_defs
      is_space_def is_newline_def is_blank_char_def)

lemma text_run: "\<exists>s'. main text_io ''js'' ''<script/></head>'' demo_root text_fs = (Inr (), s')"
proof -
  obtain cb' where cb': "patch_billing parse_fragment demo_billing = Inr cb'"
    by (simp add: normal_forms demo_defs payload_defs find_method_def)
  show ?thesis
    using demo_patched_eq cb' print_smali_reads_back [OF demo_classes_ok(1)] print_smali_reads_back [OF demo_classes_ok(2)]
    by (simp add: main_def io_bind_Inr_iff patch_class_Inr_iff write_file_Inr_iff read_to_string_Inr_iff
        text_io_def text_fs_def path_defs demo_root_def)
qed

theorem main_rerun_duplicates_witness:
  "\<exists>s'. main text_io ''js'' ''<script/></head>'' demo_root text_fs = (Inr (), s') \<and>
     (\<exists>ca ca' ca'' s''.
        read_from_file text_io (activity_path demo_root) text_fs = (Inr ca, text_fs) \<and>
        patch_main_activity parse_fragment ca = Inr ca' \<and>
        read_from_file text_io (activity_path demo_root) s' = (Inr ca', s') \<and>
        patch_main_activity parse_fragment ca' = Inr ca'' \<and>
        main text_io ''js'' ''<script/></head>'' demo_root s' = (Inr (), s'') \<and>
        read_from_file text_io (activity_path demo_root) s'' = (Inr ca'', s'') \<and>
        length (methods ca'') = length (methods ca) + 2)"
proof -
  obtain s' where run: "main text_io ''js'' ''<script/></head>'' demo_root text_fs = (Inr (), s')"
    using text_run by blast
  show ?thesis using main_rerun_duplicates [OF run] run by blast
qed

end
