(* ===== verification/Spec2Isabelle.thy ===== *)
theory Spec2Isabelle
  imports Examples Orchestrator Engine Registers Steps Smali_Text Reread
begin

text \<open>
  \<^bold>\<open>A verified model of the smali patcher of \<open>src/src/main.rs\<close>.\<close>

  \<^bold>\<open>The program.\<close> \<open>main\<close> takes the root of a decompiled Android project, patches two
  disassembled classes and then writes two web assets. For each class, \<open>patch_class\<close> reads
  the file through the \<open>smali\<close> crate, applies a patch function to the in-memory class and
  writes the class back. \<open>patch_main_activity\<close> edits \<open>ChoiceScriptActivity\<close>: it finds
  \<open>onCreateOptionsMenu\<close>, pops its last entry and appends a fragment that adds a "Mod" menu
  item; it finds \<open>onOptionsItemSelected\<close>, splices a handler right after its first
  \<open>return\<close>, locates \<open>.end packed-switch\<close> again in the edited body and inserts the label
  \<open>pswitch_mod\<close> before it; and it synthesizes a method \<open>startMod\<close> and pushes it onto
  the class. \<open>patch_billing\<close> replaces the body of \<open>alreadyPurchased\<close> with
  \<open>return true\<close>. Every lookup that fails returns an error through \<open>require_with!\<close> or
  \<open>?\<close>, and \<open>main\<close> stops at the first one. Only after both classes are written does
  \<open>main\<close> write \<open>assets/list.min.js\<close> and substitute \<open>mod.html\<close> for
  \<open></head>\<close> in \<open>assets/mygame/index.html\<close>.

  \<^bold>\<open>Library layout and correspondence.\<close>
  \<^item> \<open>Prelude\<close>: the error type (missing method, missing anchor, fragment parse error,
    I/O error on a path, unparsable class file, panic), the result type \<open>error + 'a\<close>,
    \<open>bind_res\<close> for \<open>?\<close>, \<open>require_with\<close> for \<open>require_with!\<close>, and list facts
    about a prefix, a middle part and a suffix glued together.
  \<^item> \<open>Smali_Model\<close>: the types of the \<open>smali\<close> crate (\<open>SmaliInstruction\<close>,
    \<open>Modifier\<close>, \<open>TypeSignature\<close>, \<open>MethodSignature\<close>, \<open>SmaliMethod\<close>,
    \<open>SmaliClass\<close>) as datatypes and records, and \<open>set_instructions\<close>, a write through the
    \<open>&mut SmaliMethod\<close> that \<open>iter_mut().find\<close> returns, as an update at the method's index.
  \<^item> \<open>Vec\<close>: \<open>Iterator::position\<close>, \<open>Vec::pop\<close>, \<open>Vec::splice\<close> and
    \<open>Vec::insert\<close>, with the standard library's panics as \<open>Panic\<close> errors. These are the
    anchor locator and the edit primitives of the specification.
  \<^item> \<open>Locator\<close>: \<open>str::starts_with\<close>, the two anchor predicates (lines 97--100 and
    108--111) and the method lookup by name (lines 77--81).
  \<^item> \<open>Fragment\<close>: a concrete \<open>parse_fragment\<close>, reconstructed from the specification,
    because the crate is not in the repository. The patches take the parser as a parameter, so
    their theorems hold for any parser.
  \<^item> \<open>Smali_Text\<close>: a concrete class printer \<open>print_smali\<close> and parser \<open>parse_smali\<close>
    for the part of the smali syntax the model holds (class and method headers, \<open>.locals\<close>,
    annotations, entries), reconstructed from the specification for the same reason, and the
    predicate \<open>class_ok\<close> of the classes they agree on.
  \<^item> \<open>Patches\<close>: the payload constants (lines 25--64), \<open>patch_main_activity\<close> as the
    composition of \<open>patch_options_menu\<close>, \<open>patch_item_selected\<close> and
    \<open>add_start_mod\<close> (lines 76--132), and \<open>patch_billing\<close> (lines 134--144).
  \<^item> \<open>Assets\<close>: \<open>str::replace\<close> (line 164) as a recursion on the text.
  \<^item> \<open>Orchestrator\<close>: the file system as a record of files and directories. An action maps
    it to a result and the new file system, so writes made before an error stay. It also holds
    \<open>fs::read_to_string\<close>, \<open>fs::write\<close>, the crate's class reader and writer (fields
    of the boundary record \<open>smali_io\<close>), \<open>patch_class\<close> (lines 66--74), the path
    constants and \<open>main\<close> (lines 149--166). \<open>main\<close> takes the project path that
    \<open>Args::parse\<close> (line 147) returns as its argument \<open>root\<close>.
  \<^item> \<open>Wellformed\<close>: the structural validity that section 3 of the specification asks of
    every edit, which the source never checks. \<open>scan_step\<close> reads a body left to right:
    a label outside a packed-switch table defines it, a label inside a table refers to it,
    \<open>:name\<close> tokens of an instruction refer to labels, a table opens at
    \<open>.packed-switch\<close> and closes at \<open>.end packed-switch\<close> and holds only labels.
    \<open>wf_body\<close> asks that the scan succeed, end outside a table, define every referenced
    label and define no label twice. A scan from any state is the scan from empty label lists
    with the state's lists in front (\<open>scan_frame\<close>), which reduces every edit to the part
    of the body it touches.
  \<^item> \<open>Engine\<close>: the payload-agnostic patch engine that section 9 of the specification
    proposes. A descriptor names a method and a list of edits (pop the last entry, append a
    fragment, insert a fragment after an anchor, insert a label before an anchor, replace the
    body) or a method to synthesize, and \<open>run_descriptors\<close> interprets a list of them with
    the locator and the vector primitives, re-locating every anchor before its edit. It is the
    abstract specification that \<open>patch_main_activity\<close> refines.
  \<^item> \<open>Registers\<close>: register typing of methods: a \<open>v\<close> register an instruction names
    is one of the method's locals and a \<open>p\<close> register one of its parameters.
  \<^item> \<open>Steps\<close>: \<open>main\<close> (lines 149--166) as a small-step relation over a stage and
    the file system. Each of the nine statements of the body that touch the disk or the class
    (three reads, two patches, four writes) is one rule, and an error at any step ends the run.
  \<^item> \<open>Reread\<close>: \<open>main\<close> run with the text boundary of \<open>Smali_Text\<close> and the
    fragment parser (\<open>text_io\<close>): both patches keep a printable class printable, the patch
    applies again to its own output, a second run of the program on the project the first
    one left reads the patched classes, and a class written and read back through
    \<open>text_io\<close> is the class written.
  \<^item> \<open>Examples\<close>: a cut-down \<open>ChoiceScriptActivity\<close>, a \<open>Billing\<close> class, two
    boundaries and file systems, and the witnesses that apply each theorem with hypotheses to
    them.

  \<^bold>\<open>What is proved.\<close>
  \<^item> Patches: the exact result of \<open>patch_main_activity\<close> and the exact conditions under
    which it succeeds (C1). The new label sits immediately before the switch end (C2). The
    end is located again after the splice, at its position shifted by the fragment (C3). The
    patch never panics (C5). Synthesis appends one \<open>startMod\<close>, and an existing method of
    that name shadows it (C15). Patching twice duplicates the edit (C16). No entry of the
    handler is lost or reordered (C20). \<open>patch_billing\<close> replaces only the first
    \<open>alreadyPurchased\<close> body and fails exactly when it should (C13, C14).
  \<^item> Locator and edit primitives: \<open>position\<close> finds the first match (C6). The shapes of
    splice, insert-after and insert given in section 8 of the specification (C7--C9).
  \<^item> Orchestration: the exact conditions under which \<open>main\<close> succeeds and the four files
    it then writes (C4). Assets change only after both class patches succeeded (C10). A failed
    billing patch leaves the rewritten activity on disk (C11). A failed activity patch writes
    nothing (C12). A page without \<open></head>\<close> is silently left as it is (C17). The
    written class reads back as the patched class (C18). One marker is replaced in place
    (C19).
  \<^item> Across components, with the concrete fragment parser: \<open>patch_main_activity\<close>
    succeeds exactly when its two methods and its two anchors exist (C21, in this theory).
  \<^item> Structural validity, with the concrete fragment parser: \<open>patch_main_activity\<close>
    keeps a well-formed item handler that does not yet define \<open>pswitch_mod\<close> well
    formed (C22). The handler fragment lands after a return, where no table is open, and the
    new label lands inside the table. A second run on a well-formed patched class always
    breaks the handler, because \<open>pswitch_mod\<close> is then defined twice (C23). At the
    level of the class, \<open>patch_main_activity\<close> keeps every method valid when
    \<open>onCreateOptionsMenu\<close> ends in a return, the entry it pops (C24).
  \<^item> Refinement: \<open>patch_main_activity\<close> is the engine run on a fixed descriptor list, for
    every parser and class, results and error messages included (C25).
  \<^item> Register typing, with the concrete fragment parser: the patch keeps every method
    register-typed when \<open>onCreateOptionsMenu\<close> has two locals and two parameter
    registers and \<open>onOptionsItemSelected\<close> one of each (C26). With fewer than two locals
    in the menu method, the patch succeeds and the added code writes \<open>v1\<close>, a parameter
    register there (C27).
  \<^item> The run of \<open>main\<close> as a state machine: in every stage of every run, whether it goes
    on, has ended or has failed, files other than the four the program names and all
    directories are unchanged (C28).
  \<^item> Composition with the text boundary: a second run of the program on the project a
    successful run left behind always succeeds, reads the patched activity and adds a second
    \<open>startMod\<close> (C29); writing a class with \<open>write_to_file\<close> and reading it back with
    \<open>read_from_file\<close> gives the class back exactly when it is printable and the write
    succeeds, and the classes \<open>read_from_file\<close> returns are exactly the printable ones (C30).
    Under it lie the lemmas of \<open>Smali_Text\<close> that \<open>parse_smali\<close> reads back what
    \<open>print_smali\<close> prints for a printable class, and returns only printable classes.

  \<^bold>\<open>Bounds and termination.\<close> Every function is total. The recursions are structural,
  except three: \<open>str_replace\<close> terminates by the length of the remaining text, and the
  type-list and method-list parsers of \<open>Smali_Text\<close> by the length of the remaining input,
  which every successful step shortens. Indices are \<open>nat\<close>: the only index arithmetic in
  the source, \<open>ret_pos + 1\<close> on a position below the length of a vector, cannot wrap,
  since a vector holds at most \<open>isize::MAX\<close> entries. No fuel is needed.

  \<^bold>\<open>Not modelled.\<close> The following are left out:
  \<^item> the \<open>smali\<close> crate's own text grammar: the patches and \<open>main\<close> take the reader,
    printer and fragment parser as parameters, and the concrete ones of \<open>Fragment\<close> and
    \<open>Smali_Text\<close> cover only the constructs of the model (no fields, source directives or
    multi-line annotation blocks);
  \<^item> \<open>Args::parse\<close> (line 147): it is derived by \<open>clap\<close>, outside the repository, and
    \<open>main\<close> is modelled from the project path it returns; the process exit status is
    Rust's runtime convention for \<open>main\<close>'s \<open>Result\<close>, not code of the repository;
  \<^item> the contents of the bundled \<open>res/\<close> files: they are arguments;
  \<^item> file permissions and every \<open>fs::write\<close> failure other than a missing parent
    directory, and \<open>.\<close> and \<open>..\<close> in paths, which stay plain names;
  \<^item> UTF-8 validation in \<open>read_to_string\<close>.
  Strings are byte lists, which matches Rust for the ASCII payloads and markers of the source.
\<close>

subsection \<open>Properties across components\<close>

lemma payloads_parse:
  "\<exists>f1. parse_fragment ADD_MOD_BUTTON = Some f1"
  "\<exists>f3. parse_fragment START_MOD = Some f3"
  by (simp_all add: payload_defs)

text \<open>
  C21. With the fragment parser of \<open>Fragment\<close>, every payload parses and
  \<open>ON_MOD_PRESSED\<close> holds no switch end, so \<open>patch_main_activity\<close> succeeds exactly
  when the class has an \<open>onCreateOptionsMenu\<close> and its first \<open>onOptionsItemSelected\<close>
  contains both a return and an \<open>.end packed-switch\<close>, in either order.
\<close>

theorem patch_main_activity_succeeds_iff:
  "(\<exists>c'. patch_main_activity parse_fragment c = Inr c') \<longleftrightarrow>
   find_method ''onCreateOptionsMenu'' (methods c) \<noteq> None \<and>
   (\<exists>j. find_method ''onOptionsItemSelected'' (methods c) = Some j \<and>
        list_ex is_return (instructions (methods c ! j)) \<and>
        list_ex is_pswitch_end (instructions (methods c ! j)))"
proof -
  obtain f1 f3 where f1: "parse_fragment ADD_MOD_BUTTON = Some f1" and f3: "parse_fragment START_MOD = Some f3"
    using payloads_parse by blast
  obtain f2 where f2: "parse_fragment ON_MOD_PRESSED = Some f2" and "position is_pswitch_end f2 = None"
    using parse_on_mod_pressed by simp
  then have key: "position is_pswitch_end (spliced s s f2 xs) = None \<longleftrightarrow> position is_pswitch_end xs = None" for s xs
    by (simp add: position_spliced_None_iff)
  show ?thesis
  proof (cases "find_method ''onCreateOptionsMenu'' (methods c)")
    case None
    then show ?thesis by (simp add: normal_forms)
  next
    case (Some i)
    show ?thesis
    proof (cases "find_method ''onOptionsItemSelected'' (methods c)")
      case None
      with Some f1 show ?thesis by (simp add: normal_forms)
    next
      case (Some j)
      let ?b = "instructions (methods c ! j)"
      show ?thesis
      proof (cases "position is_return ?b")
        case None
        with Some \<open>find_method ''onCreateOptionsMenu'' _ = Some i\<close> f1 show ?thesis
          by (simp add: normal_forms list_ex_position)
      next
        case (Some r)
        with \<open>find_method ''onOptionsItemSelected'' _ = Some j\<close> \<open>find_method ''onCreateOptionsMenu'' _ = Some i\<close>
          f1 f2 f3 key [of "Suc r" ?b]
        show ?thesis by (auto simp: normal_forms list_ex_position split: option.splits)
      qed
    qed
  qed
qed
end
